(* ===== verification/HG_Prelude.thy ===== *)
theory HG_Prelude
  imports Main "HOL-Library.Word" "HOL-Library.Code_Target_Nat" "HOL-Library.Sublist" "HOL-Library.List_Lexorder" "HOL-Library.Char_ord"
begin

text \<open>
  The shared vocabulary of the development: Go strings as lists of bytes with the operations of
  the \<^verbatim>\<open>strings\<close>, \<^verbatim>\<open>strconv\<close> and \<^verbatim>\<open>net\<close> packages the engine uses, results of fallible
  code as sums, and the generic facts the component theories rest on.

  A Go string is a byte sequence and so is the type \<^typ>\<open>string\<close>. Case mapping and
  trimming are modelled on ASCII: Go's \<^verbatim>\<open>strings.ToLower\<close>, \<^verbatim>\<open>strings.EqualFold\<close> and
  \<^verbatim>\<open>strings.TrimSpace\<close> agree with the definitions below on ASCII strings, which is what
  header names, host names, addresses and selectors are.
\<close>

named_theorems ctx_simps \<open>equations of the request context operations\<close>
named_theorems go_string_simps \<open>evaluation of Go string operations\<close>

type_synonym ('e, 'a) result = "'e + 'a"

abbreviation Ok :: "'a \<Rightarrow> ('e, 'a) result" where
  "Ok \<equiv> Inr"

abbreviation Err :: "'e \<Rightarrow> ('e, 'a) result" where
  "Err \<equiv> Inl"

definition bind_result :: "('e, 'a) result \<Rightarrow> ('a \<Rightarrow> ('e, 'b) result) \<Rightarrow> ('e, 'b) result" where
  "bind_result r f = (case r of Inl e \<Rightarrow> Inl e | Inr x \<Rightarrow> f x)"

definition map_error :: "('e \<Rightarrow> 'f) \<Rightarrow> ('e, 'a) result \<Rightarrow> ('f, 'a) result" where
  "map_error g r = (case r of Inl e \<Rightarrow> Inl (g e) | Inr x \<Rightarrow> Inr x)"

definition is_ok :: "('e, 'a) result \<Rightarrow> bool" where
  "is_ok r = (case r of Inl _ \<Rightarrow> False | Inr _ \<Rightarrow> True)"

text \<open>A validation loop that stops at its first error, as \<^verbatim>\<open>for ... { if err != nil { return err } }\<close>.\<close>

fun check_all :: "('a \<Rightarrow> ('e, unit) result) \<Rightarrow> 'a list \<Rightarrow> ('e, unit) result" where
  "check_all f [] = Ok ()"
| "check_all f (x # xs) = (case f x of Inl e \<Rightarrow> Inl e | Inr _ \<Rightarrow> check_all f xs)"

text \<open>A loop that collects results and stops at its first error.\<close>

fun map_result :: "('a \<Rightarrow> ('e, 'b) result) \<Rightarrow> 'a list \<Rightarrow> ('e, 'b list) result" where
  "map_result f [] = Ok []"
| "map_result f (x # xs) =
     (case f x of
        Inl e \<Rightarrow> Inl e
      | Inr y \<Rightarrow> (case map_result f xs of Inl e \<Rightarrow> Inl e | Inr ys \<Rightarrow> Inr (y # ys)))"

lemma bind_result_Ok [simp]: "bind_result (Inr x) f = f x"
  by (simp add: bind_result_def)

lemma bind_result_Err [simp]: "bind_result (Inl e) f = Inl e"
  by (simp add: bind_result_def)

lemma bind_result_eq_Ok:
  "bind_result r f = Inr y \<longleftrightarrow> (\<exists>x. r = Inr x \<and> f x = Inr y)"
  by (cases r) simp_all

lemma map_error_simps [simp]:
  "map_error g (Inl e) = Inl (g e)" "map_error g (Inr x) = Inr x"
  by (simp_all add: map_error_def)

lemma map_error_eq_Ok [simp]: "map_error g r = Inr x \<longleftrightarrow> r = Inr x"
  by (cases r) simp_all

lemma is_ok_simps [simp]: "\<not> is_ok (Inl e)" "is_ok (Inr x)"
  by (simp_all add: is_ok_def)

lemma check_all_Ok: "check_all f xs = Inr () \<longleftrightarrow> (\<forall>x\<in>set xs. f x = Inr ())"
  by (induction xs) (auto split: sum.splits)

lemma map_result_Ok:
  "map_result f xs = Inr ys \<longleftrightarrow> list_all2 (\<lambda>x y. f x = Inr y) xs ys"
proof (induction xs arbitrary: ys)
  case Nil
  then show ?case by auto
next
  case (Cons x xs)
  then show ?case
    by (cases "f x"; cases "map_result f xs") (auto simp: list_all2_Cons1)
qed

lemma map_result_member: "map_result f xs = Inr ys \<Longrightarrow> y \<in> set ys \<Longrightarrow> \<exists>x \<in> set xs. f x = Inr y"
  by (induction xs arbitrary: ys) (auto split: sum.splits)

subsection \<open>Characters\<close>

definition char_le :: "char \<Rightarrow> char \<Rightarrow> bool" where
  "char_le a b \<longleftrightarrow> (of_char a :: nat) \<le> of_char b"

definition is_upper :: "char \<Rightarrow> bool" where
  "is_upper c \<longleftrightarrow> char_le CHR ''A'' c \<and> char_le c CHR ''Z''"

definition is_lower_letter :: "char \<Rightarrow> bool" where
  "is_lower_letter c \<longleftrightarrow> char_le CHR ''a'' c \<and> char_le c CHR ''z''"

definition is_digit :: "char \<Rightarrow> bool" where
  "is_digit c \<longleftrightarrow> char_le CHR ''0'' c \<and> char_le c CHR ''9''"

definition digit_val :: "char \<Rightarrow> nat" where
  "digit_val c = of_char c - of_char CHR ''0''"

definition lower_char :: "char \<Rightarrow> char" where
  "lower_char c = (if is_upper c then char_of (of_char c + 32 :: nat) else c)"

definition upper_char :: "char \<Rightarrow> char" where
  "upper_char c = (if is_lower_letter c then char_of (of_char c - 32 :: nat) else c)"

definition is_space :: "char \<Rightarrow> bool" where
  "is_space c \<longleftrightarrow> c \<in> {CHR '' '', CHR 0x09, CHR 0x0A, CHR 0x0B, CHR 0x0C, CHR 0x0D}"

lemma lower_char_idem [simp]: "lower_char (lower_char c) = lower_char c"
proof (cases "is_upper c")
  case True
  then have "of_char c + 32 < (256::nat)" and "97 \<le> of_char c + (32::nat)"
    by (simp_all add: is_upper_def char_le_def)
  then show ?thesis
    using True by (simp add: lower_char_def is_upper_def char_le_def)
next
  case False
  then show ?thesis by (simp add: lower_char_def)
qed

subsection \<open>The strings package\<close>

lemma lower_char_upper: "is_upper c \<Longrightarrow> (of_char (lower_char c) :: nat) = of_char c + 32"
  by (simp add: lower_char_def is_upper_def char_le_def)

lemma is_space_lower [simp]: "is_space (lower_char c) = is_space c"
proof (cases "is_upper c")
  case True
  have space: "is_space d \<Longrightarrow> (of_char d :: nat) \<le> 32" for d by (auto simp: is_space_def)
  from True have "(65 :: nat) \<le> of_char c" by (simp add: is_upper_def char_le_def)
  with space [of c] space [of "lower_char c"] lower_char_upper [OF True] show ?thesis by auto
next
  case False
  then show ?thesis by (simp add: lower_char_def)
qed

definition to_lower :: "string \<Rightarrow> string" where
  "to_lower = map lower_char"

definition to_upper :: "string \<Rightarrow> string" where
  "to_upper = map upper_char"

definition equal_fold :: "string \<Rightarrow> string \<Rightarrow> bool" where
  "equal_fold a b \<longleftrightarrow> to_lower a = to_lower b"

definition trim_space :: "string \<Rightarrow> string" where
  "trim_space s = rev (dropWhile is_space (rev (dropWhile is_space s)))"

definition has_prefix :: "string \<Rightarrow> string \<Rightarrow> bool" where
  "has_prefix s p \<longleftrightarrow> take (length p) s = p"

definition has_suffix :: "string \<Rightarrow> string \<Rightarrow> bool" where
  "has_suffix s p \<longleftrightarrow> length p \<le> length s \<and> drop (length s - length p) s = p"

definition trim_prefix :: "string \<Rightarrow> string \<Rightarrow> string" where
  "trim_prefix s p = (if has_prefix s p then drop (length p) s else s)"

definition trim_suffix :: "string \<Rightarrow> string \<Rightarrow> string" where
  "trim_suffix s p = (if has_suffix s p then take (length s - length p) s else s)"

text \<open>\<^verbatim>\<open>strings.Cut\<close> at a one-byte separator: the text before and after its first occurrence.\<close>

fun cut :: "char \<Rightarrow> string \<Rightarrow> (string \<times> string) option" where
  "cut c [] = None"
| "cut c (x # xs) =
     (if x = c then Some ([], xs)
      else (case cut c xs of None \<Rightarrow> None | Some (a, b) \<Rightarrow> Some (x # a, b)))"

text \<open>\<^verbatim>\<open>strings.Split\<close> at a one-byte separator; the result is never empty.\<close>

fun split_on :: "char \<Rightarrow> string \<Rightarrow> string list" where
  "split_on c [] = [[]]"
| "split_on c (x # xs) =
     (if x = c then [] # split_on c xs
      else (case split_on c xs of [] \<Rightarrow> [[x]] | y # ys \<Rightarrow> (x # y) # ys))"

text \<open>\<^verbatim>\<open>strings.Join\<close>.\<close>

fun join :: "string \<Rightarrow> string list \<Rightarrow> string" where
  "join sep [] = []"
| "join sep [x] = x"
| "join sep (x # y # ys) = x @ sep @ join sep (y # ys)"

definition contains_any :: "string \<Rightarrow> string \<Rightarrow> bool" where
  "contains_any s chars \<longleftrightarrow> (\<exists>c\<in>set s. c \<in> set chars)"

lemma to_lower_idem [simp]: "to_lower (to_lower s) = to_lower s"
  by (simp add: to_lower_def)

lemma to_lower_Nil [simp]: "to_lower [] = []"
  by (simp add: to_lower_def)

lemma to_lower_eq_Nil [simp]: "to_lower s = [] \<longleftrightarrow> s = []"
  by (simp add: to_lower_def)

lemma to_lower_append [simp]: "to_lower (a @ b) = to_lower a @ to_lower b"
  by (simp add: to_lower_def)

lemma has_prefix_iff: "has_prefix s p \<longleftrightarrow> prefix p s"
  unfolding has_prefix_def prefix_def by (metis append_eq_conv_conj append_take_drop_id)

lemma has_suffix_iff: "has_suffix s p \<longleftrightarrow> suffix p s"
proof
  assume h: "has_suffix s p"
  then have "s = take (length s - length p) s @ p"
    unfolding has_suffix_def by (metis append_take_drop_id)
  then show "suffix p s" by (rule suffixI)
next
  assume "suffix p s"
  then obtain t where "s = t @ p" by (rule suffixE)
  then show "has_suffix s p" by (simp add: has_suffix_def)
qed

lemma cut_None [simp]: "cut c s = None \<longleftrightarrow> c \<notin> set s"
  by (induction s) (auto split: option.splits)

lemma cut_absent [simp]: "c \<notin> set s \<Longrightarrow> cut c s = None"
  by simp

lemma cut_Some: "cut c s = Some (a, b) \<Longrightarrow> s = a @ c # b \<and> c \<notin> set a"
  by (induction s arbitrary: a b) (auto split: if_splits option.splits)

lemma cut_append [simp]: "c \<notin> set a \<Longrightarrow> cut c (a @ c # b) = Some (a, b)"
  by (induction a) auto

lemma split_on_not_Nil [simp]: "split_on c s \<noteq> []"
  by (cases s) (auto split: list.splits)

lemma join_split_on: "join [c] (split_on c s) = s"
proof (induction s)
  case Nil
  then show ?case by simp
next
  case (Cons x xs)
  show ?case
  proof (cases "split_on c xs")
    case Nil
    then show ?thesis by simp
  next
    case (Cons y ys)
    with Cons.IH show ?thesis by (cases ys) auto
  qed
qed

lemma split_on_parts: "p \<in> set (split_on c s) \<Longrightarrow> c \<notin> set p"
proof (induction s arbitrary: p)
  case Nil
  then show ?case by simp
next
  case (Cons x xs)
  then show ?case
    by (cases "split_on c xs") (auto split: if_splits)
qed

lemma split_on_append:
  "split_on c (a @ c # b) = split_on c a @ split_on c b"
proof (induction a)
  case Nil
  then show ?case by simp
next
  case (Cons x xs)
  show ?case
  proof (cases "x = c")
    case True
    with Cons show ?thesis by simp
  next
    case False
    obtain y ys where "split_on c xs = y # ys"
      by (cases "split_on c xs") auto
    with Cons False show ?thesis by simp
  qed
qed

lemma split_on_single: "c \<notin> set s \<Longrightarrow> split_on c s = [s]"
  by (induction s) auto

lemma join_Cons: "ys \<noteq> [] \<Longrightarrow> join sep (x # ys) = x @ sep @ join sep ys"
  by (cases ys) simp_all

lemma split_on_join:
  "xs \<noteq> [] \<Longrightarrow> \<forall>x\<in>set xs. c \<notin> set x \<Longrightarrow> split_on c (join [c] xs) = xs"
proof (induction xs)
  case (Cons x xs)
  then show ?case
    by (cases "xs = []") (simp_all add: join_Cons split_on_append split_on_single)
qed simp

subsection \<open>The strconv package\<close>

lemma split_on_char: "x \<in> set s \<Longrightarrow> x = c \<or> (\<exists>p \<in> set (split_on c s). x \<in> set p)"
proof -
  assume "x \<in> set s"
  then have "x \<in> set (join [c] (split_on c s))" by (simp add: join_split_on)
  moreover have "x \<in> set (join [c] ps) \<Longrightarrow> x = c \<or> (\<exists>p \<in> set ps. x \<in> set p)" for ps
    by (induction "[c]" ps rule: join.induct) auto
  ultimately show ?thesis by blast
qed

lemma trim_suffix_append: "length p \<le> length b \<Longrightarrow> trim_suffix (a @ b) p = a @ trim_suffix b p"
  by (simp add: trim_suffix_def has_suffix_def)

lemma trim_space_ends:
  "trim_space s \<noteq> [] \<Longrightarrow> \<not> is_space (hd (trim_space s)) \<and> \<not> is_space (last (trim_space s))"
proof
  let ?d = "dropWhile is_space s"
  assume ne: "trim_space s \<noteq> []"
  then have r: "dropWhile is_space (rev ?d) \<noteq> []" by (simp add: trim_space_def)
  then show "\<not> is_space (last (trim_space s))"
    by (simp add: trim_space_def last_rev hd_dropWhile)
  obtain t where t: "?d = trim_space s @ t"
    unfolding trim_space_def using takeWhile_dropWhile_id [of is_space "rev ?d"]
    by (metis rev_append rev_rev_ident)
  with ne have "hd (trim_space s) = hd ?d" "?d \<noteq> []" by auto
  then show "\<not> is_space (hd (trim_space s))" by (simp add: hd_dropWhile)
qed

lemma trim_space_id:
  assumes "s \<noteq> []" "\<not> is_space (hd s)" "\<not> is_space (last s)"
  shows "trim_space s = s"
proof -
  have "dropWhile is_space s = s" using assms by (cases s) auto
  moreover have "dropWhile is_space (rev s) = rev s"
    using assms by (cases "rev s") (auto simp flip: hd_rev)
  ultimately show ?thesis by (simp add: trim_space_def)
qed

lemma trim_space_idem [simp]: "trim_space (trim_space s) = trim_space s"
proof (cases "trim_space s = []")
  case True
  show ?thesis unfolding True by (simp add: trim_space_def)
next
  case False
  then show ?thesis using trim_space_ends [OF False] by (intro trim_space_id) auto
qed

definition digit_char :: "nat \<Rightarrow> char" where
  "digit_char d = char_of (of_char CHR ''0'' + d)"

fun show_nat :: "nat \<Rightarrow> string" where
  "show_nat n = (if n < 10 then [digit_char n] else show_nat (n div 10) @ [digit_char (n mod 10)])"

declare show_nat.simps [simp del]

definition show_int :: "int \<Rightarrow> string" where
  "show_int i = (if i < 0 then CHR ''-'' # show_nat (nat (- i)) else show_nat (nat i))"

text \<open>Decimal digits read from the left, as the loops of \<^verbatim>\<open>strconv.ParseUint\<close> do.\<close>

definition digits_val :: "string \<Rightarrow> nat" where
  "digits_val s = foldl (\<lambda>n c. 10 * n + digit_val c) 0 s"

definition all_digits :: "string \<Rightarrow> bool" where
  "all_digits s \<longleftrightarrow> s \<noteq> [] \<and> list_all is_digit s"

lemma digit_char_props:
  "d < 10 \<Longrightarrow> is_digit (digit_char d) \<and> digit_val (digit_char d) = d"
  by (simp add: digit_char_def is_digit_def digit_val_def char_le_def)

lemma digits_val_snoc: "digits_val (s @ [c]) = 10 * digits_val s + digit_val c"
  by (simp add: digits_val_def)

lemma show_nat_digits: "all_digits (show_nat n)"
proof (induction n rule: show_nat.induct)
  case (1 n)
  then show ?case
    by (subst show_nat.simps) (auto simp: all_digits_def digit_char_props)
qed

lemma digits_val_show_nat [simp]: "digits_val (show_nat n) = n"
proof (induction n rule: show_nat.induct)
  case (1 n)
  show ?case
  proof (cases "n < 10")
    case True
    then show ?thesis
      by (subst show_nat.simps) (simp add: digits_val_def digit_char_props)
  next
    case False
    with 1 show ?thesis
      by (subst show_nat.simps) (simp add: digits_val_snoc digit_char_props)
  qed
qed

lemma show_nat_inj: "show_nat m = show_nat n \<Longrightarrow> m = n"
  by (metis digits_val_show_nat)

end
