(* ===== verification/Netip.thy ===== *)
theory Netip
  imports HG_Prelude
begin

text \<open>
  The parts of Go's \<^verbatim>\<open>net/netip\<close> and \<^verbatim>\<open>net\<close> packages that routing depends on: IP addresses
  with their zone, CIDR prefixes, their textual syntax, and \<^verbatim>\<open>net.SplitHostPort\<close>. Addresses are
  machine words of 32 and 128 bits; parsing follows the library's scanners branch by branch and
  returns \<^const>\<open>None\<close> where they return an error.
\<close>

unbundle bit_operations_syntax

text \<open>\<^verbatim>\<open>netip.Addr\<close>: the zero value is the invalid address.\<close>

datatype addr =
    AddrInvalid
  | AddrV4 "32 word"
  | AddrV6 "128 word" string

definition addr_is_valid :: "addr \<Rightarrow> bool" where
  "addr_is_valid a \<longleftrightarrow> a \<noteq> AddrInvalid"

fun addr_is4 :: "addr \<Rightarrow> bool" where
  "addr_is4 (AddrV4 _) = True"
| "addr_is4 _ = False"

fun addr_is6 :: "addr \<Rightarrow> bool" where
  "addr_is6 (AddrV6 _ _) = True"
| "addr_is6 _ = False"

fun addr_zone :: "addr \<Rightarrow> string" where
  "addr_zone (AddrV6 _ z) = z"
| "addr_zone _ = []"

fun addr_without_zone :: "addr \<Rightarrow> addr" where
  "addr_without_zone (AddrV6 w _) = AddrV6 w []"
| "addr_without_zone a = a"

fun addr_is4in6 :: "addr \<Rightarrow> bool" where
  "addr_is4in6 (AddrV6 w _) = (drop_bit 32 w = 0xffff)"
| "addr_is4in6 _ = False"

fun addr_unmap :: "addr \<Rightarrow> addr" where
  "addr_unmap (AddrV6 w z) = (if drop_bit 32 w = 0xffff then AddrV4 (ucast w) else AddrV6 w z)"
| "addr_unmap a = a"

lemma addr_unmap_idem [simp]: "addr_unmap (addr_unmap a) = addr_unmap a"
  by (cases a) auto

lemma addr_unmap_invalid [simp]: "addr_unmap a = AddrInvalid \<longleftrightarrow> a = AddrInvalid"
  by (cases a) auto

lemma addr_unmap_not4in6 [simp]: "\<not> addr_is4in6 (addr_unmap a)"
  by (cases a) auto

subsection \<open>Textual syntax\<close>

definition parse_octet :: "string \<Rightarrow> nat option" where
  "parse_octet s =
     (if all_digits s \<and> length s \<le> 3 \<and> (length s = 1 \<or> hd s \<noteq> CHR ''0'') \<and> digits_val s \<le> 255
      then Some (digits_val s) else None)"

fun parse_octets :: "string list \<Rightarrow> nat list option" where
  "parse_octets [] = Some []"
| "parse_octets (p # ps) =
     (case parse_octet p of
        None \<Rightarrow> None
      | Some n \<Rightarrow> (case parse_octets ps of None \<Rightarrow> None | Some ns \<Rightarrow> Some (n # ns)))"

definition parse_ipv4_fields :: "string \<Rightarrow> nat list option" where
  "parse_ipv4_fields s =
     (let parts = split_on CHR ''.'' s in if length parts = 4 then parse_octets parts else None)"

definition bytes_val :: "nat \<Rightarrow> nat list \<Rightarrow> nat" where
  "bytes_val base ns = foldl (\<lambda>acc n. acc * base + n) 0 ns"

definition parse_ipv4 :: "string \<Rightarrow> addr option" where
  "parse_ipv4 s = map_option (\<lambda>ns. AddrV4 (word_of_nat (bytes_val 256 ns))) (parse_ipv4_fields s)"

definition hex_val :: "char \<Rightarrow> nat option" where
  "hex_val c =
     (if is_digit c then Some (digit_val c)
      else if char_le CHR ''a'' c \<and> char_le c CHR ''f'' then Some (of_char c - of_char CHR ''a'' + 10)
      else if char_le CHR ''A'' c \<and> char_le c CHR ''F'' then Some (of_char c - of_char CHR ''A'' + 10)
      else None)"

definition is_hex :: "char \<Rightarrow> bool" where
  "is_hex c \<longleftrightarrow> hex_val c \<noteq> None"

definition hex_digits_val :: "string \<Rightarrow> nat" where
  "hex_digits_val s = foldl (\<lambda>n c. 16 * n + the (hex_val c)) 0 s"

text \<open>
  The scanner of IPv6 groups. \<open>left\<close> counts the 16-bit groups still free, \<open>gs\<close> holds the groups
  read so far and \<open>ell\<close> the position of a \<^verbatim>\<open>::\<close> among them. The result is the groups and the
  ellipsis once the whole text has been read.
\<close>

fun parse_ipv6_groups ::
  "nat \<Rightarrow> string \<Rightarrow> nat list \<Rightarrow> nat option \<Rightarrow> (nat list \<times> nat option) option" where
  "parse_ipv6_groups 0 s gs ell = (if s = [] then Some (gs, ell) else None)"
| "parse_ipv6_groups (Suc left) s gs ell =
     (let ds = takeWhile is_hex s; rest = dropWhile is_hex s in
      if ds = [] \<or> length ds > 4 then None
      else if rest \<noteq> [] \<and> hd rest = CHR ''.'' then
        (if ell = None \<and> length gs \<noteq> 6 then None
         else if left = 0 then None
         else (case parse_ipv4_fields s of
                 Some [a, b, c, d] \<Rightarrow> Some (gs @ [a * 256 + b, c * 256 + d], ell)
               | _ \<Rightarrow> None))
      else
        (let gs' = gs @ [hex_digits_val ds] in
         case rest of
           [] \<Rightarrow> Some (gs', ell)
         | c # rest1 \<Rightarrow>
             if c \<noteq> CHR '':'' \<or> rest1 = [] then None
             else if hd rest1 = CHR '':'' then
               (if ell \<noteq> None then None
                else if tl rest1 = [] then Some (gs', Some (length gs'))
                else parse_ipv6_groups left (tl rest1) gs' (Some (length gs')))
             else parse_ipv6_groups left rest1 gs' ell))"

definition expand_groups :: "nat list \<Rightarrow> nat option \<Rightarrow> nat list option" where
  "expand_groups gs ell =
     (if length gs < 8 then
        (case ell of
           None \<Rightarrow> None
         | Some e \<Rightarrow> Some (take e gs @ replicate (8 - length gs) 0 @ drop e gs))
      else if ell = None then Some gs else None)"

definition parse_ipv6 :: "string \<Rightarrow> addr option" where
  "parse_ipv6 s0 =
     (let (s, zone, bad) = (case cut CHR ''%'' s0 of
                              None \<Rightarrow> (s0, [], False)
                            | Some (a, z) \<Rightarrow> (a, z, z = [])) in
      if bad then None
      else
        (let lead = has_prefix s ''::'';
             body = (if lead then drop 2 s else s) in
         if lead \<and> body = [] then Some (AddrV6 0 zone)
         else (case parse_ipv6_groups 8 body [] (if lead then Some 0 else None) of
                 None \<Rightarrow> None
               | Some (gs, ell) \<Rightarrow>
                   map_option (\<lambda>ns. AddrV6 (word_of_nat (bytes_val 65536 ns)) zone)
                     (expand_groups gs ell))))"

text \<open>\<^verbatim>\<open>netip.ParseAddr\<close>: the first separator decides the family.\<close>

definition parse_addr :: "string \<Rightarrow> addr option" where
  "parse_addr s =
     (case dropWhile (\<lambda>c. c \<notin> {CHR ''.'', CHR '':'', CHR ''%''}) s of
        [] \<Rightarrow> None
      | c # _ \<Rightarrow> if c = CHR ''.'' then parse_ipv4 s
                else if c = CHR '':'' then parse_ipv6 s else None)"

text \<open>The last occurrence of a byte, as \<^verbatim>\<open>LastIndexByteString\<close> finds it.\<close>

definition cut_last :: "char \<Rightarrow> string \<Rightarrow> (string \<times> string) option" where
  "cut_last c s = map_option (\<lambda>(a, b). (rev b, rev a)) (cut c (rev s))"

text \<open>\<^verbatim>\<open>strconv.ParseUint(s, 10, bits)\<close>.\<close>

definition parse_uint :: "nat \<Rightarrow> string \<Rightarrow> nat option" where
  "parse_uint bits s = (if all_digits s \<and> digits_val s < 2 ^ bits then Some (digits_val s) else None)"

definition split_addr_port :: "string \<Rightarrow> (string \<times> string \<times> bool) option" where
  "split_addr_port s =
     (case cut_last CHR '':'' s of
        None \<Rightarrow> None
      | Some (ip, port) \<Rightarrow>
          if ip = [] \<or> port = [] then None
          else if hd ip = CHR ''['' then
            (if length ip < 2 \<or> last ip \<noteq> CHR '']'' then None
             else Some (butlast (tl ip), port, True))
          else Some (ip, port, False))"

text \<open>The address part of \<^verbatim>\<open>netip.ParseAddrPort\<close>.\<close>

definition parse_addr_port :: "string \<Rightarrow> addr option" where
  "parse_addr_port s =
     (case split_addr_port s of
        None \<Rightarrow> None
      | Some (ip, port, v6) \<Rightarrow>
          (case parse_uint 16 port of
             None \<Rightarrow> None
           | Some _ \<Rightarrow>
               (case parse_addr ip of
                  None \<Rightarrow> None
                | Some a \<Rightarrow> if v6 \<and> addr_is4 a \<or> \<not> v6 \<and> addr_is6 a then None else Some a)))"

subsection \<open>Prefixes\<close>

record ip_prefix =
  pfx_addr :: addr
  pfx_bits :: nat

definition addr_bit_len :: "addr \<Rightarrow> nat" where
  "addr_bit_len a = (case a of AddrInvalid \<Rightarrow> 0 | AddrV4 _ \<Rightarrow> 32 | AddrV6 _ _ \<Rightarrow> 128)"

definition mask_word :: "nat \<Rightarrow> 'a::len word \<Rightarrow> 'a word" where
  "mask_word n w = push_bit n (drop_bit n w)"

fun mask_addr :: "addr \<Rightarrow> nat \<Rightarrow> addr" where
  "mask_addr AddrInvalid n = AddrInvalid"
| "mask_addr (AddrV4 w) n = AddrV4 (mask_word (32 - n) w)"
| "mask_addr (AddrV6 w z) n = AddrV6 (mask_word (128 - n) w) []"

definition prefix_masked :: "ip_prefix \<Rightarrow> ip_prefix" where
  "prefix_masked p = p\<lparr>pfx_addr := mask_addr (pfx_addr p) (pfx_bits p)\<rparr>"

definition parse_prefix :: "string \<Rightarrow> ip_prefix option" where
  "parse_prefix s =
     (case cut_last CHR ''/'' s of
        None \<Rightarrow> None
      | Some (ip, bits) \<Rightarrow>
          (case parse_addr ip of
             None \<Rightarrow> None
           | Some a \<Rightarrow>
               if addr_zone a \<noteq> [] then None
               else if length bits > 1 \<and> hd bits = CHR ''0'' then None
               else if \<not> all_digits bits \<or> digits_val bits > addr_bit_len a then None
               else Some \<lparr>pfx_addr = a, pfx_bits = digits_val bits\<rparr>))"

fun prefix_contains :: "ip_prefix \<Rightarrow> addr \<Rightarrow> bool" where
  "prefix_contains p a =
     (case (pfx_addr p, a) of
        (AddrV4 v, AddrV4 w) \<Rightarrow> drop_bit (32 - pfx_bits p) v = drop_bit (32 - pfx_bits p) w
      | (AddrV6 v _, AddrV6 w z) \<Rightarrow>
          z = [] \<and> drop_bit (128 - pfx_bits p) v = drop_bit (128 - pfx_bits p) w
      | _ \<Rightarrow> False)"

declare prefix_contains.simps [simp del]

subsection \<open>Formatting\<close>

definition show_ipv4 :: "32 word \<Rightarrow> string" where
  "show_ipv4 w =
     join ''.'' (map (\<lambda>i. show_nat (unat (drop_bit i w AND 255))) [24, 16, 8, 0])"

definition hex_char :: "nat \<Rightarrow> char" where
  "hex_char d = (if d < 10 then digit_char d else char_of (of_char CHR ''a'' + d - 10))"

fun show_hex :: "nat \<Rightarrow> string" where
  "show_hex n = (if n < 16 then [hex_char n] else show_hex (n div 16) @ [hex_char (n mod 16)])"

declare show_hex.simps [simp del]

definition ipv6_groups :: "128 word \<Rightarrow> nat list" where
  "ipv6_groups w = map (\<lambda>i. unat (drop_bit (16 * i) w AND 0xffff)) [7, 6, 5, 4, 3, 2, 1, 0]"

text \<open>The longest run of at least two zero groups, the leftmost one on a tie (RFC 5952).\<close>

definition zero_run :: "nat list \<Rightarrow> nat \<Rightarrow> nat" where
  "zero_run gs i = length (takeWhile (\<lambda>g. g = 0) (drop i gs))"

definition best_zero_run :: "nat list \<Rightarrow> (nat \<times> nat) option" where
  "best_zero_run gs =
     foldl (\<lambda>best i. let l = zero_run gs i in
              if l \<ge> 2 \<and> (case best of None \<Rightarrow> True | Some (_, bl) \<Rightarrow> bl < l) then Some (i, l) else best)
       None [0..<length gs]"

definition show_ipv6 :: "128 word \<Rightarrow> string" where
  "show_ipv6 w =
     (let gs = ipv6_groups w in
      case best_zero_run gs of
        None \<Rightarrow> join '':'' (map show_hex gs)
      | Some (i, l) \<Rightarrow> join '':'' (map show_hex (take i gs)) @ ''::'' @
                      join '':'' (map show_hex (drop (i + l) gs)))"

text \<open>\<^verbatim>\<open>netip.Addr.String\<close>; IPv4-mapped IPv6 addresses keep their dotted tail.\<close>

fun show_addr :: "addr \<Rightarrow> string" where
  "show_addr AddrInvalid = ''invalid IP''"
| "show_addr (AddrV4 w) = show_ipv4 w"
| "show_addr (AddrV6 w z) =
     (if drop_bit 32 w = 0xffff then ''::ffff:'' @ show_ipv4 (ucast w) else show_ipv6 w) @
     (if z = [] then [] else ''%'' @ z)"

definition show_prefix :: "ip_prefix \<Rightarrow> string" where
  "show_prefix p = show_addr (pfx_addr p) @ ''/'' @ show_nat (pfx_bits p)"

subsection \<open>net.SplitHostPort\<close>

definition split_host_port :: "string \<Rightarrow> (string \<times> string) option" where
  "split_host_port hp =
     (case cut_last CHR '':'' hp of
        None \<Rightarrow> None
      | Some (pre, port) \<Rightarrow>
          if hd hp = CHR ''['' then
            (case cut CHR '']'' hp of
               None \<Rightarrow> None
             | Some (inner, rest) \<Rightarrow>
                 if inner @ '']'' \<noteq> pre then None
                 else if CHR ''['' \<in> set (tl hp) then None
                 else if CHR '']'' \<in> set rest then None
                 else Some (tl inner, port))
          else if CHR '':'' \<in> set pre then None
          else if CHR ''['' \<in> set hp \<or> CHR '']'' \<in> set hp then None
          else Some (pre, port))"

lemma cut_last_Some: "cut_last c s = Some (a, b) \<Longrightarrow> s = a @ c # b \<and> c \<notin> set b"
proof -
  assume "cut_last c s = Some (a, b)"
  then have "cut c (rev s) = Some (rev b, rev a)"
    by (auto simp: cut_last_def)
  then have "rev s = rev b @ c # rev a \<and> c \<notin> set (rev b)"
    by (rule cut_Some)
  then show ?thesis
    by (metis append.assoc append_Cons append_Nil rev.simps(2) rev_append rev_rev_ident set_rev)
qed

end
