(* ===== verification/Identity_Index.thy ===== *)
theory Identity_Index
  imports Netip
begin

text \<open>
  The engine's copy of the workload identity map (\<^verbatim>\<open>internal/identity/index.go\<close>) and the client
  that fills it from delta updates (\<^verbatim>\<open>internal/identity/client.go\<close>). Every method of the index
  runs under its mutex, so it is one step of the model. Services are compared by pointer in
  \<^verbatim>\<open>dropServiceLocked\<close>; a service object is therefore a value together with the address at which
  it was allocated. Go maps whose iteration order is unspecified (a batch of updates) are
  association lists in the order of the iteration; the theorems hold for every order.
\<close>

datatype identity_kind = KindUnknown | KindPod | KindNode

definition identity_kind_string :: "identity_kind \<Rightarrow> string" where
  "identity_kind_string k =
     (case k of KindPod \<Rightarrow> ''pod'' | KindNode \<Rightarrow> ''node'' | KindUnknown \<Rightarrow> ''unknown'')"

record workload =
  wl_IP :: addr
  wl_Kind :: identity_kind
  wl_Namespace :: string
  wl_Pod :: string
  wl_PodUID :: string
  wl_ServiceAccount :: string
  wl_SPIFFEID :: string
  wl_Node :: string
  wl_Labels :: "string \<rightharpoonup> string"
  wl_Services :: "string list"
  wl_SecurityIdentity :: "32 word"

text \<open>\<^verbatim>\<open>IsPod\<close> is called on possibly nil workloads.\<close>

definition IsPod :: "workload option \<Rightarrow> bool" where
  "IsPod w = (case w of None \<Rightarrow> False | Some x \<Rightarrow> wl_Kind x = KindPod)"

record service =
  svc_Namespace :: string
  svc_Name :: string
  svc_ClusterIPs :: "addr list"
  svc_Ports :: "32 word list"

definition svc_Key :: "service \<Rightarrow> string" where
  "svc_Key s = svc_Namespace s @ ''/'' @ svc_Name s"

text \<open>A \<^verbatim>\<open>*Service\<close>: the address of the object and its (immutable) content.\<close>

type_synonym service_ptr = "nat \<times> service"

abbreviation WorkloadTypeURL :: string where
  "WorkloadTypeURL \<equiv> ''type.googleapis.com/hypergate.identity.v1.Workload''"

abbreviation ServiceTypeURL :: string where
  "ServiceTypeURL \<equiv> ''type.googleapis.com/hypergate.identity.v1.Service''"

record index =
  idx_workloads :: "addr \<rightharpoonup> workload"
  idx_services :: "string \<rightharpoonup> service_ptr"
  idx_byClusterIP :: "addr \<rightharpoonup> service_ptr"
  idx_wversions :: "string \<rightharpoonup> string"
  idx_sversions :: "string \<rightharpoonup> string"
  idx_wsynced :: bool
  idx_ssynced :: bool
  idx_lastUpdate :: int
  idx_alloc :: nat \<comment> \<open>the next free address for a service object\<close>

definition NewIndex :: index where
  "NewIndex = \<lparr>idx_workloads = Map.empty, idx_services = Map.empty, idx_byClusterIP = Map.empty,
     idx_wversions = Map.empty, idx_sversions = Map.empty, idx_wsynced = False,
     idx_ssynced = False, idx_lastUpdate = 0, idx_alloc = 0\<rparr>"

subsection \<open>Lookups\<close>

definition Lookup :: "index option \<Rightarrow> addr \<Rightarrow> workload option" where
  "Lookup x ip =
     (case x of
        None \<Rightarrow> None
      | Some i \<Rightarrow> if \<not> addr_is_valid ip then None else idx_workloads i (addr_unmap ip))"

definition ServiceByClusterIP :: "index option \<Rightarrow> addr \<Rightarrow> service option" where
  "ServiceByClusterIP x ip =
     (case x of
        None \<Rightarrow> None
      | Some i \<Rightarrow> if \<not> addr_is_valid ip then None
                  else map_option snd (idx_byClusterIP i (addr_unmap ip)))"

definition Service :: "index option \<Rightarrow> string \<Rightarrow> string \<Rightarrow> service option" where
  "Service x ns nm =
     (case x of None \<Rightarrow> None | Some i \<Rightarrow> map_option snd (idx_services i (ns @ ''/'' @ nm)))"

definition Synced :: "index option \<Rightarrow> bool" where
  "Synced x = (case x of None \<Rightarrow> False | Some i \<Rightarrow> idx_wsynced i \<and> idx_ssynced i)"

definition versionsOf :: "index \<Rightarrow> string \<Rightarrow> (string \<rightharpoonup> string)" where
  "versionsOf x typeURL =
     (if typeURL = WorkloadTypeURL then idx_wversions x
      else if typeURL = ServiceTypeURL then idx_sversions x else Map.empty)"

definition ServiceFromHost :: "index option \<Rightarrow> string \<Rightarrow> service option" where
  "ServiceFromHost x host =
     (if x = None \<or> host = [] then None
      else
        (let h = trim_suffix (trim_suffix host ''.cluster.local'') ''.svc'' in
         case cut CHR ''.'' h of
           None \<Rightarrow> None
         | Some (nm, ns) \<Rightarrow>
             if nm = [] \<or> ns = [] \<or> CHR ''.'' \<in> set ns then None else Service x ns nm))"

subsection \<open>Updates\<close>

record proto_workload =
  pw_Ip :: string
  pw_PodUid :: string
  pw_Namespace :: string
  pw_Pod :: string
  pw_ServiceAccount :: string
  pw_SpiffeId :: string
  pw_SecurityIdentity :: "32 word"
  pw_Labels :: "string \<rightharpoonup> string"
  pw_Services :: "(string \<times> string) list"
  pw_Node :: string
  pw_Kind :: nat

record proto_service =
  ps_Name :: string
  ps_Namespace :: string
  ps_ClusterIps :: "string list"
  ps_Ports :: "32 word list"

definition addr_or_zero :: "addr option \<Rightarrow> addr" where
  "addr_or_zero a = (case a of None \<Rightarrow> AddrInvalid | Some x \<Rightarrow> x)"

definition workloadFromProto :: "proto_workload \<Rightarrow> workload" where
  "workloadFromProto p =
     \<lparr>wl_IP = addr_unmap (addr_or_zero (parse_addr (pw_Ip p))),
      wl_Kind = (if pw_Kind p = 1 then KindPod else if pw_Kind p = 2 then KindNode else KindUnknown),
      wl_Namespace = pw_Namespace p, wl_Pod = pw_Pod p, wl_PodUID = pw_PodUid p,
      wl_ServiceAccount = pw_ServiceAccount p, wl_SPIFFEID = pw_SpiffeId p, wl_Node = pw_Node p,
      wl_Labels = pw_Labels p,
      wl_Services = sort (map (\<lambda>(ns, nm). ns @ ''/'' @ nm) (pw_Services p)),
      wl_SecurityIdentity = pw_SecurityIdentity p\<rparr>"

definition serviceFromProto :: "proto_service \<Rightarrow> service" where
  "serviceFromProto p =
     \<lparr>svc_Namespace = ps_Namespace p, svc_Name = ps_Name p,
      svc_ClusterIPs = map addr_unmap (List.map_filter parse_addr (ps_ClusterIps p)),
      svc_Ports = ps_Ports p\<rparr>"

type_synonym 'a versioned = "string \<times> 'a \<times> string" \<comment> \<open>resource name, resource, version\<close>

definition remove_workload :: "string \<Rightarrow> index \<Rightarrow> index" where
  "remove_workload nm x =
     (let x1 = (case parse_addr nm of
                  None \<Rightarrow> x
                | Some ip \<Rightarrow> x\<lparr>idx_workloads := (idx_workloads x)(addr_unmap ip := None)\<rparr>)
      in x1\<lparr>idx_wversions := (idx_wversions x1)(nm := None)\<rparr>)"

definition update_workload :: "proto_workload versioned \<Rightarrow> index \<Rightarrow> index" where
  "update_workload u x =
     (case u of (nm, p, version) \<Rightarrow>
        let w = workloadFromProto p in
        if \<not> addr_is_valid (wl_IP w) then x
        else x\<lparr>idx_workloads := (idx_workloads x)(wl_IP w \<mapsto> w),
               idx_wversions := (idx_wversions x)(nm \<mapsto> version)\<rparr>)"

definition applyWorkloads ::
  "int \<Rightarrow> proto_workload versioned list \<Rightarrow> string list \<Rightarrow> index \<Rightarrow> index" where
  "applyWorkloads now updated removed x =
     (fold update_workload updated (fold remove_workload removed x))
       \<lparr>idx_wsynced := True, idx_lastUpdate := now\<rparr>"

definition drop_cluster_ips :: "service_ptr \<Rightarrow> index \<Rightarrow> index" where
  "drop_cluster_ips old x =
     fold (\<lambda>ip y. if map_option fst (idx_byClusterIP y ip) = Some (fst old)
                  then y\<lparr>idx_byClusterIP := (idx_byClusterIP y)(ip := None)\<rparr> else y)
       (svc_ClusterIPs (snd old)) x"

definition dropServiceLocked :: "string \<Rightarrow> index \<Rightarrow> index" where
  "dropServiceLocked nm x =
     (case idx_services x nm of
        None \<Rightarrow> x
      | Some old \<Rightarrow>
          (let y = drop_cluster_ips old x
           in y\<lparr>idx_services := (idx_services y)(nm := None)\<rparr>))"

definition remove_service :: "string \<Rightarrow> index \<Rightarrow> index" where
  "remove_service nm x =
     (let y = dropServiceLocked nm x in y\<lparr>idx_sversions := (idx_sversions y)(nm := None)\<rparr>)"

definition update_service :: "proto_service versioned \<Rightarrow> index \<Rightarrow> index" where
  "update_service u x =
     (case u of (nm, p, version) \<Rightarrow>
        let y = dropServiceLocked nm x;
            s = (idx_alloc y, serviceFromProto p);
            bc = fold (\<lambda>ip m. m(ip \<mapsto> s)) (svc_ClusterIPs (snd s)) (idx_byClusterIP y)
        in y\<lparr>idx_alloc := Suc (idx_alloc y), idx_services := (idx_services y)(nm \<mapsto> s),
             idx_byClusterIP := bc, idx_sversions := (idx_sversions y)(nm \<mapsto> version)\<rparr>)"

definition applyServices ::
  "int \<Rightarrow> proto_service versioned list \<Rightarrow> string list \<Rightarrow> index \<Rightarrow> index" where
  "applyServices now updated removed x =
     (fold update_service updated (fold remove_service removed x))
       \<lparr>idx_ssynced := True, idx_lastUpdate := now\<rparr>"

definition Replace :: "int \<Rightarrow> workload list \<Rightarrow> service_ptr list \<Rightarrow> index \<Rightarrow> index" where
  "Replace now workloads services x =
     x\<lparr>idx_workloads := fold (\<lambda>w m. m(addr_unmap (wl_IP w) \<mapsto> w)) workloads Map.empty,
       idx_services := fold (\<lambda>s m. m(svc_Key (snd s) \<mapsto> s)) services Map.empty,
       idx_byClusterIP :=
         fold (\<lambda>s m. fold (\<lambda>ip m'. m'(addr_unmap ip \<mapsto> s)) (svc_ClusterIPs (snd s)) m)
           services Map.empty,
       idx_wversions := Map.empty, idx_sversions := Map.empty,
       idx_wsynced := True, idx_ssynced := True, idx_lastUpdate := now\<rparr>"

subsection \<open>The client: applying one delta response\<close>

text \<open>
  A resource of a delta response is decoded by \<^verbatim>\<open>UnmarshalTo\<close> of the protobuf library; the two
  decoders are parameters and may fail. A response with an undecodable resource is rejected
  as a whole.
\<close>

record delta_resource =
  dr_Name :: string
  dr_Version :: string
  dr_Body :: string

record delta_response =
  drs_TypeUrl :: string
  drs_Resources :: "delta_resource list"
  drs_Removed :: "string list"

datatype apply_error = BadResource string | UnexpectedType string

definition decode_resource ::
  "(string \<Rightarrow> 'p option) \<Rightarrow> delta_resource \<Rightarrow> (apply_error, 'p versioned) result" where
  "decode_resource dec r =
     (case dec (dr_Body r) of
        None \<Rightarrow> Err (BadResource (dr_Name r))
      | Some p \<Rightarrow> Ok (dr_Name r, p, dr_Version r))"

text \<open>
  The updates are collected in a map keyed by resource name, so a repeated name keeps its last
  resource. The map is then iterated in an unspecified order, the parameters \<open>ordw\<close> and \<open>ords\<close>.
\<close>

fun keep_last :: "'p versioned list \<Rightarrow> 'p versioned list" where
  "keep_last [] = []"
| "keep_last (u # us) = (if fst u \<in> fst ` set us then keep_last us else u # keep_last us)"

definition client_apply ::
  "(proto_workload versioned list \<Rightarrow> proto_workload versioned list) \<Rightarrow>
   (proto_service versioned list \<Rightarrow> proto_service versioned list) \<Rightarrow>
   (string \<Rightarrow> proto_workload option) \<Rightarrow> (string \<Rightarrow> proto_service option) \<Rightarrow> int \<Rightarrow>
   delta_response \<Rightarrow> index \<Rightarrow> (apply_error, index) result" where
  "client_apply ordw ords decw decs now resp x =
     (if drs_TypeUrl resp = WorkloadTypeURL then
        (case map_result (decode_resource decw) (drs_Resources resp) of
           Inl e \<Rightarrow> Err e
         | Inr us \<Rightarrow> Ok (applyWorkloads now (ordw (keep_last us)) (drs_Removed resp) x))
      else if drs_TypeUrl resp = ServiceTypeURL then
        (case map_result (decode_resource decs) (drs_Resources resp) of
           Inl e \<Rightarrow> Err e
         | Inr us \<Rightarrow> Ok (applyServices now (ords (keep_last us)) (drs_Removed resp) x))
      else Err (UnexpectedType (drs_TypeUrl resp)))"

text \<open>
  The reconnect delay of \<^verbatim>\<open>Client.Run\<close> in nanoseconds: the wait before the next attempt, given a
  random draw \<open>r\<close> below the back-off, and the next back-off.
\<close>

abbreviation initial_backoff :: int where
  "initial_backoff \<equiv> 500000000"

abbreviation max_backoff :: int where
  "max_backoff \<equiv> 30000000000"

definition backoff_step :: "int \<Rightarrow> int \<Rightarrow> int \<Rightarrow> int \<times> int" where
  "backoff_step backoff alive r =
     (let b = (if alive > 30000000000 then initial_backoff else backoff)
      in (b div 2 + r, min (b * 2) max_backoff))"

subsection \<open>Well-formed indexes\<close>

text \<open>
  What the index keeps between its maps: service objects have distinct addresses below the
  allocation counter, every cluster-IP entry refers to a service that is still registered and
  owns that IP, and workloads are stored under their own canonical address.
\<close>

definition services_wf :: "index \<Rightarrow> bool" where
  "services_wf x \<longleftrightarrow>
     (\<forall>nm p s. idx_services x nm = Some (p, s) \<longrightarrow> p < idx_alloc x) \<and>
     (\<forall>n1 n2 p s1 s2. idx_services x n1 = Some (p, s1) \<and> idx_services x n2 = Some (p, s2) \<longrightarrow> n1 = n2) \<and>
     (\<forall>ip p s. idx_byClusterIP x ip = Some (p, s) \<longrightarrow>
        ip \<in> set (svc_ClusterIPs s) \<and> (\<exists>nm. idx_services x nm = Some (p, s)))"

definition workloads_wf :: "index \<Rightarrow> bool" where
  "workloads_wf x \<longleftrightarrow>
     (\<forall>ip w. idx_workloads x ip = Some w \<longrightarrow> wl_IP w = ip \<and> addr_is_valid ip \<and> addr_unmap ip = ip)"

definition index_wf :: "index \<Rightarrow> bool" where
  "index_wf x \<longleftrightarrow> services_wf x \<and> workloads_wf x"

lemma fold_drop_frame:
  "idx_services (fold (\<lambda>ip y. if B ip y then y\<lparr>idx_byClusterIP := f ip y\<rparr> else y) ips x) = idx_services x"
  "idx_workloads (fold (\<lambda>ip y. if B ip y then y\<lparr>idx_byClusterIP := f ip y\<rparr> else y) ips x) = idx_workloads x"
  "idx_alloc (fold (\<lambda>ip y. if B ip y then y\<lparr>idx_byClusterIP := f ip y\<rparr> else y) ips x) = idx_alloc x"
  by (induction ips arbitrary: x) auto

lemma drop_cluster_ips_frame [simp]:
  "idx_services (drop_cluster_ips old x) = idx_services x"
  "idx_workloads (drop_cluster_ips old x) = idx_workloads x"
  "idx_alloc (drop_cluster_ips old x) = idx_alloc x"
  unfolding drop_cluster_ips_def by (simp_all add: fold_drop_frame)

lemma fold_drop_ips:
  "idx_byClusterIP
     (fold (\<lambda>ip y. if map_option fst (idx_byClusterIP y ip) = Some p
                  then y\<lparr>idx_byClusterIP := (idx_byClusterIP y)(ip := None)\<rparr> else y) ips x) ip =
   (if ip \<in> set ips \<and> map_option fst (idx_byClusterIP x ip) = Some p then None
    else idx_byClusterIP x ip)"
  by (induction ips arbitrary: x) auto

lemma drop_cluster_ips_byClusterIP:
  "idx_byClusterIP (drop_cluster_ips old x) ip =
     (if ip \<in> set (svc_ClusterIPs (snd old)) \<and> map_option fst (idx_byClusterIP x ip) = Some (fst old)
      then None else idx_byClusterIP x ip)"
  unfolding drop_cluster_ips_def by (rule fold_drop_ips)

lemma dropServiceLocked_frame [simp]:
  "idx_workloads (dropServiceLocked nm x) = idx_workloads x"
  "idx_alloc (dropServiceLocked nm x) = idx_alloc x"
  "idx_services (dropServiceLocked nm x) = (idx_services x)(nm := None)"
  by (auto simp: dropServiceLocked_def Let_def fun_eq_iff split: option.splits)

lemma dropServiceLocked_wf:
  assumes wf: "services_wf x"
  shows "services_wf (dropServiceLocked nm x)"
proof (cases "idx_services x nm")
  case None
  with wf show ?thesis by (simp add: dropServiceLocked_def)
next
  case (Some old)
  obtain p s where old: "old = (p, s)" by (cases old)
  have live: "ip \<in> set (svc_ClusterIPs s') \<and> (\<exists>m. m \<noteq> nm \<and> idx_services x m = Some (p', s'))"
    if "idx_byClusterIP (dropServiceLocked nm x) ip = Some (p', s')" for ip p' s'
  proof -
    from that Some old have in_x: "idx_byClusterIP x ip = Some (p', s')"
      and keep: "\<not> (ip \<in> set (svc_ClusterIPs s) \<and> p' = p)"
      by (auto simp: dropServiceLocked_def Let_def drop_cluster_ips_byClusterIP split: if_splits)
    from wf in_x obtain m where m: "ip \<in> set (svc_ClusterIPs s')" "idx_services x m = Some (p', s')"
      unfolding services_wf_def by blast
    moreover have "m \<noteq> nm"
      using keep m Some old by auto
    ultimately show ?thesis by blast
  qed
  show ?thesis
    unfolding services_wf_def
  proof (intro conjI allI impI, goal_cases)
    case (1 m q t)
    then show ?case using wf unfolding services_wf_def by (auto split: if_splits)
  next
    case (2 n1 n2 q t1 t2)
    then have "idx_services x n1 = Some (q, t1)" "idx_services x n2 = Some (q, t2)"
      by (auto split: if_splits)
    then show ?case using wf unfolding services_wf_def by blast
  next
    case (3 ip q t)
    then show ?case using live by blast
  next
    case (4 ip q t)
    then obtain m where "m \<noteq> nm" "idx_services x m = Some (q, t)" using live by blast
    then show ?case by (intro exI [of _ m]) simp
  qed
qed

lemma remove_service_wf: "services_wf x \<Longrightarrow> services_wf (remove_service nm x)"
  using dropServiceLocked_wf [of x nm]
  by (simp add: remove_service_def Let_def services_wf_def)

lemma fold_index_ips:
  "fold (\<lambda>ip m. m(ip \<mapsto> s)) ips m ip = (if ip \<in> set ips then Some s else m ip)"
  by (induction ips arbitrary: m) auto

lemma update_service_wf:
  assumes "services_wf x"
  shows "services_wf (update_service u x)"
proof -
  obtain nm p v where u: "u = (nm, p, v)" by (cases u)
  let ?y = "dropServiceLocked nm x"
  have y: "services_wf ?y" using assms by (rule dropServiceLocked_wf)
  have fresh: "idx_services ?y m = Some (q, t) \<Longrightarrow> q \<noteq> idx_alloc ?y" for m q t
    using y unfolding services_wf_def by blast
  have inj: "idx_services ?y m = Some (q, t) \<Longrightarrow> idx_services ?y n = Some (q, t') \<Longrightarrow> m = n" for m n q t t'
    using y unfolding services_wf_def by blast
  show ?thesis
    unfolding services_wf_def u update_service_def Let_def prod.case
  proof (intro conjI allI impI, goal_cases)
    case (1 m q t)
    then show ?case using y unfolding services_wf_def by (auto split: if_splits intro: less_SucI)
  next
    case (2 n1 n2 q t1 t2)
    then show ?case
      using fresh [of n1 q t1] fresh [of n2 q t2] inj [of n1 q t1 n2 t2]
      by (auto simp del: dropServiceLocked_frame split: if_splits)
  next
    case (3 ip q t)
    then show ?case
      using y unfolding services_wf_def by (auto simp: fold_index_ips split: if_splits)
  next
    case (4 ip q t)
    show ?case
    proof (cases "ip \<in> set (svc_ClusterIPs (serviceFromProto p))")
      case True
      with 4 show ?thesis by (auto simp: fold_index_ips)
    next
      case False
      with 4 have "idx_byClusterIP ?y ip = Some (q, t)" by (simp add: fold_index_ips)
      then obtain m where "idx_services ?y m = Some (q, t)"
        using y unfolding services_wf_def by blast
      then show ?thesis by (intro exI [of _ m]) (auto split: if_splits)
    qed
  qed
qed

lemma fold_preserves: "(\<And>a x. P x \<Longrightarrow> P (f a x)) \<Longrightarrow> P x \<Longrightarrow> P (fold f as x)"
  by (induction as arbitrary: x) auto

lemma remove_workload_wf: "workloads_wf x \<Longrightarrow> workloads_wf (remove_workload nm x)"
  by (auto simp: remove_workload_def workloads_wf_def Let_def split: option.splits if_splits)

lemma workloadFromProto_IP [simp]: "addr_unmap (wl_IP (workloadFromProto p)) = wl_IP (workloadFromProto p)"
  by (simp add: workloadFromProto_def)

lemma update_workload_wf: "workloads_wf x \<Longrightarrow> workloads_wf (update_workload u x)"
  by (cases u) (auto simp: update_workload_def workloads_wf_def Let_def split: if_splits)

lemma workload_steps_keep_services [simp]:
  "services_wf (remove_workload nm x) = services_wf x"
  "services_wf (update_workload u x) = services_wf x"
  by (auto simp: remove_workload_def update_workload_def services_wf_def Let_def
      split: option.splits prod.splits)

lemma service_steps_keep_workloads [simp]:
  "workloads_wf (remove_service nm x) = workloads_wf x"
  "workloads_wf (update_service u2 x) = workloads_wf x"
  by (auto simp: remove_service_def update_service_def workloads_wf_def Let_def split: prod.splits)

lemma index_wf_frame [simp]:
  "index_wf (x\<lparr>idx_wsynced := b, idx_lastUpdate := t\<rparr>) = index_wf x"
  "index_wf (x\<lparr>idx_ssynced := b, idx_lastUpdate := t\<rparr>) = index_wf x"
  by (simp_all add: index_wf_def services_wf_def workloads_wf_def)

lemma applyWorkloads_wf: "index_wf x \<Longrightarrow> index_wf (applyWorkloads now us rs x)"
  unfolding applyWorkloads_def index_wf_frame
  by (rule fold_preserves [where P = index_wf], simp add: index_wf_def update_workload_wf,
      rule fold_preserves [where P = index_wf], simp_all add: index_wf_def remove_workload_wf)

lemma applyServices_wf: "index_wf x \<Longrightarrow> index_wf (applyServices now us rs x)"
  unfolding applyServices_def index_wf_frame
  by (rule fold_preserves [where P = index_wf], simp add: index_wf_def update_service_wf,
      rule fold_preserves [where P = index_wf], simp_all add: index_wf_def remove_service_wf)

lemma NewIndex_wf: "index_wf NewIndex"
  by (simp add: NewIndex_def index_wf_def services_wf_def workloads_wf_def)

lemma client_apply_wf:
  "index_wf x \<Longrightarrow> client_apply ow os dw ds now resp x = Inr y \<Longrightarrow> index_wf y"
  by (auto simp: client_apply_def applyWorkloads_wf applyServices_wf split: if_splits sum.splits)

subsection \<open>The stream\<close>

text \<open>
  The receive loop of \<^verbatim>\<open>Client.stream\<close>: a response is applied and acknowledged, or answered
  with an error detail and not applied.
\<close>

definition client_receive ::
  "(proto_workload versioned list \<Rightarrow> proto_workload versioned list) \<Rightarrow>
   (proto_service versioned list \<Rightarrow> proto_service versioned list) \<Rightarrow>
   (string \<Rightarrow> proto_workload option) \<Rightarrow> (string \<Rightarrow> proto_service option) \<Rightarrow> int \<Rightarrow>
   delta_response \<Rightarrow> index \<Rightarrow> index \<times> apply_error option" where
  "client_receive ordw ords decw decs now resp x =
     (case client_apply ordw ords decw decs now resp x of
        Inl e \<Rightarrow> (x, Some e)
      | Inr y \<Rightarrow> (y, None))"

inductive stream_step ::
  "(string \<Rightarrow> proto_workload option) \<Rightarrow> (string \<Rightarrow> proto_service option) \<Rightarrow> index \<Rightarrow> index \<Rightarrow> bool"
  for decw decs where
  receive: "client_receive ordw ords decw decs now resp x = (y, nack) \<Longrightarrow> stream_step decw decs x y"

inductive_cases stream_stepE: "stream_step decw decs x y"

inductive stream_reachable ::
  "(string \<Rightarrow> proto_workload option) \<Rightarrow> (string \<Rightarrow> proto_service option) \<Rightarrow> index \<Rightarrow> bool"
  for decw decs where
  start: "stream_reachable decw decs NewIndex"
| step: "stream_reachable decw decs x \<Longrightarrow> stream_step decw decs x y \<Longrightarrow> stream_reachable decw decs y"

lemma stream_reachable_wf: "stream_reachable decw decs x \<Longrightarrow> index_wf x"
proof (induction rule: stream_reachable.induct)
  case start
  show ?case by (rule NewIndex_wf)
next
  case (step x y)
  from step.hyps(2) step.IH show ?case
    by (elim stream_stepE) (auto simp: client_receive_def client_apply_wf split: sum.splits)
qed

text \<open>C18: every entry the identity lookups return is current. In every index the stream can
  produce, the Service found under a cluster IP is still registered under some name and lists that
  IP, so a reused or withdrawn cluster IP never resolves to a Service that lost it; and the workload
  found under an address carries that address.\<close>

theorem identity_lookups_current:
  assumes "stream_reachable decw decs x"
  shows "(ServiceByClusterIP (Some x) ip = Some s \<longrightarrow>
            addr_unmap ip \<in> set (svc_ClusterIPs s) \<and> (\<exists>nm p. idx_services x nm = Some (p, s))) \<and>
         (Lookup (Some x) ip = Some w \<longrightarrow> wl_IP w = addr_unmap ip)"
proof -
  have wf: "services_wf x" "workloads_wf x"
    using stream_reachable_wf [OF assms] by (simp_all add: index_wf_def)
  have "idx_byClusterIP x a = Some (p, s) \<Longrightarrow> a \<in> set (svc_ClusterIPs s) \<and> (\<exists>nm. idx_services x nm = Some (p, s))"
    for a p using wf(1) unfolding services_wf_def by blast
  then have "ServiceByClusterIP (Some x) ip = Some s \<Longrightarrow>
      addr_unmap ip \<in> set (svc_ClusterIPs s) \<and> (\<exists>nm p. idx_services x nm = Some (p, s))"
    by (fastforce simp: ServiceByClusterIP_def split: if_splits)
  moreover have "Lookup (Some x) ip = Some w \<Longrightarrow> wl_IP w = addr_unmap ip"
    using wf(2) by (auto simp: Lookup_def workloads_wf_def split: if_splits)
  ultimately show ?thesis by blast
qed

definition ex_service :: "string list \<Rightarrow> proto_service" where
  "ex_service ips = \<lparr>ps_Name = ''web'', ps_Namespace = ''shop'', ps_ClusterIps = ips, ps_Ports = [80]\<rparr>"

definition ex_decode :: "string \<Rightarrow> proto_service option" where
  "ex_decode b = (if b = ''web'' then Some (ex_service [''10.0.0.7'']) else None)"

definition ex_response :: delta_response where
  "ex_response = \<lparr>drs_TypeUrl = ServiceTypeURL,
     drs_Resources = [\<lparr>dr_Name = ''shop/web'', dr_Version = ''1'', dr_Body = ''web''\<rparr>], drs_Removed = []\<rparr>"

definition ex_index :: index where
  "ex_index = fst (client_receive id id (\<lambda>_. None) ex_decode 5 ex_response NewIndex)"

lemma ex_index_reachable: "stream_reachable (\<lambda>_. None) ex_decode ex_index"
  unfolding ex_index_def by (rule stream_reachable.step [OF stream_reachable.start], rule stream_step.intros)
    (rule prod.collapse [symmetric])

lemma ex_index_lookup:
  "map_option svc_Name (ServiceByClusterIP (Some ex_index) (AddrV4 0x0a000007)) = Some ''web''"
  by code_simp

theorem identity_lookups_current_witness:
  "\<exists>s. ServiceByClusterIP (Some ex_index) (AddrV4 0x0a000007) = Some s \<and>
       addr_unmap (AddrV4 0x0a000007) \<in> set (svc_ClusterIPs s) \<and>
       (\<exists>nm p. idx_services ex_index nm = Some (p, s))"
  using ex_index_lookup identity_lookups_current [OF ex_index_reachable, of "AddrV4 0x0a000007"] by auto

subsection \<open>Functional behaviour of an update\<close>

lemma map_fst_services_update:
  "idx_services (update_service (nm, p, v) x) = (idx_services x)(nm \<mapsto> (idx_alloc x, serviceFromProto p))"
  by (simp add: update_service_def Let_def)

lemma fold_remove_services:
  "idx_services (fold remove_service rs x) nm = (if nm \<in> set rs then None else idx_services x nm)"
  by (induction rs arbitrary: x) (auto simp: remove_service_def Let_def)

lemma fold_update_services:
  "distinct (map fst us) \<Longrightarrow>
   map_option snd (idx_services (fold update_service us x) nm) =
     (case map_of us nm of
        Some (p, _) \<Rightarrow> Some (serviceFromProto p)
      | None \<Rightarrow> map_option snd (idx_services x nm))"
proof (induction us arbitrary: x)
  case (Cons u us)
  obtain n p v where u: "u = (n, p, v)" by (cases u)
  have "map_of us n = None" using Cons.prems u by (simp add: map_of_eq_None_iff)
  with Cons u show ?case by (auto simp: map_fst_services_update split: option.splits)
qed simp

text \<open>an update of Services has the same effect in whatever order the update map is iterated:
  a named resource is stored as sent, a removed one that is not updated is gone, every other
  Service stays.\<close>

theorem applyServices_spec:
  assumes "distinct (map fst us)"
  shows "map_option snd (idx_services (applyServices now us rs x) nm) =
     (case map_of us nm of
        Some (p, _) \<Rightarrow> Some (serviceFromProto p)
      | None \<Rightarrow> if nm \<in> set rs then None else map_option snd (idx_services x nm))"
  unfolding applyServices_def
  using fold_update_services [OF assms] by (auto simp: fold_remove_services split: option.splits)

theorem applyServices_spec_witness:
  "map_option snd (idx_services (applyServices 1 [(''a/b'', ex_service [], ''1'')] [''a/b'', ''c/d''] NewIndex) ''a/b'')
     = Some (serviceFromProto (ex_service []))"
  by (subst applyServices_spec) simp_all

subsection \<open>Synchronisation\<close>

lemma apply_synced:
  "idx_wsynced (applyWorkloads now us rs x)" "idx_ssynced (applyWorkloads now us rs x) = idx_ssynced x"
  "idx_ssynced (applyServices now vs rs x)" "idx_wsynced (applyServices now vs rs x) = idx_wsynced x"
proof -
  have w: "idx_ssynced (fold update_workload us x) = idx_ssynced x" for us and x
    by (induction us arbitrary: x) (auto simp: update_workload_def Let_def split: prod.splits)
  have r: "idx_ssynced (fold remove_workload us x) = idx_ssynced x" for us and x
    by (induction us arbitrary: x) (auto simp: remove_workload_def Let_def split: option.splits)
  have d: "idx_wsynced (drop_cluster_ips old x) = idx_wsynced x" for old x
    unfolding drop_cluster_ips_def by (rule fold_preserves [where P = "\<lambda>y. idx_wsynced y = idx_wsynced x"]) auto
  have us: "idx_wsynced (fold update_service us x) = idx_wsynced x" for us and x
    by (induction us arbitrary: x)
       (auto simp: update_service_def dropServiceLocked_def d Let_def split: prod.splits option.splits)
  have rs: "idx_wsynced (fold remove_service us x) = idx_wsynced x" for us and x
    by (induction us arbitrary: x)
       (auto simp: remove_service_def dropServiceLocked_def d Let_def split: option.splits)
  show "idx_wsynced (applyWorkloads now us rs x)" "idx_ssynced (applyWorkloads now us rs x) = idx_ssynced x"
    "idx_ssynced (applyServices now vs rs x)" "idx_wsynced (applyServices now vs rs x) = idx_wsynced x"
    by (simp_all add: applyWorkloads_def applyServices_def w r us rs)
qed

definition accepts ::
  "(string \<Rightarrow> proto_workload option) \<Rightarrow> (string \<Rightarrow> proto_service option) \<Rightarrow> string \<Rightarrow> delta_response \<Rightarrow> bool" where
  "accepts decw decs url resp \<longleftrightarrow> drs_TypeUrl resp = url \<and>
     (\<forall>r \<in> set (drs_Resources resp).
        if url = WorkloadTypeURL then decw (dr_Body r) \<noteq> None else decs (dr_Body r) \<noteq> None)"

lemma map_result_decode:
  "(\<exists>us. map_result (decode_resource dec) rs = Inr us) \<longleftrightarrow> (\<forall>r \<in> set rs. dec (dr_Body r) \<noteq> None)"
  by (induction rs) (auto simp: decode_resource_def split: option.splits sum.splits)

lemma client_receive_synced:
  fixes ow os dw ds now resp x
  defines "y \<equiv> fst (client_receive ow os dw ds now resp x)"
  shows "idx_wsynced y \<longleftrightarrow> idx_wsynced x \<or> accepts dw ds WorkloadTypeURL resp"
    and "idx_ssynced y \<longleftrightarrow> idx_ssynced x \<or> accepts dw ds ServiceTypeURL resp"
  using map_result_decode [of dw "drs_Resources resp"] map_result_decode [of ds "drs_Resources resp"]
  by (auto simp: y_def client_receive_def client_apply_def accepts_def apply_synced split: sum.splits)

text \<open>the index reports itself synchronised exactly when at least one fully decodable
  response of each resource type has been received, however many were rejected.\<close>

theorem Synced_iff_both_types:
  "Synced (Some (fold (\<lambda>(now, resp) x. fst (client_receive ow os dw ds now resp x)) rs NewIndex)) \<longleftrightarrow>
     (\<exists>(now, resp) \<in> set rs. accepts dw ds WorkloadTypeURL resp) \<and>
     (\<exists>(now, resp) \<in> set rs. accepts dw ds ServiceTypeURL resp)"
proof -
  let ?run = "fold (\<lambda>(now, resp) x. fst (client_receive ow os dw ds now resp x))"
  have "idx_wsynced (?run rs x) \<longleftrightarrow> idx_wsynced x \<or> (\<exists>(now, resp) \<in> set rs. accepts dw ds WorkloadTypeURL resp)"
    "idx_ssynced (?run rs x) \<longleftrightarrow> idx_ssynced x \<or> (\<exists>(now, resp) \<in> set rs. accepts dw ds ServiceTypeURL resp)" for x
    by (induction rs arbitrary: x) (auto simp: client_receive_synced)
  then show ?thesis by (simp add: Synced_def NewIndex_def)
qed

subsection \<open>Reconnecting\<close>

text \<open>The back-off after a sequence of failed streams, each with its life time and random draw.\<close>

definition backoff_after :: "(int \<times> int) list \<Rightarrow> int" where
  "backoff_after hist = fold (\<lambda>(alive, r) b. snd (backoff_step b alive r)) hist initial_backoff"

lemma backoff_after_bounds: "initial_backoff \<le> backoff_after hist \<and> backoff_after hist \<le> max_backoff"
  unfolding backoff_after_def
  by (rule fold_preserves [where P = "\<lambda>b. initial_backoff \<le> b \<and> b \<le> max_backoff"])
     (auto simp: backoff_step_def Let_def split: prod.splits)

text \<open>whatever the history of failed streams, the next wait is at least a quarter of a second
  and below 45 seconds.\<close>

theorem reconnect_wait_bounds:
  assumes "0 \<le> r" "r < (if alive > 30000000000 then initial_backoff else backoff_after hist)"
  shows "250000000 \<le> fst (backoff_step (backoff_after hist) alive r) \<and>
         fst (backoff_step (backoff_after hist) alive r) < 45000000000"
  using assms backoff_after_bounds [of hist] by (auto simp: backoff_step_def Let_def split: if_splits)

theorem reconnect_wait_bounds_witness:
  "fst (backoff_step (backoff_after [(0, 0), (0, 7)]) 0 1999999999) < 45000000000"
  using reconnect_wait_bounds [of 1999999999 0 "[(0, 0), (0, 7)]"]
  by (simp add: backoff_after_def backoff_step_def)

end
