(* ===== verification/Selector.thy ===== *)
theory Selector
  imports Identity_Index "HOL-Library.AList"
begin

text \<open>
  Route selectors (\<^verbatim>\<open>internal/selector/selector.go\<close>) and traffic classes
  (\<^verbatim>\<open>internal/selector/traffic.go\<close>): parsing one \<^verbatim>\<open>prefix:value\<close> reference, compiling a list of
  them into a set, and matching a caller or a destination against the set. Error returns are
  values of \<open>selector_error\<close>, one constructor per message of the source.
\<close>

datatype side = Source | Destination

datatype kind =
    KindAny | KindIP | KindCIDR | KindHost | KindExternal
  | KindService | KindNamespace | KindSA | KindSPIFFE | KindLabels

record kindInfo =
  ki_name :: string
  ki_source :: bool
  ki_destination :: bool
  ki_needsValue :: bool
  ki_workload :: bool

definition kind_info :: "string \<Rightarrow> bool \<Rightarrow> bool \<Rightarrow> bool \<Rightarrow> bool \<Rightarrow> kindInfo" where
  "kind_info n s d v w =
     \<lparr>ki_name = n, ki_source = s, ki_destination = d, ki_needsValue = v, ki_workload = w\<rparr>"

fun kinds :: "kind \<Rightarrow> kindInfo" where
  "kinds KindAny = kind_info ''any'' True True False False"
| "kinds KindIP = kind_info ''ip'' True True True False"
| "kinds KindCIDR = kind_info ''cidr'' True True True False"
| "kinds KindHost = kind_info ''host'' False True True False"
| "kinds KindExternal = kind_info ''external'' True False False True"
| "kinds KindService = kind_info ''service'' True True True True"
| "kinds KindNamespace = kind_info ''namespace'' True True True True"
| "kinds KindSA = kind_info ''sa'' True False True True"
| "kinds KindSPIFFE = kind_info ''spiffe'' True False True True"
| "kinds KindLabels = kind_info ''labels'' True False True True"

definition all_kinds :: "kind list" where
  "all_kinds = [KindAny, KindIP, KindCIDR, KindHost, KindExternal,
                KindService, KindNamespace, KindSA, KindSPIFFE, KindLabels]"

definition kindByName :: "string \<Rightarrow> kind option" where
  "kindByName n = find (\<lambda>k. ki_name (kinds k) = n) all_kinds"

definition Workload :: "kind \<Rightarrow> bool" where
  "Workload k = ki_workload (kinds k)"

record selector =
  sel_Kind :: kind
  sel_Value :: string
  sel_addr :: addr
  sel_prefix :: ip_prefix
  sel_host :: string
  sel_wildcard :: bool
  sel_labelNS :: string
  sel_labelKV :: "(string \<times> string) list"

definition new_selector :: "kind \<Rightarrow> string \<Rightarrow> selector" where
  "new_selector k v =
     \<lparr>sel_Kind = k, sel_Value = v, sel_addr = AddrInvalid,
      sel_prefix = \<lparr>pfx_addr = AddrInvalid, pfx_bits = 0\<rparr>, sel_host = [], sel_wildcard = False,
      sel_labelNS = [], sel_labelKV = []\<rparr>"

definition selector_string :: "selector \<Rightarrow> string" where
  "selector_string s =
     (if sel_Value s = [] then ki_name (kinds (sel_Kind s))
      else ki_name (kinds (sel_Kind s)) @ '':'' @ sel_Value s)"

datatype value_error =
    InvalidIP string
  | InvalidCIDR string
  | HostBitsSet string
  | InvalidHost string
  | BadLabelLength string
  | BadLabelChar string
  | BadNameEnds string
  | BadNameLength string
  | NotNamespacedName string
  | NotSPIFFE string
  | NotKeyValue string
  | SpaceInLabel string

datatype selector_error =
    UnknownPrefix string
  | WrongSide string side
  | TakesNoValue string
  | RequiresValue string
  | BadValue string value_error
  | NeedsIdentity string

subsection \<open>Validation of values\<close>

definition isLowerAlnum :: "char \<Rightarrow> bool" where
  "isLowerAlnum c \<longleftrightarrow>
     char_le CHR ''a'' c \<and> char_le c CHR ''z'' \<or> char_le CHR ''0'' c \<and> char_le c CHR ''9''"

definition validateHostLabel :: "string \<Rightarrow> (value_error, unit) result" where
  "validateHostLabel l =
     (if l = [] \<or> length l > 63 then Err (BadLabelLength l)
      else if list_all (\<lambda>c. isLowerAlnum c \<or> c = CHR ''-'' \<or> c = CHR ''_'') l then Ok ()
      else Err (BadLabelChar l))"

definition validateDNSLabel :: "string \<Rightarrow> (value_error, unit) result" where
  "validateDNSLabel v =
     (if length v = 0 \<or> length v > 63 then Err (BadLabelLength v)
      else if \<not> list_all (\<lambda>c. isLowerAlnum c \<or> c = CHR ''-'') v then Err (BadLabelChar v)
      else if hd v = CHR ''-'' \<or> last v = CHR ''-'' then Err (BadNameEnds v)
      else Ok ())"

definition validateDNSSubdomain :: "string \<Rightarrow> (value_error, unit) result" where
  "validateDNSSubdomain v =
     (if length v = 0 \<or> length v > 253 then Err (BadNameLength v)
      else check_all validateDNSLabel (split_on CHR ''.'' v))"

definition validateNamespacedName ::
  "string \<Rightarrow> (string \<Rightarrow> (value_error, unit) result) \<Rightarrow> (value_error, unit) result" where
  "validateNamespacedName v validateName =
     (case cut CHR ''/'' v of
        None \<Rightarrow> Err (NotNamespacedName v)
      | Some (ns, nm) \<Rightarrow>
          (case validateDNSLabel ns of Inl e \<Rightarrow> Err e | Inr _ \<Rightarrow> validateName nm))"

definition validateSPIFFE :: "string \<Rightarrow> (value_error, unit) result" where
  "validateSPIFFE v =
     (if \<not> has_prefix v ''//'' then Err (NotSPIFFE v)
      else (case split_on CHR ''/'' (drop 2 v) of
              [td, nsword, ns, saword, sa] \<Rightarrow>
                if td = [] \<or> nsword \<noteq> ''ns'' \<or> saword \<noteq> ''sa'' then Err (NotSPIFFE v)
                else (case validateDNSLabel ns of Inl e \<Rightarrow> Err e | Inr _ \<Rightarrow> validateDNSSubdomain sa)
            | _ \<Rightarrow> Err (NotSPIFFE v)))"

fun parse_label_pairs ::
  "string list \<Rightarrow> (string \<times> string) list \<Rightarrow> (value_error, (string \<times> string) list) result" where
  "parse_label_pairs [] kv = Ok kv"
| "parse_label_pairs (pair # ps) kv =
     (case cut CHR ''='' pair of
        None \<Rightarrow> Err (NotKeyValue pair)
      | Some (k, v) \<Rightarrow>
          if k = [] then Err (NotKeyValue pair)
          else if contains_any (k @ v) [CHR '' '', CHR 0x09] then Err (SpaceInLabel pair)
          else parse_label_pairs ps (AList.update k v kv))"

definition parseLabels :: "string \<Rightarrow> (value_error, string \<times> (string \<times> string) list) result" where
  "parseLabels v =
     (let pairs = (\<lambda>ns rest.
            case parse_label_pairs (split_on CHR '','' rest) [] of
              Inl e \<Rightarrow> Err e
            | Inr kv \<Rightarrow> Ok (ns, kv)) in
      case cut CHR ''/'' v of
        None \<Rightarrow> pairs [] v
      | Some (pre, rest) \<Rightarrow>
          if CHR ''='' \<in> set pre then pairs [] v
          else (case validateDNSLabel pre of Inl e \<Rightarrow> Err e | Inr _ \<Rightarrow> pairs pre rest))"

definition parseIP :: "selector \<Rightarrow> string \<Rightarrow> (value_error, selector) result" where
  "parseIP s v =
     (case parse_addr v of
        None \<Rightarrow> Err (InvalidIP v)
      | Some a \<Rightarrow>
          if addr_zone a \<noteq> [] then Err (InvalidIP v)
          else (let u = addr_unmap a in Ok (s\<lparr>sel_addr := u, sel_Value := show_addr u\<rparr>)))"

definition parseCIDR :: "selector \<Rightarrow> string \<Rightarrow> (value_error, selector) result" where
  "parseCIDR s v =
     (case parse_prefix v of
        None \<Rightarrow> Err (InvalidCIDR v)
      | Some p \<Rightarrow>
          if prefix_masked p \<noteq> p then Err (HostBitsSet v)
          else if addr_is4in6 (pfx_addr p) then
            (if pfx_bits p < 96 then Err (InvalidCIDR v)
             else (let q = \<lparr>pfx_addr = addr_unmap (pfx_addr p), pfx_bits = pfx_bits p - 96\<rparr>
                   in Ok (s\<lparr>sel_prefix := q, sel_Value := show_prefix q\<rparr>)))
          else Ok (s\<lparr>sel_prefix := p, sel_Value := show_prefix p\<rparr>))"

definition parseHost :: "selector \<Rightarrow> string \<Rightarrow> (value_error, selector) result" where
  "parseHost s v =
     (let h = trim_suffix (to_lower v) ''.'';
          wild = has_prefix h ''*.'';
          nm = (if wild then drop 2 h else h) in
      if nm = [] \<or> contains_any nm ''*:/'' then Err (InvalidHost v)
      else (case check_all validateHostLabel (split_on CHR ''.'' nm) of
              Inl e \<Rightarrow> Err e
            | Inr _ \<Rightarrow> Ok (s\<lparr>sel_wildcard := wild,
                             sel_host := (if wild then ''.'' @ nm else nm), sel_Value := h\<rparr>)))"

definition parse_value :: "kind \<Rightarrow> string \<Rightarrow> (value_error, selector) result" where
  "parse_value k v =
     (let s = new_selector k v; keep = (\<lambda>r. case r of Inl e \<Rightarrow> Err e | Inr (_::unit) \<Rightarrow> Ok s) in
      case k of
        KindIP \<Rightarrow> parseIP s v
      | KindCIDR \<Rightarrow> parseCIDR s v
      | KindHost \<Rightarrow> parseHost s v
      | KindService \<Rightarrow> keep (validateNamespacedName v validateDNSLabel)
      | KindSA \<Rightarrow> keep (validateNamespacedName v validateDNSSubdomain)
      | KindNamespace \<Rightarrow> keep (validateDNSLabel v)
      | KindSPIFFE \<Rightarrow> keep (validateSPIFFE v)
      | KindLabels \<Rightarrow>
          (case parseLabels v of
             Inl e \<Rightarrow> Err e
           | Inr (ns, kv) \<Rightarrow> Ok (s\<lparr>sel_labelNS := ns, sel_labelKV := kv\<rparr>))
      | _ \<Rightarrow> Ok s)"

definition Parse :: "string \<Rightarrow> side \<Rightarrow> (selector_error, selector) result" where
  "Parse raw0 sd =
     (let raw = trim_space raw0;
          (nm, v, hasValue) = (case cut CHR '':'' raw of
                                 None \<Rightarrow> (raw, [], False)
                               | Some (a, b) \<Rightarrow> (a, b, True)) in
      case kindByName nm of
        None \<Rightarrow> Err (UnknownPrefix raw)
      | Some k \<Rightarrow>
          let info = kinds k in
          if sd = Source \<and> \<not> ki_source info \<or> sd = Destination \<and> \<not> ki_destination info
          then Err (WrongSide raw sd)
          else if \<not> ki_needsValue info then
            (if hasValue then Err (TakesNoValue raw) else Ok (new_selector k []))
          else if v = [] then Err (RequiresValue raw)
          else map_error (BadValue raw) (parse_value k v))"

subsection \<open>Compiled sets\<close>

record labelSelector =
  ls_namespace :: string
  ls_kv :: "(string \<times> string) list"

record sel_set =
  set_any :: bool
  set_addrs :: "addr set"
  set_prefixes :: "ip_prefix list"
  set_hosts :: "string set"
  set_suffixes :: "string list"
  set_services :: "string set"
  set_namespaces :: "string set"
  set_sas :: "string set"
  set_spiffe :: "string set"
  set_labels :: "labelSelector list"
  set_external :: bool
  set_raw :: "string list"

definition empty_set :: sel_set where
  "empty_set = \<lparr>set_any = False, set_addrs = {}, set_prefixes = [], set_hosts = {}, set_suffixes = [],
     set_services = {}, set_namespaces = {}, set_sas = {}, set_spiffe = {}, set_labels = [],
     set_external = False, set_raw = []\<rparr>"

definition UsesWorkloads :: "sel_set option \<Rightarrow> bool" where
  "UsesWorkloads so = (case so of None \<Rightarrow> False | Some s \<Rightarrow>
     set_external s \<or> set_services s \<noteq> {} \<or> set_namespaces s \<noteq> {} \<or> set_sas s \<noteq> {} \<or>
     set_spiffe s \<noteq> {} \<or> set_labels s \<noteq> [])"

text \<open>The \<^verbatim>\<open>switch\<close> of \<^verbatim>\<open>Compile\<close>: one parsed selector added to the set.\<close>

definition add_selector :: "selector \<Rightarrow> sel_set \<Rightarrow> sel_set" where
  "add_selector sel s0 =
     (let s = s0\<lparr>set_raw := set_raw s0 @ [selector_string sel]\<rparr> in
      case sel_Kind sel of
        KindAny \<Rightarrow> s\<lparr>set_any := True\<rparr>
      | KindIP \<Rightarrow> s\<lparr>set_addrs := insert (sel_addr sel) (set_addrs s)\<rparr>
      | KindCIDR \<Rightarrow> s\<lparr>set_prefixes := set_prefixes s @ [sel_prefix sel]\<rparr>
      | KindHost \<Rightarrow> if sel_wildcard sel then s\<lparr>set_suffixes := set_suffixes s @ [sel_host sel]\<rparr>
                    else s\<lparr>set_hosts := insert (sel_host sel) (set_hosts s)\<rparr>
      | KindService \<Rightarrow> s\<lparr>set_services := insert (sel_Value sel) (set_services s)\<rparr>
      | KindNamespace \<Rightarrow> s\<lparr>set_namespaces := insert (sel_Value sel) (set_namespaces s)\<rparr>
      | KindSA \<Rightarrow> s\<lparr>set_sas := insert (sel_Value sel) (set_sas s)\<rparr>
      | KindSPIFFE \<Rightarrow> s\<lparr>set_spiffe := insert (''spiffe:'' @ sel_Value sel) (set_spiffe s)\<rparr>
      | KindLabels \<Rightarrow> s\<lparr>set_labels := set_labels s @
                          [\<lparr>ls_namespace = sel_labelNS sel, ls_kv = sel_labelKV sel\<rparr>]\<rparr>
      | KindExternal \<Rightarrow> s\<lparr>set_external := True\<rparr>)"

fun compile_loop :: "string list \<Rightarrow> side \<Rightarrow> bool \<Rightarrow> sel_set \<Rightarrow> (selector_error, sel_set) result" where
  "compile_loop [] sd allow s = Ok s"
| "compile_loop (raw # rest) sd allow s =
     (case Parse raw sd of
        Inl e \<Rightarrow> Err e
      | Inr sel \<Rightarrow>
          if Workload (sel_Kind sel) \<and> \<not> allow then Err (NeedsIdentity raw)
          else compile_loop rest sd allow (add_selector sel s))"

definition Compile :: "string list \<Rightarrow> side \<Rightarrow> bool \<Rightarrow> (selector_error, sel_set option) result" where
  "Compile xs sd allow =
     (if xs = [] then Ok None
      else (case compile_loop xs sd allow empty_set of Inl e \<Rightarrow> Err e | Inr s \<Rightarrow> Ok (Some s)))"

definition set_string :: "sel_set option \<Rightarrow> string" where
  "set_string so = (case so of None \<Rightarrow> [] | Some s \<Rightarrow> join '','' (set_raw s))"

subsection \<open>Matching\<close>

definition Match :: "sel_set option \<Rightarrow> addr \<Rightarrow> string \<Rightarrow> bool" where
  "Match so a host =
     (case so of
        None \<Rightarrow> True
      | Some s \<Rightarrow>
          set_any s \<or>
          addr_is_valid a \<and>
            (a \<in> set_addrs s \<or> list_ex (\<lambda>p. prefix_contains p a) (set_prefixes s)) \<or>
          host \<noteq> [] \<and>
            (host \<in> set_hosts s \<or>
             list_ex (\<lambda>suf. length host > length suf \<and> has_suffix host suf) (set_suffixes s)))"

definition label_matches :: "labelSelector \<Rightarrow> workload \<Rightarrow> bool" where
  "label_matches l w =
     (if ls_namespace l \<noteq> [] \<and> ls_namespace l \<noteq> wl_Namespace w then False
      else list_all (\<lambda>(k, v). wl_Labels w k = Some v) (ls_kv l))"

definition MatchSource :: "sel_set option \<Rightarrow> addr \<Rightarrow> workload option \<Rightarrow> bool \<Rightarrow> bool" where
  "MatchSource so a wo externalAllowed =
     (case so of
        None \<Rightarrow> True
      | Some s \<Rightarrow>
          if set_any s \<or> Match (Some s) a [] then True
          else (case wo of
                  None \<Rightarrow> set_external s \<and> externalAllowed
                | Some w \<Rightarrow>
                    if \<not> IsPod wo then False
                    else if wl_Namespace w \<in> set_namespaces s then True
                    else if wl_Namespace w @ ''/'' @ wl_ServiceAccount w \<in> set_sas s then True
                    else if wl_SPIFFEID w \<in> set_spiffe s \<and> wl_SPIFFEID w \<noteq> [] then True
                    else if list_ex (\<lambda>svc. svc \<in> set_services s) (wl_Services w) then True
                    else list_ex (\<lambda>l. label_matches l w) (set_labels s)))"

definition svc_namespace :: "string \<Rightarrow> string" where
  "svc_namespace svc = (case cut CHR ''/'' svc of None \<Rightarrow> svc | Some (ns, _) \<Rightarrow> ns)"

definition MatchDestination :: "sel_set option \<Rightarrow> addr \<Rightarrow> string \<Rightarrow> string list \<Rightarrow> bool" where
  "MatchDestination so a host services =
     (case so of
        None \<Rightarrow> True
      | Some s \<Rightarrow>
          if set_any s \<or> Match (Some s) a host then True
          else list_ex (\<lambda>svc. svc \<in> set_services s \<or> svc_namespace svc \<in> set_namespaces s) services)"

subsection \<open>Request attributes\<close>

definition ParseAddr :: "string \<Rightarrow> addr" where
  "ParseAddr s0 =
     (let s = trim_space s0 in
      if s = [] then AddrInvalid
      else (case parse_addr_port s of
              Some a \<Rightarrow> addr_unmap (addr_without_zone a)
            | None \<Rightarrow>
                (case parse_addr (trim_suffix (trim_prefix s ''['') '']'') of
                   None \<Rightarrow> AddrInvalid
                 | Some a \<Rightarrow> addr_unmap (addr_without_zone a))))"

definition NormalizeHost :: "string \<Rightarrow> string" where
  "NormalizeHost authority =
     (let h = trim_space authority in
      if h = [] then []
      else
        (let host = (case split_host_port h of
                       Some (hst, _) \<Rightarrow> hst
                     | None \<Rightarrow> trim_suffix (trim_prefix h ''['') '']'')
         in trim_suffix (to_lower host) ''.''))"

subsection \<open>Traffic classes\<close>

datatype traffic = TrafficAny | TrafficNorthSouth | TrafficEastWest

definition traffic_string :: "traffic \<Rightarrow> string" where
  "traffic_string t =
     (case t of TrafficNorthSouth \<Rightarrow> ''north_south'' | TrafficEastWest \<Rightarrow> ''east_west'' | TrafficAny \<Rightarrow> ''any'')"

datatype traffic_error = InvalidTraffic string

definition ParseTraffic :: "string \<Rightarrow> (traffic_error, traffic) result" where
  "ParseTraffic v =
     (let n = filter (\<lambda>c. c \<noteq> CHR ''-'' \<and> c \<noteq> CHR ''_'') (to_lower (trim_space v)) in
      if n = [] \<or> n = ''any'' then Ok TrafficAny
      else if n = ''northsouth'' then Ok TrafficNorthSouth
      else if n = ''eastwest'' then Ok TrafficEastWest
      else Err (InvalidTraffic v))"

subsection \<open>What one selector denotes\<close>

text \<open>
  The reading of a single selector, written without the compiled set: a compiled list is the
  disjunction of the readings of its entries.
\<close>

definition denotes_net :: "selector \<Rightarrow> addr \<Rightarrow> string \<Rightarrow> bool" where
  "denotes_net sel a host =
     (case sel_Kind sel of
        KindAny \<Rightarrow> True
      | KindIP \<Rightarrow> addr_is_valid a \<and> a = sel_addr sel
      | KindCIDR \<Rightarrow> addr_is_valid a \<and> prefix_contains (sel_prefix sel) a
      | KindHost \<Rightarrow> host \<noteq> [] \<and>
          (if sel_wildcard sel then length host > length (sel_host sel) \<and> has_suffix host (sel_host sel)
           else host = sel_host sel)
      | _ \<Rightarrow> False)"

definition denotes_workload :: "selector \<Rightarrow> workload \<Rightarrow> bool" where
  "denotes_workload sel w =
     (case sel_Kind sel of
        KindService \<Rightarrow> sel_Value sel \<in> set (wl_Services w)
      | KindNamespace \<Rightarrow> wl_Namespace w = sel_Value sel
      | KindSA \<Rightarrow> wl_Namespace w @ ''/'' @ wl_ServiceAccount w = sel_Value sel
      | KindSPIFFE \<Rightarrow> wl_SPIFFEID w = ''spiffe:'' @ sel_Value sel
      | KindLabels \<Rightarrow>
          (sel_labelNS sel = [] \<or> sel_labelNS sel = wl_Namespace w) \<and>
          (\<forall>(k, v) \<in> set (sel_labelKV sel). wl_Labels w k = Some v)
      | _ \<Rightarrow> False)"

definition denotes_source :: "selector \<Rightarrow> addr \<Rightarrow> workload option \<Rightarrow> bool \<Rightarrow> bool" where
  "denotes_source sel a wo e \<longleftrightarrow>
     denotes_net sel a [] \<or>
     (case wo of
        None \<Rightarrow> sel_Kind sel = KindExternal \<and> e
      | Some w \<Rightarrow> IsPod wo \<and> denotes_workload sel w)"

definition denotes_destination :: "selector \<Rightarrow> addr \<Rightarrow> string \<Rightarrow> string list \<Rightarrow> bool" where
  "denotes_destination sel a host svcs \<longleftrightarrow>
     denotes_net sel a host \<or>
     sel_Kind sel = KindService \<and> sel_Value sel \<in> set svcs \<or>
     sel_Kind sel = KindNamespace \<and> (\<exists>svc \<in> set svcs. svc_namespace svc = sel_Value sel)"

lemma Match_empty: "\<not> Match (Some empty_set) a h"
  by (simp add: Match_def empty_set_def)

lemma Match_add: "Match (Some (add_selector sel s)) a h \<longleftrightarrow> Match (Some s) a h \<or> denotes_net sel a h"
  by (cases "sel_Kind sel") (auto simp: Match_def add_selector_def denotes_net_def Let_def)

lemma MatchSource_Some:
  "MatchSource (Some s) a wo e \<longleftrightarrow> Match (Some s) a [] \<or>
     (case wo of
        None \<Rightarrow> set_external s \<and> e
      | Some w \<Rightarrow> IsPod wo \<and>
          (wl_Namespace w \<in> set_namespaces s \<or>
           wl_Namespace w @ ''/'' @ wl_ServiceAccount w \<in> set_sas s \<or>
           wl_SPIFFEID w \<in> set_spiffe s \<and> wl_SPIFFEID w \<noteq> [] \<or>
           (\<exists>svc \<in> set (wl_Services w). svc \<in> set_services s) \<or>
           (\<exists>l \<in> set (set_labels s). label_matches l w)))"
  by (auto simp: MatchSource_def Match_def list_ex_iff split: option.splits if_splits)

lemma MatchSource_empty: "\<not> MatchSource (Some empty_set) a w e"
  unfolding MatchSource_Some using Match_empty by (auto simp: empty_set_def split: option.split)

lemma MatchSource_add:
  "MatchSource (Some (add_selector sel s)) a wo e \<longleftrightarrow> MatchSource (Some s) a wo e \<or> denotes_source sel a wo e"
  unfolding MatchSource_Some Match_add denotes_source_def
  by (cases "sel_Kind sel"; cases wo)
     (auto simp: add_selector_def denotes_workload_def label_matches_def list_all_iff Let_def)

lemma MatchDestination_empty: "\<not> MatchDestination (Some empty_set) a h svcs"
  by (simp add: MatchDestination_def Match_empty list_ex_iff) (simp add: empty_set_def)

lemma MatchDestination_Some:
  "MatchDestination (Some s) a h svcs \<longleftrightarrow> Match (Some s) a h \<or>
     (\<exists>svc \<in> set svcs. svc \<in> set_services s \<or> svc_namespace svc \<in> set_namespaces s)"
  by (auto simp: MatchDestination_def Match_def list_ex_iff split: if_splits)

lemma MatchDestination_add:
  "MatchDestination (Some (add_selector sel s)) a h svcs \<longleftrightarrow>
     MatchDestination (Some s) a h svcs \<or> denotes_destination sel a h svcs"
  unfolding MatchDestination_Some Match_add denotes_destination_def
  by (cases "sel_Kind sel") (auto simp: add_selector_def Let_def)

text \<open>
  Both match functions read a compiled set as the disjunction of its entries. The interface
  states what that takes: the empty set matches nothing and adding a selector adds its reading.
\<close>

locale set_reading =
  fixes reads :: "sel_set \<Rightarrow> bool"
    and denotes :: "selector \<Rightarrow> bool"
  assumes reads_empty: "\<not> reads empty_set"
    and reads_add: "reads (add_selector sel s) \<longleftrightarrow> reads s \<or> denotes sel"
begin

lemma compile_loop_reads:
  "compile_loop xs sd allow s = Ok s' \<Longrightarrow>
   reads s' \<longleftrightarrow> reads s \<or> (\<exists>raw \<in> set xs. \<exists>sel. Parse raw sd = Ok sel \<and> denotes sel)"
  by (induction xs arbitrary: s) (auto simp: reads_add split: sum.splits if_splits)

lemma Compile_reads:
  "Compile xs sd allow = Ok (Some s) \<Longrightarrow>
   reads s \<longleftrightarrow> (\<exists>raw \<in> set xs. \<exists>sel. Parse raw sd = Ok sel \<and> denotes sel)"
  by (auto simp: Compile_def reads_empty dest: compile_loop_reads split: if_splits sum.splits)

end

interpretation source_reading: set_reading
  "\<lambda>s. MatchSource (Some s) a w e" "\<lambda>sel. denotes_source sel a w e" for a w e
  by unfold_locales (simp_all add: MatchSource_empty MatchSource_add)

interpretation destination_reading: set_reading
  "\<lambda>s. MatchDestination (Some s) a h svcs" "\<lambda>sel. denotes_destination sel a h svcs" for a h svcs
  by unfold_locales (simp_all add: MatchDestination_empty MatchDestination_add)

lemma Compile_None: "Compile xs sd allow = Ok None \<longleftrightarrow> xs = []"
  by (auto simp: Compile_def split: sum.splits)

lemma MatchSource_reading:
  assumes "Compile xs Source allow = Ok so"
  shows "MatchSource so a w e \<longleftrightarrow>
    xs = [] \<or> (\<exists>raw \<in> set xs. \<exists>sel. Parse raw Source = Ok sel \<and> denotes_source sel a w e)"
proof (cases so)
  case None
  with assms show ?thesis by (simp add: Compile_None MatchSource_def)
next
  case (Some s)
  with assms have "xs \<noteq> []" by (auto simp: Compile_def)
  with assms Some show ?thesis by (simp add: source_reading.Compile_reads)
qed

text \<open>C12: a compiled source list is the disjunction of its entries. The caller matches the compiled
  set exactly when the list is empty or some entry of it, parsed on its own, denotes the caller; no
  entry widens or hides another.\<close>

theorem MatchSource_Compile:
  assumes "Compile xs Source allow = Ok so"
  shows "MatchSource so a w e \<longleftrightarrow>
    xs = [] \<or> (\<exists>raw \<in> set xs. \<exists>sel. Parse raw Source = Ok sel \<and> denotes_source sel a w e)"
  using assms by (rule MatchSource_reading)

definition ex_workload :: workload where
  "ex_workload = \<lparr>wl_IP = AddrV4 0x0a000003, wl_Kind = KindPod, wl_Namespace = ''shop'', wl_Pod = ''p'',
     wl_PodUID = ''u'', wl_ServiceAccount = ''web'', wl_SPIFFEID = [], wl_Node = ''n'',
     wl_Labels = [''app'' \<mapsto> ''web''], wl_Services = [''shop/cart''], wl_SecurityIdentity = 0\<rparr>"

lemma ex_compile_source:
  "\<exists>s. Compile [''cidr:10.1.0.0/16'', ''sa:shop/web''] Source True = Ok (Some s) \<and>
       MatchSource (Some s) (AddrV4 0x0a000003) (Some ex_workload) False"
proof -
  have "case Compile [''cidr:10.1.0.0/16'', ''sa:shop/web''] Source True of
          Inr (Some s) \<Rightarrow> MatchSource (Some s) (AddrV4 0x0a000003) (Some ex_workload) False | _ \<Rightarrow> False"
    by code_simp
  then show ?thesis by (auto split: sum.splits option.splits)
qed

theorem MatchSource_Compile_witness:
  "\<exists>raw \<in> {''cidr:10.1.0.0/16'', ''sa:shop/web''}. \<exists>sel. Parse raw Source = Ok sel \<and>
     denotes_source sel (AddrV4 0x0a000003) (Some ex_workload) False"
  using ex_compile_source MatchSource_Compile [of "[''cidr:10.1.0.0/16'', ''sa:shop/web'']" True _
      "AddrV4 0x0a000003" "Some ex_workload" False]
  by fastforce

lemma MatchDestination_reading:
  assumes "Compile xs Destination allow = Ok so"
  shows "MatchDestination so a h svcs \<longleftrightarrow>
    xs = [] \<or> (\<exists>raw \<in> set xs. \<exists>sel. Parse raw Destination = Ok sel \<and> denotes_destination sel a h svcs)"
proof (cases so)
  case None
  with assms show ?thesis by (simp add: Compile_None MatchDestination_def)
next
  case (Some s)
  with assms have "xs \<noteq> []" by (auto simp: Compile_def)
  with assms Some show ?thesis by (simp add: destination_reading.Compile_reads)
qed

text \<open>C13: a compiled destination list is the disjunction of its entries: address, host and resolved
  Services match the set exactly when the list is empty or one entry, parsed on its own, denotes
  them.\<close>

theorem MatchDestination_Compile:
  assumes "Compile xs Destination allow = Ok so"
  shows "MatchDestination so a h svcs \<longleftrightarrow>
    xs = [] \<or> (\<exists>raw \<in> set xs. \<exists>sel. Parse raw Destination = Ok sel \<and> denotes_destination sel a h svcs)"
  using assms by (rule MatchDestination_reading)

lemma ex_compile_destination:
  "\<exists>s. Compile [''ip:10.0.0.9'', ''namespace:shop''] Destination True = Ok (Some s) \<and>
       MatchDestination (Some s) AddrInvalid ''h'' [''shop/cart'']"
proof -
  have "case Compile [''ip:10.0.0.9'', ''namespace:shop''] Destination True of
          Inr (Some s) \<Rightarrow> MatchDestination (Some s) AddrInvalid ''h'' [''shop/cart''] | _ \<Rightarrow> False"
    by code_simp
  then show ?thesis by (auto split: sum.splits option.splits)
qed

theorem MatchDestination_Compile_witness:
  "\<exists>raw \<in> {''ip:10.0.0.9'', ''namespace:shop''}. \<exists>sel. Parse raw Destination = Ok sel \<and>
     denotes_destination sel AddrInvalid ''h'' [''shop/cart'']"
  using ex_compile_destination MatchDestination_Compile [of "[''ip:10.0.0.9'', ''namespace:shop'']" True _
      AddrInvalid "''h''" "[''shop/cart'']"]
  by fastforce

subsection \<open>Lists that need the identity map\<close>

lemma compile_loop_workloads:
  "compile_loop xs sd False s = Ok s' \<Longrightarrow> \<not> UsesWorkloads (Some s) \<Longrightarrow> \<not> UsesWorkloads (Some s')"
proof (induction xs arbitrary: s)
  case (Cons raw xs)
  then obtain sel where sel: "Parse raw sd = Ok sel" "\<not> Workload (sel_Kind sel)"
    and loop: "compile_loop xs sd False (add_selector sel s) = Ok s'"
    by (auto split: sum.splits if_splits)
  have "\<not> UsesWorkloads (Some (add_selector sel s))"
    using sel(2) Cons.prems(2)
    by (cases "sel_Kind sel") (auto simp: Workload_def kind_info_def UsesWorkloads_def add_selector_def Let_def)
  from Cons.IH [OF loop this] show ?case .
qed simp

text \<open>a list compiled without the identity map contains no workload selector, and its matches do
  not depend on the workload or on whether the caller may count as external.\<close>

theorem Compile_without_identity:
  assumes "Compile xs sd False = Ok so"
  shows "\<not> UsesWorkloads so \<and> MatchSource so a w e = MatchSource so a None False"
proof
  show *: "\<not> UsesWorkloads so"
    using assms compile_loop_workloads [of xs sd empty_set]
    by (auto simp: Compile_def UsesWorkloads_def empty_set_def split: if_splits sum.splits)
  show "MatchSource so a w e = MatchSource so a None False"
    using * by (cases so) (auto simp: MatchSource_Some UsesWorkloads_def MatchSource_def [of None] split: option.split)
qed

theorem Compile_without_identity_witness:
  "\<exists>so. Compile [''cidr:10.1.0.0/16''] Source False = Ok so \<and> \<not> UsesWorkloads so"
proof -
  have "is_ok (Compile [''cidr:10.1.0.0/16''] Source False)" by code_simp
  then obtain so where "Compile [''cidr:10.1.0.0/16''] Source False = Ok so"
    by (auto simp: is_ok_def split: sum.splits)
  with Compile_without_identity [OF this] show ?thesis by blast
qed

subsection \<open>Canonical forms\<close>

lemma kindByName_Some: "kindByName n = Some k \<Longrightarrow> ki_name (kinds k) = n"
  by (auto simp: kindByName_def find_Some_iff)

lemma kindByName_name [simp]: "kindByName (ki_name (kinds k)) = Some k"
  by (cases k) (simp_all add: kindByName_def all_kinds_def kind_info_def)

lemma kind_name_props:
  "CHR '':'' \<notin> set (ki_name (kinds k))" "ki_name (kinds k) \<noteq> []" "\<not> is_space (hd (ki_name (kinds k)))"
  "\<not> is_space (last (ki_name (kinds k)))"
  by (cases k; simp add: kind_info_def is_space_def)+

definition side_allowed :: "side \<Rightarrow> kind \<Rightarrow> bool" where
  "side_allowed sd k = (case sd of Source \<Rightarrow> ki_source (kinds k) | Destination \<Rightarrow> ki_destination (kinds k))"

lemma Parse_bare:
  assumes "side_allowed sd k" "\<not> ki_needsValue (kinds k)"
  shows "Parse (ki_name (kinds k)) sd = Ok (new_selector k [])"
proof -
  have "trim_space (ki_name (kinds k)) = ki_name (kinds k)"
    by (intro trim_space_id kind_name_props)
  then show ?thesis
    using assms kind_name_props(1) [of k] by (cases sd) (simp_all add: Parse_def Let_def side_allowed_def)
qed

lemma Parse_valued:
  assumes "side_allowed sd k" "ki_needsValue (kinds k)" "v \<noteq> []" "\<not> is_space (last v)"
  shows "Parse (ki_name (kinds k) @ '':'' @ v) sd =
           map_error (BadValue (ki_name (kinds k) @ '':'' @ v)) (parse_value k v)"
proof -
  let ?r = "ki_name (kinds k) @ '':'' @ v"
  have "trim_space ?r = ?r"
    using assms(3,4) kind_name_props [of k] by (intro trim_space_id) auto
  moreover have "cut CHR '':'' ?r = Some (ki_name (kinds k), v)"
    using kind_name_props(1) by simp
  ultimately show ?thesis
    using assms by (cases sd) (auto simp: Parse_def Let_def side_allowed_def)
qed

lemma Parse_Ok_cases:
  assumes "Parse raw sd = Ok sel"
  obtains (bare) k where "side_allowed sd k" "\<not> ki_needsValue (kinds k)" "sel = new_selector k []"
  | (valued) k v where "side_allowed sd k" "ki_needsValue (kinds k)" "v \<noteq> []" "\<not> is_space (last v)"
      "parse_value k v = Ok sel"
proof (cases "cut CHR '':'' (trim_space raw)")
  case None
  with assms bare show ?thesis
    by (auto simp: Parse_def Let_def side_allowed_def split: option.splits if_splits side.splits)
next
  case (Some p)
  obtain n v where p: "p = (n, v)" by (cases p)
  from assms Some p obtain k where k: "side_allowed sd k" "ki_needsValue (kinds k)" "v \<noteq> []"
    "parse_value k v = Ok sel"
    by (cases sd) (auto simp: Parse_def Let_def side_allowed_def split: option.splits if_splits)
  from Some p have "trim_space raw = n @ CHR '':'' # v" by (auto dest: cut_Some)
  with trim_space_ends [of raw] k(3) have "\<not> is_space (last v)" by simp
  with k valued show ?thesis by blast
qed

lemma parse_value_kind: "parse_value k v = Ok sel \<Longrightarrow> sel_Kind sel = k"
  by (auto simp: parse_value_def parseIP_def parseCIDR_def parseHost_def new_selector_def Let_def
      split: kind.splits option.splits if_splits sum.splits prod.splits)

lemma parse_value_keeps:
  "parse_value k v = Ok sel \<Longrightarrow> k \<notin> {KindIP, KindCIDR, KindHost} \<Longrightarrow> sel_Value sel = v"
  by (auto simp: parse_value_def new_selector_def Let_def split: kind.splits sum.splits prod.splits)

lemma host_label_chars:
  "validateHostLabel l = Ok () \<Longrightarrow> c \<in> set l \<Longrightarrow> isLowerAlnum c \<or> c = CHR ''-'' \<or> c = CHR ''_''"
  by (auto simp: validateHostLabel_def list_all_iff split: if_splits)

lemma host_char_not_space: "isLowerAlnum c \<or> c = CHR ''-'' \<or> c = CHR ''_'' \<or> c = CHR ''.'' \<Longrightarrow> \<not> is_space c"
  by (auto simp: isLowerAlnum_def is_space_def char_le_def)

lemma host_name_last:
  assumes ok: "check_all validateHostLabel (split_on CHR ''.'' nm) = Ok ()" and ne: "nm \<noteq> []"
  shows "last nm \<noteq> CHR ''.''" and "\<not> is_space (last nm)"
proof -
  have lab: "validateHostLabel l = Ok ()" if "l \<in> set (split_on CHR ''.'' nm)" for l
    using ok that by (simp add: check_all_Ok)
  show "last nm \<noteq> CHR ''.''"
  proof
    assume "last nm = CHR ''.''"
    then have "nm = butlast nm @ CHR ''.'' # []" using ne by (metis append_butlast_last_id)
    then have "split_on CHR ''.'' nm = split_on CHR ''.'' (butlast nm) @ [[]]"
      using split_on_append [of "CHR ''.''" "butlast nm" "[]"] by simp
    then have "validateHostLabel [] = Ok ()" using lab by simp
    then show False by (simp add: validateHostLabel_def)
  qed
  from split_on_char [of "last nm" nm "CHR ''.''"] ne
  show "\<not> is_space (last nm)" using lab host_label_chars host_char_not_space by (metis last_in_set)
qed

lemma trim_suffix_dot_id: "s = [] \<or> last s \<noteq> CHR ''.'' \<Longrightarrow> trim_suffix s ''.'' = s"
  by (auto simp: trim_suffix_def has_suffix_iff suffix_def)

lemma to_lower_trim_suffix: "to_lower (trim_suffix (to_lower v) ''.'') = trim_suffix (to_lower v) ''.''"
  by (simp add: trim_suffix_def to_lower_def take_map)

lemma parseHost_canonical:
  assumes "parseHost (new_selector k v) v = Ok sel"
  shows "parseHost (new_selector k (sel_Value sel)) (sel_Value sel) = Ok sel"
    and "sel_Value sel \<noteq> []" and "\<not> is_space (last (sel_Value sel))"
proof -
  define h where "h = trim_suffix (to_lower v) ''.''"
  define nm where "nm = (if has_prefix h ''*.'' then drop 2 h else h)"
  from assms have nm: "nm \<noteq> []" "check_all validateHostLabel (split_on CHR ''.'' nm) = Ok ()"
    and val: "sel_Value sel = h"
    unfolding parseHost_def h_def [symmetric] Let_def nm_def [symmetric]
    by (auto simp flip: nm_def split: if_splits sum.splits)
  from nm(1) have "last nm = last h" "h \<noteq> []" by (auto simp: nm_def split: if_splits)
  with host_name_last [OF nm(2,1)] have last: "last h \<noteq> CHR ''.''" "\<not> is_space (last h)" by auto
  then have "trim_suffix (to_lower h) ''.'' = h"
    using to_lower_trim_suffix [of v] by (simp add: h_def [symmetric] trim_suffix_dot_id)
  with assms val show "parseHost (new_selector k (sel_Value sel)) (sel_Value sel) = Ok sel"
    by (auto simp: parseHost_def new_selector_def Let_def h_def split: if_splits sum.splits)
  show "sel_Value sel \<noteq> []" "\<not> is_space (last (sel_Value sel))"
    using val \<open>h \<noteq> []\<close> last by auto
qed



lemma host_wildcard_Parse:
  assumes "Parse (''host:*.'' @ d) Destination = Ok sel" "trim_space d = d"
  shows "sel_Kind sel = KindHost" "sel_wildcard sel" "sel_host sel = ''.'' @ trim_suffix (to_lower d) ''.''"
proof -
  have d: "d \<noteq> []"
    using assms(1) by (rule contrapos_pn) (simp, code_simp)
  then have "\<not> is_space (last d)" using trim_space_ends [of d] assms(2) by simp
  with d Parse_valued [of Destination KindHost "''*.'' @ d"] assms(1)
  have "parse_value KindHost (''*.'' @ d) = Ok sel"
    by (simp add: side_allowed_def kind_info_def)
  moreover have "trim_suffix (''*.'' @ to_lower d) ''.'' = ''*.'' @ trim_suffix (to_lower d) ''.''"
    using d trim_suffix_append [of "''.''" "to_lower d" "''*.''"] by (cases d) (simp_all add: to_lower_def)
  moreover have "lower_char CHR ''*'' = CHR ''*''" "lower_char CHR ''.'' = CHR ''.''" by code_simp+
  then have "to_lower (CHR ''*'' # CHR ''.'' # d) = ''*.'' @ to_lower d" by (simp add: to_lower_def)
  ultimately show "sel_Kind sel = KindHost" "sel_wildcard sel"
    "sel_host sel = ''.'' @ trim_suffix (to_lower d) ''.''"
    by (auto simp: parse_value_def parseHost_def new_selector_def has_prefix_def Let_def
        split: if_splits sum.splits)
qed

text \<open>a wildcard host selector matches exactly the proper subdomains of its domain, compared with
  the domain lower-cased and without a trailing dot; the domain itself does not match.\<close>

theorem wildcard_host_subdomains:
  assumes "Compile [''host:*.'' @ d] Destination allow = Ok so" "trim_space d = d"
  shows "MatchDestination so a h svcs \<longleftrightarrow>
    (\<exists>sub. sub \<noteq> [] \<and> h = sub @ ''.'' @ trim_suffix (to_lower d) ''.'')"
proof -
  obtain sel where sel: "Parse (''host:*.'' @ d) Destination = Ok sel"
    using assms(1) by (auto simp: Compile_def split: sum.splits)
  obtain s where so: "so = Some s"
    using assms(1) by (auto simp: Compile_def split: sum.splits)
  have "MatchDestination so a h svcs \<longleftrightarrow> denotes_destination sel a h svcs"
    using destination_reading.Compile_reads [of "[''host:*.'' @ d]" Destination allow s a h svcs]
      assms(1) so sel by simp
  also have "\<dots> \<longleftrightarrow> length h > length (sel_host sel) \<and> suffix (sel_host sel) h"
    using host_wildcard_Parse [OF sel assms(2)]
    by (auto simp: denotes_destination_def denotes_net_def has_suffix_iff)
  also have "\<dots> \<longleftrightarrow> (\<exists>sub. sub \<noteq> [] \<and> h = sub @ sel_host sel)"
    by (auto simp: suffix_def)
  finally show ?thesis using host_wildcard_Parse [OF sel assms(2)] by simp
qed

theorem wildcard_host_subdomains_witness:
  "\<exists>so. Compile [''host:*.Example.com''] Destination False = Ok so \<and>
        MatchDestination so AddrInvalid ''a.example.com'' [] \<and>
        \<not> MatchDestination so AddrInvalid ''example.com'' []"
proof -
  have "is_ok (Compile [''host:*.Example.com''] Destination False)" by code_simp
  then obtain so where so: "Compile [''host:*.Example.com''] Destination False = Ok so"
    by (auto simp: is_ok_def split: sum.splits)
  have t: "trim_space ''Example.com'' = ''Example.com''" by code_simp
  have d: "trim_suffix (to_lower ''Example.com'') ''.'' = ''example.com''" by code_simp
  have w: "MatchDestination so AddrInvalid h [] \<longleftrightarrow> (\<exists>sub. sub \<noteq> [] \<and> h = sub @ ''.example.com'')" for h
    using wildcard_host_subdomains [of "''Example.com''" False so AddrInvalid h "[]"] so t d by simp
  have "MatchDestination so AddrInvalid ''a.example.com'' []"
    unfolding w by (rule exI [of _ "''a''"]) simp
  moreover have "length (sub @ ''.example.com'') \<noteq> length ''example.com''" for sub :: string by simp
  then have "\<not> MatchDestination so AddrInvalid ''example.com'' []" unfolding w by metis
  ultimately show ?thesis using so by blast
qed

end
