(* ===== verification/Client_IP.thy ===== *)
theory Client_IP
  imports Selector
begin

text \<open>
  The downstream client address (\<^verbatim>\<open>internal/clientip/clientip.go\<close>): the address chain is the
  entries of \<^verbatim>\<open>X-Forwarded-For\<close> followed by the peer Envoy observed, and the client is the entry
  \<^verbatim>\<open>trustedHops\<close> positions from its right end.
\<close>

definition stripPort :: "string \<Rightarrow> string" where
  "stripPort addr0 =
     (let a = trim_space addr0 in
      if a = [] then []
      else (case split_host_port a of
              Some (host, _) \<Rightarrow> host
            | None \<Rightarrow> trim_suffix (trim_prefix a ''['') '']''))"

definition splitXFF :: "string \<Rightarrow> string list" where
  "splitXFF xff =
     (if xff = [] then []
      else filter (\<lambda>p. p \<noteq> []) (map (\<lambda>p. stripPort (trim_space p)) (split_on CHR '','' xff)))"

text \<open>The chain \<^verbatim>\<open>Resolve\<close> builds before it indexes it.\<close>

definition address_chain :: "string \<Rightarrow> string \<Rightarrow> string list" where
  "address_chain xff peer0 =
     (let chain = splitXFF xff; peer = stripPort peer0 in
      if peer \<noteq> [] \<and> (chain = [] \<or> last chain \<noteq> peer) then chain @ [peer] else chain)"

definition Resolve :: "string \<Rightarrow> string \<Rightarrow> int \<Rightarrow> string" where
  "Resolve xff peer hops0 =
     (let hops = (if hops0 < 0 then 0 else hops0); chain = address_chain xff peer in
      if chain = [] then []
      else (let idx = int (length chain) - 1 - hops
            in chain ! nat (if idx < 0 then 0 else idx)))"

text \<open>
  \<^verbatim>\<open>PeerFromAttributes\<close>: the attribute structs in the order the map is iterated; a struct maps a
  field name to its string value (empty for a value of another type).
\<close>

fun attribute :: "string \<Rightarrow> (string \<rightharpoonup> string) option list \<Rightarrow> string" where
  "attribute nm [] = []"
| "attribute nm (None # ss) = attribute nm ss"
| "attribute nm (Some flds # ss) =
     (case flds nm of
        Some str \<Rightarrow> if str \<noteq> [] then str else attribute nm ss
      | None \<Rightarrow> attribute nm ss)"

definition PeerFromAttributes :: "(string \<rightharpoonup> string) option list \<Rightarrow> string" where
  "PeerFromAttributes = attribute ''source.address''"

subsection \<open>Properties\<close>

lemma splitXFF_Cons: "splitXFF (a @ CHR '','' # b) = splitXFF a @ splitXFF b"
proof -
  have "splitXFF x = filter (\<lambda>p. p \<noteq> []) (map (\<lambda>p. stripPort (trim_space p)) (split_on CHR '','' x))" for x
    by (simp add: splitXFF_def stripPort_def trim_space_def)
  then show ?thesis by (simp add: split_on_append)
qed

lemma address_chain_forged:
  assumes "address_chain xff peer \<noteq> []"
  obtains pre where "address_chain (forged @ '','' @ xff) peer = pre @ address_chain xff peer"
    | "splitXFF xff = []" "last (address_chain (forged @ '','' @ xff) peer) = stripPort peer"
      "address_chain (forged @ '','' @ xff) peer \<noteq> []" "address_chain xff peer = [stripPort peer]"
proof (cases "splitXFF xff = []")
  case True
  with assms have "address_chain xff peer = [stripPort peer]" "stripPort peer \<noteq> []"
    by (auto simp: address_chain_def Let_def split: if_splits)
  with True show ?thesis using that(2) by (auto simp: address_chain_def splitXFF_Cons Let_def)
next
  case False
  then have "address_chain (forged @ '','' @ xff) peer = splitXFF forged @ address_chain xff peer"
    by (auto simp: address_chain_def splitXFF_Cons Let_def)
  then show ?thesis by (rule that(1))
qed

lemma Resolve_within:
  assumes "0 \<le> hops" "nat hops < length (address_chain xff peer)"
  shows "Resolve xff peer hops = rev (address_chain xff peer) ! nat hops"
proof -
  have "nat (int (length (address_chain xff peer)) - 1 - hops) = length (address_chain xff peer) - Suc (nat hops)"
    using assms by linarith
  with assms show ?thesis by (auto simp: Resolve_def Let_def rev_nth)
qed

text \<open>C11: entries a client adds on the left of \<^verbatim>\<open>X-Forwarded-For\<close> never change the resolved client
  address, as long as the genuine chain has more entries than there are trusted hops.\<close>

theorem forged_xff_ignored:
  assumes "nat hops < length (address_chain xff peer)"
  shows "Resolve (forged @ '','' @ xff) peer hops = Resolve xff peer hops"
proof -
  let ?h = "max hops 0"
  have neg: "Resolve x p hops = Resolve x p ?h" for x p by (simp add: Resolve_def Let_def max_def)
  have h: "0 \<le> ?h" "nat ?h < length (address_chain xff peer)"
    using assms by (auto simp: max_def)
  from assms have "address_chain xff peer \<noteq> []" by auto
  then show ?thesis
  proof (cases rule: address_chain_forged [where forged = forged])
    case (1 pre)
    have "Resolve (forged @ '','' @ xff) peer ?h = rev (pre @ address_chain xff peer) ! nat ?h"
      using Resolve_within [of ?h "forged @ '','' @ xff" peer] 1 h by simp
    also have "\<dots> = rev (address_chain xff peer) ! nat ?h" using h by (simp add: nth_append)
    finally show ?thesis using Resolve_within [OF h] neg by metis
  next
    case 2
    with assms have "nat ?h = 0" by simp
    with 2 show ?thesis
      using Resolve_within [of ?h "forged @ '','' @ xff" peer] Resolve_within [OF h] neg h
      by (simp add: hd_rev flip: hd_conv_nth)
  qed
qed

theorem forged_xff_ignored_witness:
  "Resolve (''6.6.6.6'' @ '','' @ ''9.9.9.9, 10.0.0.1'') ''10.0.0.2:4711'' 1 = Resolve ''9.9.9.9, 10.0.0.1'' ''10.0.0.2:4711'' 1"
proof (rule forged_xff_ignored)
  show "nat 1 < length (address_chain ''9.9.9.9, 10.0.0.1'' ''10.0.0.2:4711'')" by code_simp
qed

text \<open>without trusted hops the client is the peer Envoy observed, whatever
  \<^verbatim>\<open>X-Forwarded-For\<close> says.\<close>

theorem direct_peer_is_client:
  assumes "stripPort peer \<noteq> []" "hops \<le> 0"
  shows "Resolve xff peer hops = stripPort peer"
proof -
  have chain: "address_chain xff peer \<noteq> []" "last (address_chain xff peer) = stripPort peer"
    using assms(1) by (auto simp: address_chain_def Let_def)
  have "Resolve xff peer hops = Resolve xff peer 0" using assms(2) by (simp add: Resolve_def Let_def)
  also have "\<dots> = hd (rev (address_chain xff peer))"
    using Resolve_within [of 0 xff peer] chain(1) by (simp add: hd_conv_nth)
  finally show ?thesis using chain by (simp add: hd_rev)
qed

theorem direct_peer_is_client_witness:
  "Resolve ''1.1.1.1, 2.2.2.2'' ''10.0.0.2:4711'' 0 = ''10.0.0.2''"
proof -
  have "stripPort ''10.0.0.2:4711'' = ''10.0.0.2''" by code_simp
  then show ?thesis using direct_peer_is_client [of "''10.0.0.2:4711''" 0] by simp
qed

end
