(* ===== verification/Request_Context.thy ===== *)
theory Request_Context
  imports Selector "HOL-Library.Multiset"
begin

text \<open>
  The request context the filters of a chain share (\<^verbatim>\<open>internal/engine/context.go\<close>,
  \<^verbatim>\<open>phase.go\<close>), the pool it is recycled through (\<^verbatim>\<open>internal/memory/pool.go\<close>) and the snapshot
  audit mode takes of it (\<^verbatim>\<open>internal/engine/audit.go\<close>). Header edits are kept twice: as the list of
  headers to set and the list to remove, which are sent to Envoy, and as a shadow map, which later
  filters read. The invariant \<open>context_wf\<close> says that the two agree.
\<close>

datatype Phase =
    PhaseRequestHeaders | PhaseRequestBody | PhaseRequestTrailers
  | PhaseResponseHeaders | PhaseResponseBody | PhaseResponseTrailers

record header =
  h_Key :: string
  h_Value :: string
  h_Append :: bool

record audit_hit =
  ah_Index :: nat
  ah_Status :: int
  ah_Failed :: bool

text \<open>\<^verbatim>\<open>HeaderValueOption\<close> of Envoy's protobuf API, with the one append action the engine uses.\<close>

record header_option =
  ho_Key :: string
  ho_RawValue :: string

record RequestContext =
  ctx_Ctx :: "nat option" \<comment> \<open>handle of the stream's \<^verbatim>\<open>context.Context\<close>, None for nil\<close>
  ctx_Phase :: Phase
  ctx_Path :: string
  ctx_Method :: string
  ctx_ClientIP :: string
  ctx_ClientAddr :: addr
  ctx_DestinationAddress :: string
  ctx_DestinationAddr :: addr
  ctx_Host :: string
  ctx_Traffic :: traffic
  ctx_SourceWorkload :: "workload option"
  ctx_DestinationServices :: "string list"
  ctx_RequestEndOfStream :: bool
  ctx_RequestBodySeen :: bool
  ctx_Headers :: "string \<rightharpoonup> string"
  ctx_ResponseHeaders :: "string \<rightharpoonup> string"
  ctx_HeadersToAdd :: "header list"
  ctx_ResponseHeadersToAdd :: "header list"
  ctx_HeadersToRemove :: "string list"
  ctx_ResponseHeadersToRemove :: "string list"
  ctx_Blocked :: bool
  ctx_BlockedBy :: int
  ctx_FilterFailed :: bool
  ctx_Answered :: bool
  ctx_AuditHits :: "audit_hit list"
  ctx_MatchedRoute :: string
  ctx_ResponseStatus :: int
  ctx_ResponseBody :: string
  ctx_UpstreamShadow :: "string \<rightharpoonup> string"
  ctx_DownstreamShadow :: "string \<rightharpoonup> string"
  ctx_RequestBody :: "string option"
  ctx_ResponseBodyBytes :: "string option"
  ctx_RequestTrailersToAdd :: "header list"
  ctx_ResponseTrailersToAdd :: "header list"
  ctx_RequestTrailersToRemove :: "string list"
  ctx_ResponseTrailersToRemove :: "string list"
  ctx_RequestBodyRequired :: bool
  ctx_ResponseBodyRequired :: bool
  ctx_RequestTrailersRequired :: bool
  ctx_ResponseTrailersRequired :: bool
  ctx_RequestBodyModified :: bool
  ctx_ResponseBodyModified :: bool
  ctx_RequestTrailersModified :: bool
  ctx_ResponseTrailersModified :: bool
  ctx_SetHeaderOptions :: "header_option list"

text \<open>The context a pool allocates: empty maps and slices, \<^verbatim>\<open>BlockedBy\<close> at -1, zero elsewhere.\<close>

definition new_context :: RequestContext where
  "new_context = \<lparr>
     ctx_Ctx = None, ctx_Phase = PhaseRequestHeaders, ctx_Path = [], ctx_Method = [],
     ctx_ClientIP = [], ctx_ClientAddr = AddrInvalid, ctx_DestinationAddress = [],
     ctx_DestinationAddr = AddrInvalid, ctx_Host = [], ctx_Traffic = TrafficAny,
     ctx_SourceWorkload = None, ctx_DestinationServices = [], ctx_RequestEndOfStream = False,
     ctx_RequestBodySeen = False, ctx_Headers = Map.empty, ctx_ResponseHeaders = Map.empty,
     ctx_HeadersToAdd = [], ctx_ResponseHeadersToAdd = [], ctx_HeadersToRemove = [],
     ctx_ResponseHeadersToRemove = [], ctx_Blocked = False, ctx_BlockedBy = -1,
     ctx_FilterFailed = False, ctx_Answered = False, ctx_AuditHits = [], ctx_MatchedRoute = [],
     ctx_ResponseStatus = 0, ctx_ResponseBody = [], ctx_UpstreamShadow = Map.empty,
     ctx_DownstreamShadow = Map.empty, ctx_RequestBody = None, ctx_ResponseBodyBytes = None,
     ctx_RequestTrailersToAdd = [], ctx_ResponseTrailersToAdd = [],
     ctx_RequestTrailersToRemove = [], ctx_ResponseTrailersToRemove = [],
     ctx_RequestBodyRequired = False, ctx_ResponseBodyRequired = False,
     ctx_RequestTrailersRequired = False, ctx_ResponseTrailersRequired = False,
     ctx_RequestBodyModified = False, ctx_ResponseBodyModified = False,
     ctx_RequestTrailersModified = False, ctx_ResponseTrailersModified = False,
     ctx_SetHeaderOptions = []\<rparr>"

lemma new_context_fields [simp]:
  "\<not> ctx_Blocked new_context" "ctx_BlockedBy new_context = -1" "\<not> ctx_FilterFailed new_context"
  "\<not> ctx_Answered new_context" "ctx_AuditHits new_context = []"
  by (simp_all add: new_context_def)

definition Reset :: "RequestContext \<Rightarrow> RequestContext" where
  "Reset ctx = ctx\<lparr>
     ctx_Ctx := None, ctx_Phase := PhaseRequestHeaders, ctx_RequestBodySeen := False,
     ctx_Path := [], ctx_Method := [], ctx_ClientIP := [], ctx_ClientAddr := AddrInvalid,
     ctx_DestinationAddress := [], ctx_DestinationAddr := AddrInvalid, ctx_Host := [],
     ctx_Traffic := TrafficAny, ctx_SourceWorkload := None,
     ctx_DestinationServices := take 0 (ctx_DestinationServices ctx),
     ctx_RequestEndOfStream := False, ctx_Headers := Map.empty, ctx_ResponseHeaders := Map.empty,
     ctx_HeadersToAdd := take 0 (ctx_HeadersToAdd ctx),
     ctx_ResponseHeadersToAdd := take 0 (ctx_ResponseHeadersToAdd ctx),
     ctx_HeadersToRemove := take 0 (ctx_HeadersToRemove ctx),
     ctx_ResponseHeadersToRemove := take 0 (ctx_ResponseHeadersToRemove ctx),
     ctx_UpstreamShadow := Map.empty, ctx_DownstreamShadow := Map.empty, ctx_Blocked := False,
     ctx_BlockedBy := -1, ctx_FilterFailed := False, ctx_Answered := False,
     ctx_AuditHits := take 0 (ctx_AuditHits ctx), ctx_MatchedRoute := [],
     ctx_ResponseStatus := 0, ctx_ResponseBody := [],
     ctx_SetHeaderOptions := take 0 (ctx_SetHeaderOptions ctx),
     ctx_RequestBody := None, ctx_ResponseBodyBytes := None,
     ctx_RequestTrailersToAdd := take 0 (ctx_RequestTrailersToAdd ctx),
     ctx_ResponseTrailersToAdd := take 0 (ctx_ResponseTrailersToAdd ctx),
     ctx_RequestTrailersToRemove := take 0 (ctx_RequestTrailersToRemove ctx),
     ctx_ResponseTrailersToRemove := take 0 (ctx_ResponseTrailersToRemove ctx),
     ctx_RequestBodyRequired := False, ctx_ResponseBodyRequired := False,
     ctx_RequestTrailersRequired := False, ctx_ResponseTrailersRequired := False,
     ctx_RequestBodyModified := False, ctx_ResponseBodyModified := False,
     ctx_RequestTrailersModified := False, ctx_ResponseTrailersModified := False\<rparr>"

definition Block :: "int \<Rightarrow> string \<Rightarrow> RequestContext \<Rightarrow> RequestContext" where
  "Block status body ctx =
     ctx\<lparr>ctx_Blocked := True, ctx_ResponseStatus := status, ctx_ResponseBody := body\<rparr>"

definition Answer :: "int \<Rightarrow> string \<Rightarrow> RequestContext \<Rightarrow> RequestContext" where
  "Answer status body ctx = (Block status body ctx)\<lparr>ctx_Answered := True\<rparr>"

subsection \<open>Slices of headers and keys\<close>

text \<open>The position of the first element with a property, as the loops over the slices find it.\<close>

fun index_of :: "('a \<Rightarrow> bool) \<Rightarrow> 'a list \<Rightarrow> nat option" where
  "index_of P [] = None"
| "index_of P (x # xs) = (if P x then Some 0 else map_option Suc (index_of P xs))"

text \<open>\<^verbatim>\<open>s[i] = s[len(s)-1]; s = s[:len(s)-1]\<close>\<close>

definition swap_remove :: "nat \<Rightarrow> 'a list \<Rightarrow> 'a list" where
  "swap_remove i xs = butlast (xs[i := last xs])"

definition upsertHeader :: "header list \<Rightarrow> string \<Rightarrow> string \<Rightarrow> header list" where
  "upsertHeader hs key v =
     (case index_of (\<lambda>h. h_Key h = key) hs of
        Some i \<Rightarrow> hs[i := (hs ! i)\<lparr>h_Value := v\<rparr>]
      | None \<Rightarrow> hs @ [\<lparr>h_Key = key, h_Value = v, h_Append = False\<rparr>])"

definition removeHeader :: "header list \<Rightarrow> string \<Rightarrow> header list" where
  "removeHeader hs key =
     (case index_of (\<lambda>h. h_Key h = key) hs of Some i \<Rightarrow> swap_remove i hs | None \<Rightarrow> hs)"

definition containsKey :: "string list \<Rightarrow> string \<Rightarrow> bool" where
  "containsKey ks key = list_ex (\<lambda>k. k = key) ks"

definition appendKey :: "string list \<Rightarrow> string \<Rightarrow> string list" where
  "appendKey ks key = (if containsKey ks key then ks else ks @ [key])"

definition removeKey :: "string list \<Rightarrow> string \<Rightarrow> string list" where
  "removeKey ks key =
     (case index_of (\<lambda>k. k = key) ks of Some i \<Rightarrow> swap_remove i ks | None \<Rightarrow> ks)"

subsection \<open>Reading and editing headers\<close>

text \<open>Indexing a Go map with a missing key gives the zero value.\<close>

definition get_or_empty :: "(string \<rightharpoonup> string) \<Rightarrow> string \<Rightarrow> string" where
  "get_or_empty m k = (case m k of Some v \<Rightarrow> v | None \<Rightarrow> [])"

definition GetHeader :: "RequestContext \<Rightarrow> string \<Rightarrow> string" where
  "GetHeader ctx key =
     (case ctx_UpstreamShadow ctx key of
        Some v \<Rightarrow> v
      | None \<Rightarrow> if containsKey (ctx_HeadersToRemove ctx) key then []
                else get_or_empty (ctx_Headers ctx) key)"

definition GetDownstreamHeader :: "RequestContext \<Rightarrow> string \<Rightarrow> string" where
  "GetDownstreamHeader ctx key = get_or_empty (ctx_DownstreamShadow ctx) (to_lower key)"

definition GetResponseHeader :: "RequestContext \<Rightarrow> string \<Rightarrow> string" where
  "GetResponseHeader ctx key0 =
     (let key = to_lower key0 in
      case ctx_DownstreamShadow ctx key of
        Some v \<Rightarrow> v
      | None \<Rightarrow> if containsKey (ctx_ResponseHeadersToRemove ctx) key then []
                else get_or_empty (ctx_ResponseHeaders ctx) key)"

definition SetHeaderUpstream :: "string \<Rightarrow> string \<Rightarrow> RequestContext \<Rightarrow> RequestContext" where
  "SetHeaderUpstream key0 v ctx =
     (let key = to_lower key0 in
      ctx\<lparr>ctx_UpstreamShadow := (ctx_UpstreamShadow ctx)(key \<mapsto> v),
          ctx_HeadersToRemove := removeKey (ctx_HeadersToRemove ctx) key,
          ctx_HeadersToAdd := upsertHeader (ctx_HeadersToAdd ctx) key v\<rparr>)"

definition SetPath :: "string \<Rightarrow> RequestContext \<Rightarrow> RequestContext" where
  "SetPath path ctx = SetHeaderUpstream '':path'' path (ctx\<lparr>ctx_Path := path\<rparr>)"

definition RemoveHeaderUpstream :: "string \<Rightarrow> RequestContext \<Rightarrow> RequestContext" where
  "RemoveHeaderUpstream key0 ctx =
     (let key = to_lower key0 in
      ctx\<lparr>ctx_UpstreamShadow := (ctx_UpstreamShadow ctx)(key := None),
          ctx_HeadersToAdd := removeHeader (ctx_HeadersToAdd ctx) key,
          ctx_HeadersToRemove := appendKey (ctx_HeadersToRemove ctx) key\<rparr>)"

definition SetHeaderDownstream :: "string \<Rightarrow> string \<Rightarrow> RequestContext \<Rightarrow> RequestContext" where
  "SetHeaderDownstream key0 v ctx =
     (let key = to_lower key0 in
      ctx\<lparr>ctx_DownstreamShadow := (ctx_DownstreamShadow ctx)(key \<mapsto> v),
          ctx_ResponseHeadersToRemove := removeKey (ctx_ResponseHeadersToRemove ctx) key,
          ctx_ResponseHeadersToAdd := upsertHeader (ctx_ResponseHeadersToAdd ctx) key v\<rparr>)"

definition RemoveHeaderDownstream :: "string \<Rightarrow> RequestContext \<Rightarrow> RequestContext" where
  "RemoveHeaderDownstream key0 ctx =
     (let key = to_lower key0 in
      ctx\<lparr>ctx_DownstreamShadow := (ctx_DownstreamShadow ctx)(key := None),
          ctx_ResponseHeadersToAdd := removeHeader (ctx_ResponseHeadersToAdd ctx) key,
          ctx_ResponseHeadersToRemove := appendKey (ctx_ResponseHeadersToRemove ctx) key\<rparr>)"

definition SetTrailerUpstream :: "string \<Rightarrow> string \<Rightarrow> RequestContext \<Rightarrow> RequestContext" where
  "SetTrailerUpstream key0 v ctx =
     (let key = to_lower key0 in
      ctx\<lparr>ctx_RequestTrailersToRemove := removeKey (ctx_RequestTrailersToRemove ctx) key,
          ctx_RequestTrailersToAdd := upsertHeader (ctx_RequestTrailersToAdd ctx) key v,
          ctx_RequestTrailersModified := True\<rparr>)"

definition RemoveHeaderUpstreamTrailer :: "string \<Rightarrow> RequestContext \<Rightarrow> RequestContext" where
  "RemoveHeaderUpstreamTrailer key0 ctx =
     (let key = to_lower key0 in
      ctx\<lparr>ctx_RequestTrailersToAdd := removeHeader (ctx_RequestTrailersToAdd ctx) key,
          ctx_RequestTrailersToRemove := appendKey (ctx_RequestTrailersToRemove ctx) key,
          ctx_RequestTrailersModified := True\<rparr>)"

definition SetTrailerDownstream :: "string \<Rightarrow> string \<Rightarrow> RequestContext \<Rightarrow> RequestContext" where
  "SetTrailerDownstream key0 v ctx =
     (let key = to_lower key0 in
      ctx\<lparr>ctx_ResponseTrailersToRemove := removeKey (ctx_ResponseTrailersToRemove ctx) key,
          ctx_ResponseTrailersToAdd := upsertHeader (ctx_ResponseTrailersToAdd ctx) key v,
          ctx_ResponseTrailersModified := True\<rparr>)"

definition RemoveHeaderDownstreamTrailer :: "string \<Rightarrow> RequestContext \<Rightarrow> RequestContext" where
  "RemoveHeaderDownstreamTrailer key0 ctx =
     (let key = to_lower key0 in
      ctx\<lparr>ctx_ResponseTrailersToAdd := removeHeader (ctx_ResponseTrailersToAdd ctx) key,
          ctx_ResponseTrailersToRemove := appendKey (ctx_ResponseTrailersToRemove ctx) key,
          ctx_ResponseTrailersModified := True\<rparr>)"

subsection \<open>The snapshot of audit mode\<close>

record mutations =
  mut_path :: string
  mut_headersToAdd :: "header list"
  mut_headersToRemove :: "string list"
  mut_upstreamShadow :: "string \<rightharpoonup> string"
  mut_responseHeadersToAdd :: "header list"
  mut_responseHeadersToRemove :: "string list"
  mut_downstreamShadow :: "string \<rightharpoonup> string"
  mut_setHeaderOptions :: nat

definition saveMutations :: "RequestContext \<Rightarrow> mutations" where
  "saveMutations ctx = \<lparr>mut_path = ctx_Path ctx, mut_headersToAdd = ctx_HeadersToAdd ctx,
     mut_headersToRemove = ctx_HeadersToRemove ctx, mut_upstreamShadow = ctx_UpstreamShadow ctx,
     mut_responseHeadersToAdd = ctx_ResponseHeadersToAdd ctx,
     mut_responseHeadersToRemove = ctx_ResponseHeadersToRemove ctx,
     mut_downstreamShadow = ctx_DownstreamShadow ctx,
     mut_setHeaderOptions = length (ctx_SetHeaderOptions ctx)\<rparr>"

definition restoreMutations :: "mutations \<Rightarrow> RequestContext \<Rightarrow> RequestContext" where
  "restoreMutations m ctx = ctx\<lparr>ctx_Path := mut_path m,
     ctx_HeadersToAdd := mut_headersToAdd m, ctx_HeadersToRemove := mut_headersToRemove m,
     ctx_UpstreamShadow := mut_upstreamShadow m,
     ctx_ResponseHeadersToAdd := mut_responseHeadersToAdd m,
     ctx_ResponseHeadersToRemove := mut_responseHeadersToRemove m,
     ctx_DownstreamShadow := mut_downstreamShadow m,
     ctx_SetHeaderOptions := take (mut_setHeaderOptions m) (ctx_SetHeaderOptions ctx)\<rparr>"

definition unblock :: "RequestContext \<Rightarrow> RequestContext" where
  "unblock ctx = ctx\<lparr>ctx_Blocked := False, ctx_Answered := False, ctx_ResponseStatus := 0,
     ctx_ResponseBody := []\<rparr>"

subsection \<open>Slice operations as multiset operations\<close>

lemma index_of_None: "index_of P xs = None \<longleftrightarrow> (\<forall>x \<in> set xs. \<not> P x)"
  by (induction xs) auto

lemma index_of_Some:
  "index_of P xs = Some i \<Longrightarrow> i < length xs \<and> P (xs ! i) \<and> (\<forall>x \<in> set (take i xs). \<not> P x)"
  by (induction xs arbitrary: i) (auto split: if_splits)

lemma swap_remove_mset:
  assumes "i < length xs"
  shows "mset (swap_remove i xs) = mset (take i xs @ drop (Suc i) xs)"
proof (cases "Suc i = length xs")
  case True
  with assms have "last xs = xs ! i" by (metis diff_Suc_1 last_conv_nth length_0_conv nat.distinct(1))
  with True assms show ?thesis
    by (simp add: swap_remove_def butlast_conv_take flip: True)
next
  case False
  define ys where "ys = drop (Suc i) xs"
  from False assms have ys: "ys \<noteq> []" by (simp add: ys_def)
  have xs: "xs = take i xs @ xs ! i # ys" using assms by (simp add: ys_def id_take_nth_drop)
  have "xs[i := last xs] = take i xs @ last ys # ys"
    using xs ys assms by (metis last_ConsR last_appendR length_take list.distinct(1) list_update_length min.absorb4)
  then have "swap_remove i xs = take i xs @ last ys # butlast ys"
    using ys by (simp add: swap_remove_def butlast_append)
  moreover have "mset (last ys # butlast ys) = mset ys"
    by (subst (3) append_butlast_last_id [OF ys, symmetric]) simp
  ultimately show ?thesis by (simp add: ys_def)
qed

lemma removeKey_mset: "mset (removeKey ks k) = mset (remove1 k ks)"
proof (cases "index_of (\<lambda>x. x = k) ks")
  case None
  moreover from None have "k \<notin> set ks" by (auto simp: index_of_None)
  ultimately show ?thesis by (simp add: removeKey_def remove1_idem)
next
  case (Some i)
  from index_of_Some [OF Some] have i: "i < length ks" "ks ! i = k" "k \<notin> set (take i ks)" by auto
  have "remove1 k ks = take i ks @ drop (Suc i) ks"
    using i by (metis id_take_nth_drop remove1.simps(2) remove1_append)
  with Some i show ?thesis by (simp add: removeKey_def swap_remove_mset)
qed

lemma removeKey_set: "distinct ks \<Longrightarrow> set (removeKey ks k) = set ks - {k}"
  using removeKey_mset [of ks k] by (metis set_mset_mset set_remove1_eq)

lemma removeKey_distinct: "distinct ks \<Longrightarrow> distinct (removeKey ks k)"
  using removeKey_mset [of ks k] by (metis distinct_remove1 mset_eq_imp_distinct_iff)

lemma removeKey_other: "q \<noteq> k \<Longrightarrow> q \<in> set (removeKey ks k) \<longleftrightarrow> q \<in> set ks"
  using removeKey_mset [of ks k] by (metis in_set_remove1 set_mset_mset)

lemma containsKey_iff [simp]: "containsKey ks k \<longleftrightarrow> k \<in> set ks"
  by (auto simp: containsKey_def list_ex_iff)

lemma appendKey_set [simp]: "set (appendKey ks k) = insert k (set ks)"
  by (auto simp: appendKey_def)

lemma appendKey_distinct: "distinct ks \<Longrightarrow> distinct (appendKey ks k)"
  by (simp add: appendKey_def)

definition header_map :: "header list \<Rightarrow> (string \<rightharpoonup> string)" where
  "header_map hs = map_of (map (\<lambda>h. (h_Key h, h_Value h)) hs)"

lemma upsertHeader_keys:
  "map h_Key (upsertHeader hs k v) = (if k \<in> h_Key ` set hs then map h_Key hs else map h_Key hs @ [k])"
proof (cases "index_of (\<lambda>h. h_Key h = k) hs")
  case None
  moreover from None have "k \<notin> h_Key ` set hs" by (auto simp: index_of_None)
  ultimately show ?thesis by (simp add: upsertHeader_def)
next
  case (Some i)
  from index_of_Some [OF Some] have i: "i < length hs" "h_Key (hs ! i) = k" by auto
  then have "k \<in> h_Key ` set hs" by (metis image_eqI nth_mem)
  with Some i show ?thesis by (simp add: upsertHeader_def map_update list_update_same_conv)
qed

lemma upsertHeader_map: "header_map (upsertHeader hs k v) = (header_map hs)(k \<mapsto> v)"
proof (induction hs)
  case Nil
  then show ?case by (simp add: upsertHeader_def header_map_def)
next
  case (Cons h hs)
  have "upsertHeader (h # hs) k v = (if h_Key h = k then h\<lparr>h_Value := v\<rparr> # hs else h # upsertHeader hs k v)"
    by (auto simp: upsertHeader_def split: option.splits)
  with Cons show ?case by (auto simp: header_map_def)
qed

lemma removeHeader_mset:
  assumes "distinct (map h_Key hs)"
  shows "mset (removeHeader hs k) = mset (filter (\<lambda>h. h_Key h \<noteq> k) hs)"
proof (cases "index_of (\<lambda>h. h_Key h = k) hs")
  case None
  moreover from None have "\<forall>h \<in> set hs. h_Key h \<noteq> k" by (simp add: index_of_None)
  ultimately show ?thesis by (simp add: removeHeader_def filter_id_conv)
next
  case (Some i)
  from index_of_Some [OF Some] have i: "i < length hs" "h_Key (hs ! i) = k" "\<forall>x \<in> set (take i hs). h_Key x \<noteq> k"
    by auto
  have hs: "hs = take i hs @ hs ! i # drop (Suc i) hs" using i(1) by (rule id_take_nth_drop)
  with assms have "h_Key (hs ! i) \<notin> h_Key ` set (drop (Suc i) hs)"
    by (metis distinct.simps(2) distinct_append list.simps(9) map_append set_map)
  then have rest: "\<forall>x \<in> set (drop (Suc i) hs). h_Key x \<noteq> k" using i(2) by (auto simp: image_iff)
  have "filter (\<lambda>h. h_Key h \<noteq> k) hs = take i hs @ drop (Suc i) hs"
    by (subst hs) (use i rest in \<open>simp add: filter_id_conv\<close>)
  with Some i show ?thesis by (simp add: removeHeader_def swap_remove_mset)
qed

lemma removeHeader_props:
  assumes "distinct (map h_Key hs)"
  shows "set (removeHeader hs k) = {h \<in> set hs. h_Key h \<noteq> k}" and "distinct (map h_Key (removeHeader hs k))"
proof -
  let ?f = "filter (\<lambda>h. h_Key h \<noteq> k) hs"
  have m: "mset (removeHeader hs k) = mset ?f" using assms by (rule removeHeader_mset)
  from mset_eq_setD [OF m] show "set (removeHeader hs k) = {h \<in> set hs. h_Key h \<noteq> k}" by simp
  have "mset (map h_Key (removeHeader hs k)) = mset (map h_Key ?f)" using m by simp
  from mset_eq_imp_distinct_iff [OF this] distinct_map_filter [OF assms, of "\<lambda>h. h_Key h \<noteq> k"]
  show "distinct (map h_Key (removeHeader hs k))" by simp
qed

lemma removeHeader_map:
  assumes "distinct (map h_Key hs)"
  shows "header_map (removeHeader hs k) = (header_map hs)(k := None)"
proof -
  let ?p = "\<lambda>h. (h_Key h, h_Value h)"
  have d: "distinct (map fst (map ?p (removeHeader hs k)))" "distinct (map fst (map ?p (filter (\<lambda>h. h_Key h \<noteq> k) hs)))"
    using removeHeader_props(2) [OF assms] assms by (simp_all add: comp_def distinct_map_filter)
  have "header_map (removeHeader hs k) = map_of (map ?p (filter (\<lambda>h. h_Key h \<noteq> k) hs))"
    unfolding header_map_def using map_of_inject_set [OF d] removeHeader_props(1) [OF assms, of k] by simp
  also have "\<dots> = (header_map hs)(k := None)"
    by (induction hs) (auto simp: header_map_def fun_eq_iff)
  finally show ?thesis .
qed

subsection \<open>The invariant\<close>

text \<open>
  One side of the edits: \<open>sh\<close> is the shadow map, \<open>add\<close> the headers to set, \<open>rem\<close> the keys to
  remove. Keys are lower-case and unique, nothing is both set and removed, and the shadow is the
  map of the headers to set.
\<close>

definition edits_wf :: "(string \<rightharpoonup> string) \<Rightarrow> header list \<Rightarrow> string list \<Rightarrow> bool" where
  "edits_wf sh add rem \<longleftrightarrow>
     distinct (map h_Key add) \<and> distinct rem \<and> sh = header_map add \<and>
     h_Key ` set add \<inter> set rem = {} \<and> (\<forall>k \<in> h_Key ` set add \<union> set rem. to_lower k = k)"

lemma edits_wf_Nil [simp]: "edits_wf Map.empty [] []"
  by (simp add: edits_wf_def header_map_def)

lemma edits_wf_set:
  assumes "edits_wf sh add rem" "to_lower k = k"
  shows "edits_wf (sh(k \<mapsto> v)) (upsertHeader add k v) (removeKey rem k)"
proof -
  have keys: "h_Key ` set (upsertHeader add k v) = insert k (h_Key ` set add)"
    using upsertHeader_keys [of add k v] by (metis (no_types, lifting) insert_absorb list.set_map
        list.simps(15) rotate1.simps(2) set_rotate1)
  from assms have d: "distinct (map h_Key add)" "distinct rem" by (simp_all add: edits_wf_def)
  have "distinct (map h_Key (upsertHeader add k v))"
    using d(1) by (auto simp: upsertHeader_keys)
  with assms keys show ?thesis
    by (auto simp: edits_wf_def upsertHeader_map removeKey_set [OF d(2)] removeKey_distinct)
qed

lemma edits_wf_remove:
  assumes "edits_wf sh add rem" "to_lower k = k"
  shows "edits_wf (sh(k := None)) (removeHeader add k) (appendKey rem k)"
proof -
  from assms have d: "distinct (map h_Key add)" by (simp add: edits_wf_def)
  from assms removeHeader_props [OF d] removeHeader_map [OF d] show ?thesis
    by (auto simp: edits_wf_def appendKey_distinct)
qed

definition context_wf :: "RequestContext \<Rightarrow> bool" where
  "context_wf ctx \<longleftrightarrow>
     edits_wf (ctx_UpstreamShadow ctx) (ctx_HeadersToAdd ctx) (ctx_HeadersToRemove ctx) \<and>
     edits_wf (ctx_DownstreamShadow ctx) (ctx_ResponseHeadersToAdd ctx) (ctx_ResponseHeadersToRemove ctx) \<and>
     edits_wf (header_map (ctx_RequestTrailersToAdd ctx)) (ctx_RequestTrailersToAdd ctx)
       (ctx_RequestTrailersToRemove ctx) \<and>
     edits_wf (header_map (ctx_ResponseTrailersToAdd ctx)) (ctx_ResponseTrailersToAdd ctx)
       (ctx_ResponseTrailersToRemove ctx)"

lemma edits_wf_distinct: "edits_wf sh add rem \<Longrightarrow> distinct (map h_Key add)"
  by (simp add: edits_wf_def)

lemma context_wf_new [simp]: "context_wf new_context"
  using edits_wf_Nil by (simp add: context_wf_def new_context_def header_map_def)

lemma context_wf_set_upstream [simp]: "context_wf ctx \<Longrightarrow> context_wf (SetHeaderUpstream k v ctx)"
  and context_wf_remove_upstream [simp]: "context_wf ctx \<Longrightarrow> context_wf (RemoveHeaderUpstream k ctx)"
  and context_wf_set_downstream [simp]: "context_wf ctx \<Longrightarrow> context_wf (SetHeaderDownstream k v ctx)"
  and context_wf_remove_downstream [simp]: "context_wf ctx \<Longrightarrow> context_wf (RemoveHeaderDownstream k ctx)"
  by (simp_all add: context_wf_def SetHeaderUpstream_def RemoveHeaderUpstream_def
      SetHeaderDownstream_def RemoveHeaderDownstream_def Let_def edits_wf_set edits_wf_remove)

lemma edits_wf_trailer:
  assumes "edits_wf (header_map add) add rem" "to_lower k = k"
  shows "edits_wf (header_map (upsertHeader add k v)) (upsertHeader add k v) (removeKey rem k)"
    and "edits_wf (header_map (removeHeader add k)) (removeHeader add k) (appendKey rem k)"
  using edits_wf_set [OF assms] edits_wf_remove [OF assms] edits_wf_distinct [OF assms(1)]
  by (simp_all add: upsertHeader_map removeHeader_map)

lemma context_wf_set_trailer_up [simp]: "context_wf ctx \<Longrightarrow> context_wf (SetTrailerUpstream k v ctx)"
  and context_wf_remove_trailer_up [simp]: "context_wf ctx \<Longrightarrow> context_wf (RemoveHeaderUpstreamTrailer k ctx)"
  and context_wf_set_trailer_down [simp]: "context_wf ctx \<Longrightarrow> context_wf (SetTrailerDownstream k v ctx)"
  and context_wf_remove_trailer_down [simp]: "context_wf ctx \<Longrightarrow> context_wf (RemoveHeaderDownstreamTrailer k ctx)"
  by (simp_all add: context_wf_def SetTrailerUpstream_def RemoveHeaderUpstreamTrailer_def
      SetTrailerDownstream_def RemoveHeaderDownstreamTrailer_def Let_def edits_wf_trailer)

lemma context_wf_SetPath [simp]: "context_wf ctx \<Longrightarrow> context_wf (SetPath p ctx)"
  unfolding SetPath_def by (rule context_wf_set_upstream) (simp add: context_wf_def)

lemma context_wf_Block [simp]: "context_wf (Block st b ctx) = context_wf ctx"
  and context_wf_Answer [simp]: "context_wf (Answer st b ctx) = context_wf ctx"
  and context_wf_unblock [simp]: "context_wf (unblock ctx) = context_wf ctx"
  by (simp_all add: Block_def Answer_def unblock_def context_wf_def)

lemma context_wf_restore: "context_wf c \<Longrightarrow> context_wf d \<Longrightarrow> context_wf (restoreMutations (saveMutations c) d)"
  by (simp add: restoreMutations_def saveMutations_def context_wf_def)

subsection \<open>Header stores\<close>

text \<open>
  What a filter sees of an editable header map: a value that was set is read back, a removed
  header reads as empty, other headers are untouched. Both the upstream request headers and the
  downstream response headers are such stores.
\<close>

locale header_store =
  fixes get :: "RequestContext \<Rightarrow> string \<Rightarrow> string"
    and put :: "string \<Rightarrow> string \<Rightarrow> RequestContext \<Rightarrow> RequestContext"
    and del :: "string \<Rightarrow> RequestContext \<Rightarrow> RequestContext"
  assumes get_put: "to_lower q = q \<Longrightarrow> get (put k v c) q = (if q = to_lower k then v else get c q)"
    and get_del: "to_lower q = q \<Longrightarrow> get (del k c) q = (if q = to_lower k then [] else get c q)"
begin

lemma get_puts:
  assumes "to_lower q = q"
  shows "get (fold (\<lambda>(k, v). put k v) kvs c) q =
    (case map_of (rev (map (\<lambda>(k, v). (to_lower k, v)) kvs)) q of Some v \<Rightarrow> v | None \<Rightarrow> get c q)"
  by (induction kvs arbitrary: c) (use assms in \<open>auto simp: get_put map_add_def split: option.splits\<close>)

lemma get_dels:
  assumes "to_lower q = q"
  shows "get (fold del ks c) q = (if q \<in> to_lower ` set ks then [] else get c q)"
  by (induction ks arbitrary: c) (use assms in \<open>auto simp: get_del\<close>)

lemma put_then_del: "to_lower q = q \<Longrightarrow> get (del k (put k v c)) q = get (del k c) q"
  by (simp add: get_put get_del)

end

interpretation upstream: header_store GetHeader SetHeaderUpstream RemoveHeaderUpstream
  by unfold_locales (auto simp: GetHeader_def SetHeaderUpstream_def RemoveHeaderUpstream_def Let_def
      removeKey_other split: option.splits)

interpretation downstream: header_store GetResponseHeader SetHeaderDownstream RemoveHeaderDownstream
  by unfold_locales (auto simp: GetResponseHeader_def SetHeaderDownstream_def
      RemoveHeaderDownstream_def Let_def removeKey_other split: option.splits)

text \<open>The effective header maps: what the edits make of the original headers.\<close>

definition upstream_view :: "RequestContext \<Rightarrow> (string \<rightharpoonup> string)" where
  "upstream_view ctx k =
     (case ctx_UpstreamShadow ctx k of
        Some v \<Rightarrow> Some v
      | None \<Rightarrow> if k \<in> set (ctx_HeadersToRemove ctx) then None else ctx_Headers ctx k)"

definition downstream_view :: "RequestContext \<Rightarrow> (string \<rightharpoonup> string)" where
  "downstream_view ctx k =
     (case ctx_DownstreamShadow ctx k of
        Some v \<Rightarrow> Some v
      | None \<Rightarrow> if k \<in> set (ctx_ResponseHeadersToRemove ctx) then None else ctx_ResponseHeaders ctx k)"

lemma GetHeader_view: "GetHeader ctx k = get_or_empty (upstream_view ctx) k"
  by (simp add: GetHeader_def upstream_view_def get_or_empty_def split: option.split)

lemma GetResponseHeader_view: "GetResponseHeader ctx k = get_or_empty (downstream_view ctx) (to_lower k)"
  by (simp add: GetResponseHeader_def downstream_view_def get_or_empty_def split: option.split)

subsection \<open>Recycling\<close>

lemma Reset_pristine_eq: "Reset ctx = new_context"
  by (simp add: Reset_def new_context_def)

text \<open>
  The pool keeps the contexts that were released. \<^verbatim>\<open>Acquire\<close> takes one of them, or allocates;
  \<^verbatim>\<open>Release\<close> resets and returns one; the garbage collector may drop any.
\<close>

definition pool_Release :: "RequestContext \<Rightarrow> RequestContext multiset \<Rightarrow> RequestContext multiset" where
  "pool_Release ctx pool = add_mset (Reset ctx) pool"

inductive pool_Acquire ::
  "RequestContext multiset \<Rightarrow> RequestContext \<Rightarrow> RequestContext multiset \<Rightarrow> bool" where
  reuse: "pool_Acquire (add_mset ctx pool) ctx pool"
| alloc: "pool_Acquire pool new_context pool"

inductive pool_reachable :: "RequestContext multiset \<Rightarrow> bool" where
  empty: "pool_reachable {#}"
| release: "pool_reachable pool \<Longrightarrow> pool_reachable (pool_Release ctx pool)"
| acquire: "pool_reachable pool \<Longrightarrow> pool_Acquire pool ctx pool' \<Longrightarrow> pool_reachable pool'"
| collect: "pool_reachable (add_mset ctx pool) \<Longrightarrow> pool_reachable pool"

inductive_cases pool_AcquireE: "pool_Acquire pool ctx pool'"

lemma pool_reachable_pristine: "pool_reachable pool \<Longrightarrow> c \<in># pool \<Longrightarrow> c = new_context"
proof (induction arbitrary: c rule: pool_reachable.induct)
  case (release pool ctx)
  then show ?case by (auto simp: pool_Release_def Reset_def new_context_def)
next
  case (acquire pool ctx pool')
  from acquire.hyps(2) acquire.prems acquire.IH show ?case by (elim pool_AcquireE) auto
qed auto

text \<open>C19: whatever was released into the pool before, acquiring yields the context of a first
  use.\<close>

theorem Acquire_pristine:
  assumes "pool_reachable pool" "pool_Acquire pool ctx pool'"
  shows "ctx = new_context"
  using assms(2) pool_reachable_pristine [OF assms(1), of ctx] by (cases rule: pool_Acquire.cases) auto

theorem Acquire_pristine_witness:
  "pool_Acquire (pool_Release (Block 403 ''no'' new_context) {#}) (Reset (Block 403 ''no'' new_context)) {#} \<and>
   Reset (Block 403 ''no'' new_context) = new_context"
proof -
  have "pool_reachable (pool_Release (Block 403 ''no'' new_context) {#})"
    by (rule pool_reachable.release [OF pool_reachable.empty])
  moreover have acq: "pool_Acquire (pool_Release (Block 403 ''no'' new_context) {#})
      (Reset (Block 403 ''no'' new_context)) {#}"
    unfolding pool_Release_def by (rule pool_Acquire.reuse)
  ultimately show ?thesis using Acquire_pristine by blast
qed

text \<open>C25: every operation of the context keeps the edits consistent: unique lower-case keys, no
  header both set and removed, and a shadow map that equals the headers to be set.\<close>

theorem context_operations_keep_wf:
  assumes "context_wf ctx"
  shows "context_wf (SetHeaderUpstream k v ctx) \<and> context_wf (RemoveHeaderUpstream k ctx) \<and>
    context_wf (SetHeaderDownstream k v ctx) \<and> context_wf (RemoveHeaderDownstream k ctx) \<and>
    context_wf (SetTrailerUpstream k v ctx) \<and> context_wf (RemoveHeaderUpstreamTrailer k ctx) \<and>
    context_wf (SetTrailerDownstream k v ctx) \<and> context_wf (RemoveHeaderDownstreamTrailer k ctx) \<and>
    context_wf (SetPath v ctx) \<and> context_wf (Block st v ctx) \<and> context_wf (Answer st v ctx) \<and>
    context_wf (Reset ctx)"
  using assms by (simp add: Reset_pristine_eq)

theorem context_operations_keep_wf_witness:
  "context_wf (RemoveHeaderUpstream ''X-A'' (SetHeaderUpstream ''X-A'' ''1'' new_context))"
  using context_operations_keep_wf [OF context_wf_set_upstream [OF context_wf_new], where k = "''X-A''"] by simp

text \<open>C24: what filters read is what was written: a header set on either side reads back, a removed
  one reads as empty, every other header is unchanged, and both readers see through letter case of
  the name that was written.\<close>

theorem header_edits_read_back:
  assumes "to_lower q = q"
  shows "GetHeader (SetHeaderUpstream k v ctx) q = (if q = to_lower k then v else GetHeader ctx q) \<and>
    GetHeader (RemoveHeaderUpstream k ctx) q = (if q = to_lower k then [] else GetHeader ctx q) \<and>
    GetResponseHeader (SetHeaderDownstream k v ctx) q = (if q = to_lower k then v else GetResponseHeader ctx q) \<and>
    GetResponseHeader (RemoveHeaderDownstream k ctx) q = (if q = to_lower k then [] else GetResponseHeader ctx q)"
  using assms by (simp add: upstream.get_put upstream.get_del downstream.get_put downstream.get_del)

theorem header_edits_read_back_witness:
  "GetHeader (SetHeaderUpstream ''X-User'' ''bob'' new_context) ''x-user'' = ''bob''"
proof -
  have "to_lower ''X-User'' = ''x-user''" "to_lower ''x-user'' = ''x-user''" by code_simp+
  then show ?thesis using header_edits_read_back [of "''x-user''" "''X-User''" "''bob''" new_context] by simp
qed

end
