(* ===== verification/Chain_Executor.thy ===== *)
theory Chain_Executor
  imports Request_Context
begin

text \<open>
  Running a filter chain for one phase (\<^verbatim>\<open>internal/engine/executor.go\<close>, \<^verbatim>\<open>filter.go\<close>,
  \<^verbatim>\<open>audit.go\<close>). A filter is a function on the request context and the state \<open>'w\<close> of everything
  filters share (Redis, caches, clocks); it may return an error. The type parameter is
  instantiated by the filters of the later theories.
\<close>

record 'w base_filter =
  bf_phases :: "Phase list option" \<comment> \<open>Some for a filter that implements \<^verbatim>\<open>PhaseAware\<close>\<close>
  bf_exec :: "RequestContext \<Rightarrow> 'w \<Rightarrow> string option \<times> RequestContext \<times> 'w"

datatype 'w Filter = Base "'w base_filter" | auditedFilter "'w Filter"

type_synonym 'w Chain = "'w Filter list"

definition Audit :: "'w Filter \<Rightarrow> 'w Filter" where
  "Audit f = auditedFilter f"

fun filter_Execute :: "'w Filter \<Rightarrow> RequestContext \<Rightarrow> 'w \<Rightarrow> string option \<times> RequestContext \<times> 'w" where
  "filter_Execute (Base b) ctx w = bf_exec b ctx w"
| "filter_Execute (auditedFilter f) ctx w = filter_Execute f ctx w"

fun SupportedPhases :: "'w Filter \<Rightarrow> Phase list option" where
  "SupportedPhases (Base b) = bf_phases b"
| "SupportedPhases (auditedFilter f) =
     Some (case SupportedPhases f of Some ps \<Rightarrow> ps | None \<Rightarrow> [PhaseRequestHeaders])"

fun isAudited :: "'w Filter \<Rightarrow> 'w Filter \<times> bool" where
  "isAudited (auditedFilter f) = (f, True)"
| "isAudited f = (f, False)"

definition phaseSupported :: "Phase list \<Rightarrow> Phase \<Rightarrow> bool" where
  "phaseSupported phases target = list_ex (\<lambda>p. p = target) phases"

text \<open>The phase gate of the executor.\<close>

definition runs_in :: "'w Filter \<Rightarrow> Phase \<Rightarrow> bool" where
  "runs_in f phase =
     (case SupportedPhases f of
        Some ps \<Rightarrow> phaseSupported ps phase
      | None \<Rightarrow> phase = PhaseRequestHeaders)"

definition audit_hit_of :: "nat \<Rightarrow> int \<Rightarrow> bool \<Rightarrow> audit_hit" where
  "audit_hit_of i st failed = \<lparr>ah_Index = i, ah_Status = st, ah_Failed = failed\<rparr>"

definition executeAudited ::
  "RequestContext \<Rightarrow> 'w Filter \<Rightarrow> nat \<Rightarrow> 'w \<Rightarrow> RequestContext \<times> 'w" where
  "executeAudited ctx f idx w =
     (let saved = saveMutations ctx;
          (err, c, w') = filter_Execute f ctx w;
          record_hit = (\<lambda>st failed.
            unblock (restoreMutations saved
              (c\<lparr>ctx_AuditHits := ctx_AuditHits c @ [audit_hit_of idx st failed]\<rparr>)))
      in if err \<noteq> None then (record_hit 500 True, w')
         else if ctx_Blocked c \<and> \<not> ctx_Answered c then
           (record_hit (if ctx_ResponseStatus c = 0 then 403 else ctx_ResponseStatus c) False, w')
         else if ctx_Blocked c \<and> ctx_Answered c then (c\<lparr>ctx_BlockedBy := int idx\<rparr>, w')
         else (c, w'))"

definition fail_internal :: "nat \<Rightarrow> RequestContext \<Rightarrow> RequestContext" where
  "fail_internal i ctx = ctx\<lparr>ctx_BlockedBy := int i, ctx_FilterFailed := True, ctx_Blocked := True,
     ctx_ResponseStatus := 500, ctx_ResponseBody := ''Internal Server Error''\<rparr>"

fun execute_loop ::
  "nat \<Rightarrow> 'w Chain \<Rightarrow> Phase \<Rightarrow> RequestContext \<Rightarrow> 'w \<Rightarrow> string option \<times> RequestContext \<times> 'w" where
  "execute_loop i [] phase ctx w = (None, ctx, w)"
| "execute_loop i (g # gs) phase ctx w =
     (if ctx_Blocked ctx then (None, ctx, w)
      else
        (let (f, audited) = isAudited g in
         if \<not> runs_in f phase then execute_loop (Suc i) gs phase ctx w
         else if audited then
           (let (c, w') = executeAudited ctx f i w in execute_loop (Suc i) gs phase c w')
         else
           (let (err, c, w') = filter_Execute f ctx w in
            case err of
              Some e \<Rightarrow> (Some e, fail_internal i c, w')
            | None \<Rightarrow> if ctx_Blocked c then (None, c\<lparr>ctx_BlockedBy := int i\<rparr>, w')
                      else execute_loop (Suc i) gs phase c w')))"

definition Execute ::
  "RequestContext \<Rightarrow> 'w Chain \<Rightarrow> Phase \<Rightarrow> 'w \<Rightarrow> string option \<times> RequestContext \<times> 'w" where
  "Execute ctx chain phase w = execute_loop 0 chain phase (ctx\<lparr>ctx_Phase := phase\<rparr>) w"

subsection \<open>Composition\<close>

lemma execute_loop_blocked [simp]: "ctx_Blocked ctx \<Longrightarrow> execute_loop i gs phase ctx w = (None, ctx, w)"
  by (cases gs) simp_all

lemma execute_loop_append:
  "execute_loop i (xs @ ys) phase ctx w =
     (case execute_loop i xs phase ctx w of
        (Some e, c, w') \<Rightarrow> (Some e, c, w')
      | (None, c, w') \<Rightarrow> execute_loop (i + length xs) ys phase c w')"
  by (induction xs arbitrary: i ctx w) (auto simp: Let_def split: prod.split option.split)

lemma executeAudited_err_cases:
  assumes "filter_Execute f ctx w = (err, c, w')"
  shows "executeAudited ctx f i w =
     (if err \<noteq> None then
        (unblock (restoreMutations (saveMutations ctx)
           (c\<lparr>ctx_AuditHits := ctx_AuditHits c @ [audit_hit_of i 500 True]\<rparr>)), w')
      else if ctx_Blocked c \<and> \<not> ctx_Answered c then
        (unblock (restoreMutations (saveMutations ctx)
           (c\<lparr>ctx_AuditHits := ctx_AuditHits c @
                [audit_hit_of i (if ctx_ResponseStatus c = 0 then 403 else ctx_ResponseStatus c) False]\<rparr>)), w')
      else if ctx_Blocked c \<and> ctx_Answered c then (c\<lparr>ctx_BlockedBy := int i\<rparr>, w')
      else (c, w'))"
  using assms by (simp add: executeAudited_def Let_def)

subsection \<open>The contract of a filter\<close>

text \<open>
  What the executor relies on: a filter leaves the executor's own bookkeeping alone and keeps the
  header edits consistent. Every filter of the engine is shown to satisfy it.
\<close>

definition keeps_bookkeeping :: "RequestContext \<Rightarrow> RequestContext \<Rightarrow> bool" where
  "keeps_bookkeeping c d \<longleftrightarrow>
     ctx_BlockedBy d = ctx_BlockedBy c \<and> ctx_FilterFailed d = ctx_FilterFailed c \<and>
     ctx_AuditHits d = ctx_AuditHits c \<and> ctx_Phase d = ctx_Phase c \<and>
     ctx_SetHeaderOptions d = ctx_SetHeaderOptions c"

lemma keeps_bookkeeping_refl [simp]: "keeps_bookkeeping c c"
  by (simp add: keeps_bookkeeping_def)

lemma keeps_bookkeeping_trans: "keeps_bookkeeping a b \<Longrightarrow> keeps_bookkeeping b c \<Longrightarrow> keeps_bookkeeping a c"
  by (simp add: keeps_bookkeeping_def)

definition lawful_exec :: "(RequestContext \<Rightarrow> 'w \<Rightarrow> string option \<times> RequestContext \<times> 'w) \<Rightarrow> bool" where
  "lawful_exec ex \<longleftrightarrow>
     (\<forall>ctx w err c w'. ex ctx w = (err, c, w') \<longrightarrow>
        keeps_bookkeeping ctx c \<and> (context_wf ctx \<longrightarrow> context_wf c))"

definition lawful_chain :: "'w Chain \<Rightarrow> bool" where
  "lawful_chain chain \<longleftrightarrow> (\<forall>g \<in> set chain. lawful_exec (filter_Execute g))"

lemma lawful_execI:
  "(\<And>ctx w err c w'. ex ctx w = (err, c, w') \<Longrightarrow> keeps_bookkeeping ctx c \<and> (context_wf ctx \<longrightarrow> context_wf c)) \<Longrightarrow>
   lawful_exec ex"
  by (simp add: lawful_exec_def)

text \<open>The context operations change a context lawfully, and lawful changes compose.\<close>

definition lawful_change :: "RequestContext \<Rightarrow> RequestContext \<Rightarrow> bool" where
  "lawful_change c d \<longleftrightarrow> keeps_bookkeeping c d \<and> (context_wf c \<longrightarrow> context_wf d)"

lemma lawful_change_refl [simp]: "lawful_change c c"
  by (simp add: lawful_change_def)

lemma lawful_change_trans: "lawful_change a b \<Longrightarrow> lawful_change b c \<Longrightarrow> lawful_change a c"
  by (auto simp: lawful_change_def intro: keeps_bookkeeping_trans)

lemma keeps_bookkeeping_ops [simp]:
  "keeps_bookkeeping c (SetHeaderUpstream k v d) = keeps_bookkeeping c d"
  "keeps_bookkeeping c (RemoveHeaderUpstream k d) = keeps_bookkeeping c d"
  "keeps_bookkeeping c (SetHeaderDownstream k v d) = keeps_bookkeeping c d"
  "keeps_bookkeeping c (RemoveHeaderDownstream k d) = keeps_bookkeeping c d"
  "keeps_bookkeeping c (SetPath p d) = keeps_bookkeeping c d"
  "keeps_bookkeeping c (Block st b d) = keeps_bookkeeping c d"
  "keeps_bookkeeping c (Answer st b d) = keeps_bookkeeping c d"
  by (simp_all add: keeps_bookkeeping_def SetHeaderUpstream_def RemoveHeaderUpstream_def SetHeaderDownstream_def
      RemoveHeaderDownstream_def SetPath_def Block_def Answer_def Let_def)

lemma lawful_change_ops [intro]:
  "lawful_change c d \<Longrightarrow> lawful_change c (SetHeaderUpstream k v d)"
  "lawful_change c d \<Longrightarrow> lawful_change c (RemoveHeaderUpstream k d)"
  "lawful_change c d \<Longrightarrow> lawful_change c (SetHeaderDownstream k v d)"
  "lawful_change c d \<Longrightarrow> lawful_change c (RemoveHeaderDownstream k d)"
  "lawful_change c d \<Longrightarrow> lawful_change c (SetPath p d)"
  "lawful_change c d \<Longrightarrow> lawful_change c (Block st b d)"
  "lawful_change c d \<Longrightarrow> lawful_change c (Answer st b d)"
  by (simp_all add: lawful_change_def)

lemma lawful_change_fold:
  "lawful_change c d \<Longrightarrow> (\<And>x e. lawful_change c e \<Longrightarrow> lawful_change c (f x e)) \<Longrightarrow> lawful_change c (fold f xs d)"
  by (induction xs arbitrary: d) auto

lemma lawful_exec_change:
  "(\<And>ctx w err c w'. ex ctx w = (err, c, w') \<Longrightarrow> lawful_change ctx c) \<Longrightarrow> lawful_exec ex"
  by (simp add: lawful_exec_def lawful_change_def)

lemma lawful_execD:
  assumes "lawful_exec ex" "ex ctx w = (err, c, w')"
  shows "keeps_bookkeeping ctx c" "context_wf ctx \<Longrightarrow> context_wf c"
  using assms unfolding lawful_exec_def by blast+

lemma lawful_isAudited: "lawful_exec (filter_Execute g) \<Longrightarrow> lawful_exec (filter_Execute (fst (isAudited g)))"
  by (cases g) (simp_all add: lawful_exec_def)

lemma bookkeeping_restore:
  "ctx_BlockedBy (unblock (restoreMutations m c)) = ctx_BlockedBy c"
  "ctx_FilterFailed (unblock (restoreMutations m c)) = ctx_FilterFailed c"
  "ctx_AuditHits (unblock (restoreMutations m c)) = ctx_AuditHits c"
  "ctx_Phase (unblock (restoreMutations m c)) = ctx_Phase c"
  "\<not> ctx_Blocked (unblock (restoreMutations m c))"
  by (simp_all add: unblock_def restoreMutations_def)

text \<open>
  A chain invariant: a relation between the context and shared state that every filter run keeps,
  as does the executor's own bookkeeping.
\<close>

locale chain_invariant =
  fixes I :: "RequestContext \<Rightarrow> 'w \<Rightarrow> bool"
    and ok :: "'w Filter \<Rightarrow> bool"
  assumes exec: "ok g \<Longrightarrow> I ctx w \<Longrightarrow> filter_Execute g ctx w = (err, c, w') \<Longrightarrow> I c w'"
    and audit: "I ctx w \<Longrightarrow> I c w' \<Longrightarrow>
      I (unblock (restoreMutations (saveMutations ctx) (c\<lparr>ctx_AuditHits := hits\<rparr>))) w'"
    and fail: "I c w \<Longrightarrow> I (fail_internal i c) w"
    and blocked_by: "I c w \<Longrightarrow> I (c\<lparr>ctx_BlockedBy := b\<rparr>) w"
    and phase: "I c w \<Longrightarrow> I (c\<lparr>ctx_Phase := p\<rparr>) w"
begin

lemma executeAudited_inv:
  assumes "ok g" "I ctx w" "executeAudited ctx (fst (isAudited g)) i w = (c, w')"
  shows "I c w'"
proof -
  obtain err d v where run: "filter_Execute (fst (isAudited g)) ctx w = (err, d, v)" by (cases "filter_Execute (fst (isAudited g)) ctx w")
  then have "filter_Execute g ctx w = (err, d, v)" by (cases g) simp_all
  then have "I d v" by (rule exec [OF assms(1,2)])
  then show ?thesis
    using assms(3) audit [OF assms(2)] blocked_by
    unfolding executeAudited_err_cases [OF run] by (auto split: if_splits)
qed

lemma execute_loop_inv:
  "\<forall>g \<in> set gs. ok g \<Longrightarrow> I ctx w \<Longrightarrow> execute_loop i gs phase ctx w = (err, c, w') \<Longrightarrow> I c w'"
proof (induction gs arbitrary: i ctx w)
  case (Cons g gs)
  obtain f au where fa: "isAudited g = (f, au)" by (cases "isAudited g")
  have g: "ok g" using Cons.prems(1) by simp
  show ?case
  proof (cases "ctx_Blocked ctx \<or> \<not> runs_in f phase")
    case True
    with Cons fa show ?thesis by (auto split: if_splits)
  next
    case run: False
    show ?thesis
    proof (cases au)
      case True
      obtain d v where ea: "executeAudited ctx f i w = (d, v)" by (cases "executeAudited ctx f i w")
      with executeAudited_inv [OF g Cons.prems(2), of i d v] fa have "I d v" by simp
      with Cons run True fa ea show ?thesis by auto
    next
      case False
      obtain e d v where ex: "filter_Execute f ctx w = (e, d, v)" by (cases "filter_Execute f ctx w")
      from fa False have "f = g" by (cases g) auto
      with ex g Cons.prems(2) have "I d v" using exec by blast
      with Cons run False fa ex show ?thesis
        by (auto simp: fail blocked_by split: option.splits if_splits)
    qed
  qed
qed simp

lemma Execute_inv:
  "\<forall>g \<in> set chain. ok g \<Longrightarrow> I ctx w \<Longrightarrow> Execute ctx chain phase w = (err, c, w') \<Longrightarrow> I c w'"
  unfolding Execute_def by (rule execute_loop_inv [OF _ phase])

end

lemma context_wf_bookkeeping [simp]:
  "context_wf (c\<lparr>ctx_BlockedBy := b\<rparr>) = context_wf c" "context_wf (c\<lparr>ctx_Phase := p\<rparr>) = context_wf c"
  "context_wf (c\<lparr>ctx_AuditHits := hits\<rparr>) = context_wf c" "context_wf (fail_internal i c) = context_wf c"
  by (simp_all add: context_wf_def fail_internal_def)

interpretation wf: chain_invariant "\<lambda>c w. context_wf c" "\<lambda>g. lawful_exec (filter_Execute g)"
  by unfold_locales (auto dest: lawful_execD(2) intro: context_wf_restore)

subsection \<open>Enforced filters\<close>

text \<open>C8: the first enforced filter that denies or fails decides the request: the context it leaves
  is the result, with its position as \<^verbatim>\<open>BlockedBy\<close> (and status 500 after a failure), and no later
  filter runs, whatever the rest of the chain is.\<close>

theorem first_denial_decides:
  assumes pre: "Execute ctx pre phase w = (None, c1, w1)" "\<not> ctx_Blocked c1"
    and f: "runs_in (Base b) phase" "bf_exec b c1 w1 = (err, c2, w2)" "err \<noteq> None \<or> ctx_Blocked c2"
  shows "Execute ctx (pre @ Base b # post) phase w =
    (err, (case err of
             None \<Rightarrow> c2\<lparr>ctx_BlockedBy := int (length pre)\<rparr>
           | Some _ \<Rightarrow> fail_internal (length pre) c2), w2)"
  using assms by (auto simp: Execute_def execute_loop_append split: option.splits)

definition deny_filter :: "int \<Rightarrow> string \<Rightarrow> 'w base_filter" where
  "deny_filter st body = \<lparr>bf_phases = None, bf_exec = (\<lambda>ctx w. (None, Block st body ctx, w))\<rparr>"

theorem first_denial_decides_witness:
  "Execute new_context ([] @ Base (deny_filter 403 ''no'') # [Base (deny_filter 500 ''later'')]) PhaseRequestHeaders (0::nat) =
     (None, (Block 403 ''no'' (new_context\<lparr>ctx_Phase := PhaseRequestHeaders\<rparr>))\<lparr>ctx_BlockedBy := 0\<rparr>, 0)"
  by (subst first_denial_decides [where ?c1.0 = "new_context\<lparr>ctx_Phase := PhaseRequestHeaders\<rparr>" and
        ?w1.0 = 0 and err = None and ?w2.0 = 0 and
        ?c2.0 = "Block 403 ''no'' (new_context\<lparr>ctx_Phase := PhaseRequestHeaders\<rparr>)"])
     (simp_all add: Execute_def deny_filter_def runs_in_def Block_def new_context_def)

subsection \<open>Outcomes\<close>

text \<open>The filter at a chain position may have ended the request: it runs in the phase and, if it is
  audited, it answered.\<close>

definition may_end :: "Phase \<Rightarrow> RequestContext \<Rightarrow> 'w Filter \<Rightarrow> bool" where
  "may_end phase c g \<longleftrightarrow>
     runs_in (fst (isAudited g)) phase \<and> (snd (isAudited g) \<longrightarrow> ctx_Answered c)"

lemma executeAudited_lawful:
  assumes law: "lawful_exec (filter_Execute f)" and run: "executeAudited ctx f i w = (c, w')"
  shows "ctx_FilterFailed c = ctx_FilterFailed ctx \<and>
    (ctx_Blocked c \<longrightarrow> ctx_Answered c \<and> ctx_BlockedBy c = int i) \<and>
    (\<not> ctx_Blocked c \<longrightarrow> ctx_BlockedBy c = ctx_BlockedBy ctx)"
proof -
  obtain err d v where ex: "filter_Execute f ctx w = (err, d, v)" by (cases "filter_Execute f ctx w")
  have "keeps_bookkeeping ctx d" by (rule lawful_execD(1) [OF law ex])
  then show ?thesis
    using run unfolding executeAudited_err_cases [OF ex]
    by (auto simp: bookkeeping_restore keeps_bookkeeping_def split: if_splits)
qed

lemma execute_loop_outcome:
  assumes "lawful_chain gs" "\<not> ctx_Blocked ctx" "ctx_BlockedBy ctx = -1" "\<not> ctx_FilterFailed ctx"
    and "execute_loop i gs phase ctx w = (err, c, w')"
  shows "(ctx_Blocked c \<longrightarrow> (\<exists>j < length gs. ctx_BlockedBy c = int (i + j) \<and> may_end phase c (gs ! j))) \<and>
    (\<not> ctx_Blocked c \<longrightarrow> ctx_BlockedBy c = -1) \<and>
    (err \<noteq> None \<longleftrightarrow> ctx_FilterFailed c) \<and>
    (err \<noteq> None \<longrightarrow> ctx_Blocked c \<and> ctx_ResponseStatus c = 500)"
  using assms
proof (induction gs arbitrary: i ctx w)
  case Nil
  then show ?case by simp
next
  case (Cons g gs)
  obtain f au where fa: "isAudited g = (f, au)" by (cases "isAudited g")
  have law: "lawful_exec (filter_Execute f)" "lawful_chain gs"
    using Cons.prems(1) lawful_isAudited [of g] fa by (simp_all add: lawful_chain_def)
  have shift: "\<exists>j < length (g # gs). ctx_BlockedBy c = int (i + j) \<and> may_end phase c ((g # gs) ! j)"
    if "\<exists>j < length gs. ctx_BlockedBy c = int (Suc i + j) \<and> may_end phase c (gs ! j)"
    using that by (metis Suc_less_eq add_Suc_shift length_Cons nth_Cons_Suc)
  have here: "\<exists>j < length (g # gs). ctx_BlockedBy c = int (i + j) \<and> may_end phase c ((g # gs) ! j)"
    if "ctx_BlockedBy c = int i" "may_end phase c g" using that by (intro exI [of _ 0]) simp
  show ?case
  proof (cases "runs_in f phase")
    case False
    with Cons.prems fa have "execute_loop (Suc i) gs phase ctx w = (err, c, w')" by simp
    from Cons.IH [OF law(2) Cons.prems(2-4) this] shift show ?thesis by blast
  next
    case run: True
    show ?thesis
    proof (cases au)
      case True
      obtain d v where ea: "executeAudited ctx f i w = (d, v)" by (cases "executeAudited ctx f i w")
      note d = executeAudited_lawful [OF law(1) ea]
      from Cons.prems fa run True ea have rest: "execute_loop (Suc i) gs phase d v = (err, c, w')" by simp
      show ?thesis
      proof (cases "ctx_Blocked d")
        case True
        with rest have "err = None" "c = d" by simp_all
        with True d here fa run Cons.prems(4) show ?thesis by (simp add: may_end_def)
      next
        case False
        from Cons.IH [OF law(2) False _ _ rest] d False Cons.prems(3,4) shift show ?thesis by simp
      qed
    next
      case enforced: False
      obtain e d v where ex: "filter_Execute f ctx w = (e, d, v)" by (cases "filter_Execute f ctx w")
      have keep: "keeps_bookkeeping ctx d" by (rule lawful_execD(1) [OF law(1) ex])
      show ?thesis
      proof (cases "e = None \<and> \<not> ctx_Blocked d")
        case True
        with Cons.prems fa run enforced ex have rest: "execute_loop (Suc i) gs phase d v = (err, c, w')" by simp
        from Cons.IH [OF law(2) _ _ _ rest] True keep Cons.prems(3,4) shift show ?thesis
          by (simp add: keeps_bookkeeping_def)
      next
        case False
        then have "err = e \<and> c = (case e of None \<Rightarrow> d\<lparr>ctx_BlockedBy := int i\<rparr> | Some _ \<Rightarrow> fail_internal i d)"
          using Cons.prems fa run enforced ex by (auto split: option.splits if_splits)
        with False keep here fa run enforced Cons.prems(4) show ?thesis
          by (auto simp: may_end_def fail_internal_def keeps_bookkeeping_def split: option.splits)
      qed
    qed
  qed
qed

text \<open>after a phase, a blocked request names the chain position that ended it; the filter
  there takes part in the phase and is enforced unless the response is an answer, so audited
  filters never deny. A request that is not blocked names no filter. The executor returns an error
  exactly when a filter failed, and then the request is blocked with status 500.\<close>

theorem Execute_outcome:
  assumes "lawful_chain chain" "\<not> ctx_Blocked ctx" "ctx_BlockedBy ctx = -1" "\<not> ctx_FilterFailed ctx"
    and "Execute ctx chain phase w = (err, c, w')"
  shows "(ctx_Blocked c \<longrightarrow>
      (\<exists>j < length chain. ctx_BlockedBy c = int j \<and> may_end phase c (chain ! j))) \<and>
    (\<not> ctx_Blocked c \<longrightarrow> ctx_BlockedBy c = -1) \<and>
    (err \<noteq> None \<longleftrightarrow> ctx_FilterFailed c) \<and>
    (err \<noteq> None \<longrightarrow> ctx_Blocked c \<and> ctx_ResponseStatus c = 500)"
  using execute_loop_outcome [of chain "ctx\<lparr>ctx_Phase := phase\<rparr>" 0 phase w err c w'] assms
  by (simp add: Execute_def)

lemma lawful_deny_filter [simp]: "lawful_exec (bf_exec (deny_filter st body))"
  by (auto simp: lawful_exec_def deny_filter_def keeps_bookkeeping_def Block_def context_wf_def)

theorem Execute_outcome_witness:
  "\<exists>err c w'. Execute new_context [Audit (Base (deny_filter 403 ''a'')), Base (deny_filter 429 ''b'')] PhaseRequestHeaders (0::nat) = (err, c, w') \<and>
     ctx_Blocked c \<and> (\<exists>j < 2. ctx_BlockedBy c = int j \<and>
       may_end PhaseRequestHeaders c (([Audit (Base (deny_filter 403 ''a'')), Base (deny_filter 429 ''b'')] :: nat Chain) ! j))"
proof -
  let ?ch = "[Audit (Base (deny_filter 403 ''a'')), Base (deny_filter 429 ''b'')] :: nat Chain"
  obtain err c w' where ex: "Execute new_context ?ch PhaseRequestHeaders 0 = (err, c, w')"
    by (cases "Execute new_context ?ch PhaseRequestHeaders 0")
  then have blocked: "ctx_Blocked c"
    by (auto simp: Execute_def Audit_def deny_filter_def runs_in_def phaseSupported_def executeAudited_def Let_def
        Block_def unblock_def restoreMutations_def saveMutations_def new_context_def)
  have "filter_Execute (auditedFilter (Base b)) = bf_exec b" "filter_Execute (Base b) = bf_exec b"
    for b :: "nat base_filter" by (simp_all add: fun_eq_iff)
  then have "lawful_chain ?ch" by (simp add: lawful_chain_def Audit_def)
  from Execute_outcome [OF this _ _ _ ex] ex blocked show ?thesis
    by (simp add: numeral_2_eq_2)
qed

subsection \<open>Audit mode\<close>

text \<open>C23: a denial or failure of an audited filter is only recorded: the request continues
  unblocked, the path and all header edits are exactly those before the filter ran, and one audit
  hit with the filter's position and status is appended.\<close>

theorem audited_denial_rolled_back:
  assumes law: "lawful_exec (filter_Execute f)"
    and run: "filter_Execute f ctx w = (err, d, w')" and deny: "err \<noteq> None \<or> ctx_Blocked d \<and> \<not> ctx_Answered d"
  shows "\<exists>c. executeAudited ctx f i w = (c, w') \<and> \<not> ctx_Blocked c \<and> \<not> ctx_Answered c \<and>
    saveMutations c = saveMutations ctx \<and>
    ctx_AuditHits c = ctx_AuditHits ctx @
      [audit_hit_of i (if err \<noteq> None then 500 else if ctx_ResponseStatus d = 0 then 403 else ctx_ResponseStatus d)
         (err \<noteq> None)]"
proof -
  have "ctx_AuditHits d = ctx_AuditHits ctx" "ctx_SetHeaderOptions d = ctx_SetHeaderOptions ctx"
    using lawful_execD(1) [OF law run] by (simp_all add: keeps_bookkeeping_def)
  then show ?thesis
    using deny unfolding executeAudited_err_cases [OF run]
    by (auto simp: unblock_def restoreMutations_def saveMutations_def)
qed

theorem audited_denial_rolled_back_witness:
  "\<exists>c. executeAudited new_context (Base (deny_filter 0 ''x'')) 3 (0::nat) = (c, 0) \<and> \<not> ctx_Blocked c \<and>
       ctx_AuditHits c = [audit_hit_of 3 403 False]"
  using audited_denial_rolled_back [of "Base (deny_filter 0 ''x'')" new_context "0::nat" None
      "Block 0 ''x'' new_context" 0 3]
  by (auto simp: deny_filter_def lawful_exec_def keeps_bookkeeping_def Block_def context_wf_def new_context_def)

text \<open>a lawful chain keeps the header edits consistent in every phase.\<close>

theorem Execute_keeps_wf:
  assumes "lawful_chain chain" "context_wf ctx" "Execute ctx chain phase w = (err, c, w')"
  shows "context_wf c"
  using wf.Execute_inv [OF _ assms(2,3)] assms(1) by (simp add: lawful_chain_def)

theorem Execute_keeps_wf_witness:
  "context_wf (fst (snd (Execute new_context [Base (deny_filter 403 ''a'')] PhaseRequestHeaders (0::nat))))"
proof -
  have "filter_Execute (Base b) = bf_exec b" for b :: "nat base_filter" by (simp add: fun_eq_iff)
  then have "lawful_chain [Base (deny_filter 403 ''a'') :: nat Filter]" by (simp add: lawful_chain_def)
  then show ?thesis
    using Execute_keeps_wf [of _ new_context PhaseRequestHeaders "0::nat"] by (metis context_wf_new prod.collapse)
qed

end
