(* ===== verification/Config.thy ===== *)
theory Config
  imports Selector Complex_Main
begin

text \<open>
  Loading a configuration (\<^verbatim>\<open>internal/config\<close>: \<^verbatim>\<open>parser.go\<close>, \<^verbatim>\<open>routing.go\<close>, \<^verbatim>\<open>chain.go\<close>,
  \<^verbatim>\<open>server.go\<close>, \<^verbatim>\<open>redis.go\<close>, \<^verbatim>\<open>config.go\<close>): defaults, validation and the compilation of matches.
  The YAML decoder is a parameter that yields the decoded record; regular expressions are compiled
  by the parameter \<open>re\<close>, which returns the predicate of a pattern or fails. Every statement holds
  for any such functions. Fields of the Go structs keep their names behind a prefix.
\<close>

subsection \<open>time.ParseDuration\<close>

text \<open>Durations are in nanoseconds. The fraction is taken exactly (Go computes it in float64).\<close>

definition unit_ns :: "string \<Rightarrow> nat option" where
  "unit_ns u =
     (if u = ''ns'' then Some 1
      else if u = ''us'' \<or> u = [CHR 0xC2, CHR 0xB5, CHR ''s''] \<or> u = [CHR 0xCE, CHR 0xBC, CHR ''s''] then Some 1000
      else if u = ''ms'' then Some 1000000
      else if u = ''s'' then Some 1000000000
      else if u = ''m'' then Some 60000000000
      else if u = ''h'' then Some 3600000000000
      else None)"

definition num_char :: "char \<Rightarrow> bool" where
  "num_char c \<longleftrightarrow> c = CHR ''.'' \<or> is_digit c"

abbreviation max_dur :: nat where
  "max_dur \<equiv> 9223372036854775808"

text \<open>One \<^verbatim>\<open>number unit\<close> group: its value and the rest of the text.\<close>

definition duration_group :: "string \<Rightarrow> (nat \<times> string) option" where
  "duration_group s =
     (let whole = takeWhile is_digit s; s1 = dropWhile is_digit s;
          dot = (s1 \<noteq> [] \<and> hd s1 = CHR ''.'');
          frac = (if dot then takeWhile is_digit (tl s1) else []);
          s2 = (if dot then dropWhile is_digit (tl s1) else s1);
          u = takeWhile (\<lambda>c. \<not> num_char c) s2 in
      if s = [] \<or> \<not> num_char (hd s) \<or> (whole = [] \<and> frac = []) \<or> u = [] then None
      else (case unit_ns u of
              None \<Rightarrow> None
            | Some un \<Rightarrow>
                (let v = digits_val whole * un + digits_val frac * un div 10 ^ length frac in
                 if digits_val whole > max_dur \<or> v > max_dur then None
                 else Some (v, dropWhile (\<lambda>c. \<not> num_char c) s2))))"

lemma duration_group_shorter: "duration_group s = Some (v, rest) \<Longrightarrow> length rest < length s"
proof -
  assume ok: "duration_group s = Some (v, rest)"
  define s1 where "s1 = dropWhile is_digit s"
  define dot where "dot = (s1 \<noteq> [] \<and> hd s1 = CHR ''.'')"
  define s2 where "s2 = (if dot then dropWhile is_digit (tl s1) else s1)"
  from ok have u: "takeWhile (\<lambda>c. \<not> num_char c) s2 \<noteq> []" and rest: "rest = dropWhile (\<lambda>c. \<not> num_char c) s2"
    by (auto simp: duration_group_def Let_def s1_def dot_def s2_def split: if_splits option.splits)
  have "length s2 \<le> length s1"
    using length_dropWhile_le [of is_digit "tl s1"] by (auto simp: s2_def intro: le_trans)
  moreover have "length s1 \<le> length s" by (simp add: s1_def length_dropWhile_le)
  moreover have "length rest < length s2"
    using u rest takeWhile_dropWhile_id [of "\<lambda>c. \<not> num_char c" s2]
    by (metis length_append less_add_same_cancel2 length_greater_0_conv)
  ultimately show ?thesis by linarith
qed

function duration_groups :: "nat \<Rightarrow> string \<Rightarrow> nat option" where
  "duration_groups d s =
     (if s = [] then Some d
      else (case duration_group s of
              None \<Rightarrow> None
            | Some (v, rest) \<Rightarrow> if d + v > max_dur then None else duration_groups (d + v) rest))"
  by pat_completeness auto
termination
  by (relation "measure (\<lambda>(d, s). length s)") (auto dest: duration_group_shorter)

declare duration_groups.simps [simp del]

definition ParseDuration :: "string \<Rightarrow> int option" where
  "ParseDuration s0 =
     (let neg = (s0 \<noteq> [] \<and> hd s0 = CHR ''-'');
          s = (if s0 \<noteq> [] \<and> (hd s0 = CHR ''-'' \<or> hd s0 = CHR ''+'') then tl s0 else s0) in
      if s = ''0'' then Some 0
      else if s = [] then None
      else (case duration_groups 0 s of
              None \<Rightarrow> None
            | Some d \<Rightarrow> if neg then Some (- int d)
                        else if d > max_dur - 1 then None else Some (int d)))"

subsection \<open>Configuration records\<close>

type_synonym regex = "string \<Rightarrow> bool"

record HeaderMatchConfig =
  hm_Exact :: string
  hm_RegexPattern :: string
  hm_CompiledRegex :: "regex option"

record MatchConfig =
  mc_Traffic :: string
  mc_Sources :: "string list"
  mc_Destinations :: "string list"
  mc_CompiledTraffic :: traffic
  mc_CompiledSources :: "sel_set option"
  mc_CompiledDestinations :: "sel_set option"
  mc_PathPrefix :: string
  mc_PathRegexPattern :: string
  mc_CompiledPathRegex :: "regex option"
  mc_Headers :: "(string \<times> HeaderMatchConfig) list"

record RouteConfig =
  rt_Name :: string
  rt_Matches :: "MatchConfig list"
  rt_TargetChain :: string

record RouterConfig =
  rc_Routes :: "RouteConfig list"
  rc_DefaultNorthSouth :: string
  rc_DefaultEastWest :: string
  rc_DefaultChain :: string
  rc_Other :: string
  rc_UnknownSource :: string

text \<open>Options of a filter are a YAML tree.\<close>

datatype yaml = YNull | YBool bool | YInt int | YFloat rat | YStr string
  | YList "yaml list" | YMap "(string \<times> yaml) list"

record FilterConfig =
  fc_Name :: string
  fc_Audit :: bool
  fc_Type :: string
  fc_Options :: "(string \<times> yaml) list"

record ChainSettings =
  cs_Timeout :: string
  cs_MaxConcurrency :: int
  cs_OnTimeout :: string
  cs_OnOverload :: string
  cs_TimeoutDuration :: int

record TLSConfig =
  tls_Enabled :: bool
  tls_CertFile :: string
  tls_KeyFile :: string
  tls_CAFile :: string
  tls_MutualTLS :: bool

record ShutdownConfig =
  sh_QuietPeriod :: string
  sh_MinDelay :: string
  sh_MaxDelay :: string
  sh_DrainTimeout :: string
  sh_QuietPeriodDuration :: int
  sh_MinDelayDuration :: int
  sh_MaxDelayDuration :: int
  sh_DrainTimeoutDuration :: int

record ServerConfig =
  sv_Address :: string
  sv_MaxConcurrentStreams :: "32 word"
  sv_PoolPrewarmSize :: int
  sv_InitialHeaderCapacity :: int
  sv_TLS :: TLSConfig
  sv_HealthAddress :: string
  sv_PprofAddress :: string
  sv_TrustedProxyHops :: int
  sv_Shutdown :: ShutdownConfig

record LoggingConfig =
  lg_Level :: string
  lg_Format :: string
  lg_OutputPath :: string

record IdentityConfig =
  ic_Enabled :: bool
  ic_Address :: string
  ic_CAFile :: string
  ic_ServerName :: string
  ic_TokenFile :: string
  ic_Insecure :: bool

record RedisServiceConfig =
  rd_Type :: string
  rd_SocketType :: string
  rd_URL :: string
  rd_PoolSize :: int
  rd_Auth :: string
  rd_TLS :: bool
  rd_TLSClientCert :: string
  rd_TLSClientKey :: string
  rd_TLSCACert :: string
  rd_TLSSkipHostnameVerification :: bool
  rd_PipelineWindow :: string
  rd_PipelineWindowDuration :: int
  rd_ClusterPipelineParallelism :: int
  rd_SentinelAuth :: string
  rd_ActiveConnHealthCheck :: bool
  rd_Timeout :: string
  rd_TimeoutDuration :: int
  rd_OnEmptyBehavior :: string
  rd_WaitTimeout :: string
  rd_WaitTimeoutDuration :: int
  rd_StartupInitialInterval :: string
  rd_StartupInitialIntervalDuration :: int
  rd_StartupMaxInterval :: string
  rd_StartupMaxIntervalDuration :: int
  rd_StartupMaxElapsedTime :: string
  rd_StartupMaxElapsedTimeDuration :: int

record Config =
  cfg_Version :: string
  cfg_Server :: ServerConfig
  cfg_Logging :: LoggingConfig
  cfg_Chains :: "string \<rightharpoonup> FilterConfig list"
  cfg_Router :: RouterConfig
  cfg_Redis :: "string \<rightharpoonup> RedisServiceConfig"
  cfg_ChainSettings :: "(string \<times> ChainSettings) list"
  cfg_Identity :: IdentityConfig

datatype config_error =
    YamlError
  | InvalidVersion string
  | InvalidDuration string string
  | MinExceedsMax
  | NegativeHops int
  | MatchError string nat selector_error
  | MatchTrafficError string nat traffic_error
  | InvalidPathRegex string nat
  | InvalidHeaderRegex string string nat
  | InvalidUnknownSource string
  | IdentityAddressRequired
  | IdentityCARequired
  | UnknownChainSettings string
  | NegativeConcurrency string
  | InvalidLimitAction string string
  | NoTargetChain string
  | UndefinedTargetChain string string
  | UndefinedRouterChain string string
  | InvalidRedisType string
  | InvalidRedisSocket string
  | InvalidRedisEmpty string

subsection \<open>Matches\<close>

datatype match_error = TrafficErr traffic_error | SelectorErr selector_error

definition match_Compile :: "bool \<Rightarrow> MatchConfig \<Rightarrow> (match_error, MatchConfig) result" where
  "match_Compile allow m =
     (case ParseTraffic (mc_Traffic m) of
        Inl e \<Rightarrow> Err (TrafficErr e)
      | Inr t \<Rightarrow>
          (case Compile (mc_Sources m) Source allow of
             Inl e \<Rightarrow> Err (SelectorErr e)
           | Inr src \<Rightarrow>
               (case Compile (mc_Destinations m) Destination allow of
                  Inl e \<Rightarrow> Err (SelectorErr e)
                | Inr dst \<Rightarrow> Ok (m\<lparr>mc_CompiledTraffic := t, mc_CompiledSources := src,
                                     mc_CompiledDestinations := dst\<rparr>))))"

definition match_error_at :: "string \<Rightarrow> nat \<Rightarrow> match_error \<Rightarrow> config_error" where
  "match_error_at r j e =
     (case e of TrafficErr t \<Rightarrow> MatchTrafficError r j t | SelectorErr s \<Rightarrow> MatchError r j s)"

text \<open>Header names are lowered into a new map; on a collision the later entry stays.\<close>

definition lower_headers :: "(string \<times> HeaderMatchConfig) list \<Rightarrow> (string \<times> HeaderMatchConfig) list" where
  "lower_headers hs = fold (\<lambda>(k, v) m. AList.update (to_lower k) v m) hs []"

definition compile_header ::
  "(string \<Rightarrow> regex option) \<Rightarrow> string \<Rightarrow> nat \<Rightarrow> string \<times> HeaderMatchConfig \<Rightarrow>
   (config_error, string \<times> HeaderMatchConfig) result" where
  "compile_header re r j kv =
     (case kv of (k, h) \<Rightarrow>
        if hm_RegexPattern h = [] then Ok (k, h)
        else (case re (hm_RegexPattern h) of
                None \<Rightarrow> Err (InvalidHeaderRegex k r j)
              | Some c \<Rightarrow> Ok (k, h\<lparr>hm_CompiledRegex := Some c\<rparr>)))"

definition compile_match ::
  "(string \<Rightarrow> regex option) \<Rightarrow> bool \<Rightarrow> string \<Rightarrow> nat \<times> MatchConfig \<Rightarrow> (config_error, MatchConfig) result" where
  "compile_match re allow r jm =
     (case jm of (j, m) \<Rightarrow>
        bind_result (map_error (match_error_at r j) (match_Compile allow m)) (\<lambda>m1.
        bind_result
          (if mc_PathRegexPattern m = [] then Ok m1
           else (case re (mc_PathRegexPattern m) of
                   None \<Rightarrow> Err (InvalidPathRegex r j)
                 | Some c \<Rightarrow> Ok (m1\<lparr>mc_CompiledPathRegex := Some c\<rparr>))) (\<lambda>m2.
        bind_result (map_result (compile_header re r j) (lower_headers (mc_Headers m))) (\<lambda>hs.
        Ok (m2\<lparr>mc_Headers := hs\<rparr>)))))"

definition compile_route ::
  "(string \<Rightarrow> regex option) \<Rightarrow> bool \<Rightarrow> RouteConfig \<Rightarrow> (config_error, RouteConfig) result" where
  "compile_route re allow r =
     bind_result
       (map_result (compile_match re allow (rt_Name r)) (List.enumerate 0 (rt_Matches r)))
       (\<lambda>ms. Ok (r\<lparr>rt_Matches := ms\<rparr>))"

subsection \<open>Defaults and validation\<close>

definition shutdown_duration :: "string \<Rightarrow> string \<Rightarrow> int \<Rightarrow> (config_error, int) result" where
  "shutdown_duration fld raw def =
     (if raw = [] then Ok def
      else (case ParseDuration raw of
              None \<Rightarrow> Err (InvalidDuration fld raw)
            | Some d \<Rightarrow> if d < 0 then Err (InvalidDuration fld raw) else Ok d))"

definition shutdown_applyDefaults :: "ShutdownConfig \<Rightarrow> (config_error, ShutdownConfig) result" where
  "shutdown_applyDefaults c =
     bind_result (shutdown_duration ''quiet_period'' (sh_QuietPeriod c) 2000000000) (\<lambda>q.
     bind_result (shutdown_duration ''min_delay'' (sh_MinDelay c) 3000000000) (\<lambda>mn.
     bind_result (shutdown_duration ''max_delay'' (sh_MaxDelay c) 15000000000) (\<lambda>mx.
     bind_result (shutdown_duration ''drain_timeout'' (sh_DrainTimeout c) 20000000000) (\<lambda>dr.
     if mn > mx then Err MinExceedsMax
     else Ok (c\<lparr>sh_QuietPeriodDuration := q, sh_MinDelayDuration := mn,
                sh_MaxDelayDuration := mx, sh_DrainTimeoutDuration := dr\<rparr>)))))"

text \<open>The two actions are checked in a map's iteration order; only the choice of error message
  depends on it.\<close>

definition limit_action :: "string \<Rightarrow> string \<Rightarrow> string \<Rightarrow> (config_error, string) result" where
  "limit_action nm fld v =
     (if v = [] then Ok ''deny''
      else if v = ''deny'' \<or> v = ''allow'' then Ok v
      else Err (InvalidLimitAction nm fld))"

definition chain_settings_validate :: "string \<Rightarrow> ChainSettings \<Rightarrow> (config_error, ChainSettings) result" where
  "chain_settings_validate nm c =
     bind_result
       (if cs_Timeout c = [] then Ok c
        else (case ParseDuration (cs_Timeout c) of
                None \<Rightarrow> Err (InvalidDuration nm (cs_Timeout c))
              | Some d \<Rightarrow> if d \<le> 0 then Err (InvalidDuration nm (cs_Timeout c))
                          else Ok (c\<lparr>cs_TimeoutDuration := d\<rparr>))) (\<lambda>c1.
     if cs_MaxConcurrency c1 < 0 then Err (NegativeConcurrency nm)
     else
       bind_result (limit_action nm ''on_timeout'' (cs_OnTimeout c1)) (\<lambda>ot.
       bind_result (limit_action nm ''on_overload'' (cs_OnOverload c1)) (\<lambda>oo.
       Ok (c1\<lparr>cs_OnTimeout := ot, cs_OnOverload := oo\<rparr>))))"

definition applyTLSEnvOverrides :: "(string \<Rightarrow> string) \<Rightarrow> TLSConfig \<Rightarrow> TLSConfig" where
  "applyTLSEnvOverrides env t =
     (let cert = env ''TLS_CERT_FILE''; key = env ''TLS_KEY_FILE'' in
      if cert = [] \<or> key = [] then t
      else t\<lparr>tls_Enabled := True, tls_CertFile := cert, tls_KeyFile := key,
             tls_CAFile := (if env ''TLS_CA_FILE'' \<noteq> [] then env ''TLS_CA_FILE'' else tls_CAFile t),
             tls_MutualTLS := (if env ''TLS_MUTUAL_TLS'' = ''true'' then True else tls_MutualTLS t)\<rparr>)"

definition route_reference :: "Config \<Rightarrow> RouteConfig \<Rightarrow> (config_error, unit) result" where
  "route_reference cfg r =
     (if rt_TargetChain r = [] then Err (NoTargetChain (rt_Name r))
      else if cfg_Chains cfg (rt_TargetChain r) = None
      then Err (UndefinedTargetChain (rt_Name r) (rt_TargetChain r)) else Ok ())"

definition router_reference :: "Config \<Rightarrow> string \<times> string \<Rightarrow> (config_error, unit) result" where
  "router_reference cfg f =
     (if snd f = [] then Ok ()
      else if cfg_Chains cfg (snd f) = None then Err (UndefinedRouterChain (fst f) (snd f)) else Ok ())"

definition validateChainReferences :: "Config \<Rightarrow> (config_error, unit) result" where
  "validateChainReferences cfg =
     bind_result (check_all (route_reference cfg) (rc_Routes (cfg_Router cfg))) (\<lambda>_.
     check_all (router_reference cfg)
       [(''default_chain'', rc_DefaultChain (cfg_Router cfg)),
        (''other'', rc_Other (cfg_Router cfg)),
        (''default_chains.north_south'', rc_DefaultNorthSouth (cfg_Router cfg)),
        (''default_chains.east_west'', rc_DefaultEastWest (cfg_Router cfg))])"

definition server_defaults :: "ServerConfig \<Rightarrow> (config_error, ServerConfig) result" where
  "server_defaults s =
     (let s1 = s\<lparr>sv_PoolPrewarmSize := (if sv_PoolPrewarmSize s \<le> 0 then 256 else sv_PoolPrewarmSize s),
                 sv_InitialHeaderCapacity :=
                   (if sv_InitialHeaderCapacity s \<le> 0 then 64 else sv_InitialHeaderCapacity s),
                 sv_HealthAddress := (if sv_HealthAddress s = [] then '':9003'' else sv_HealthAddress s)\<rparr> in
      bind_result (shutdown_applyDefaults (sv_Shutdown s1)) (\<lambda>sh.
      if sv_TrustedProxyHops s1 < 0 then Err (NegativeHops (sv_TrustedProxyHops s1))
      else Ok (s1\<lparr>sv_Shutdown := sh\<rparr>)))"

definition logging_defaults :: "LoggingConfig \<Rightarrow> LoggingConfig" where
  "logging_defaults l =
     l\<lparr>lg_Level := (if lg_Level l = [] then ''INFO'' else lg_Level l),
       lg_Format := (if lg_Format l = [] then ''console'' else lg_Format l),
       lg_OutputPath := (if lg_OutputPath l = [] then ''stdout'' else lg_OutputPath l)\<rparr>"

definition unknown_source :: "string \<Rightarrow> (config_error, string) result" where
  "unknown_source v =
     (if v = [] then Ok ''deny''
      else if v = ''deny'' \<or> v = ''default'' then Ok v
      else Err (InvalidUnknownSource v))"

definition identity_defaults :: "IdentityConfig \<Rightarrow> (config_error, IdentityConfig) result" where
  "identity_defaults i =
     (if \<not> ic_Enabled i then Ok i
      else if ic_Address i = [] then Err IdentityAddressRequired
      else if ic_CAFile i = [] \<and> \<not> ic_Insecure i then Err IdentityCARequired
      else Ok (i\<lparr>ic_TokenFile := (if ic_TokenFile i = []
                then ''/var/run/secrets/hypergate/identity/token'' else ic_TokenFile i)\<rparr>))"

definition chain_setting :: "Config \<Rightarrow> string \<times> ChainSettings \<Rightarrow> (config_error, string \<times> ChainSettings) result" where
  "chain_setting cfg ns =
     (if cfg_Chains cfg (fst ns) = None then Err (UnknownChainSettings (fst ns))
      else bind_result (chain_settings_validate (fst ns) (snd ns)) (\<lambda>c. Ok (fst ns, c)))"

definition ParseBytes ::
  "(string \<Rightarrow> Config option) \<Rightarrow> (string \<Rightarrow> regex option) \<Rightarrow> (string \<Rightarrow> string) \<Rightarrow> string \<Rightarrow>
   (config_error, Config) result" where
  "ParseBytes unmarshal re env data =
     (case unmarshal data of
        None \<Rightarrow> Err YamlError
      | Some cfg \<Rightarrow>
          if cfg_Version cfg \<noteq> ''v1'' then Err (InvalidVersion (cfg_Version cfg))
          else
            bind_result (server_defaults (cfg_Server cfg)) (\<lambda>sv.
            let cfg1 = cfg\<lparr>cfg_Server := sv, cfg_Logging := logging_defaults (cfg_Logging cfg)\<rparr> in
            bind_result
              (map_result (compile_route re (ic_Enabled (cfg_Identity cfg1))) (rc_Routes (cfg_Router cfg1)))
              (\<lambda>routes.
            let sv2 = sv\<lparr>sv_TLS := applyTLSEnvOverrides env (sv_TLS sv)\<rparr> in
            bind_result (unknown_source (rc_UnknownSource (cfg_Router cfg1))) (\<lambda>us.
            let cfg2 = cfg1\<lparr>cfg_Server := sv2,
                  cfg_Router := (cfg_Router cfg1)\<lparr>rc_Routes := routes, rc_UnknownSource := us\<rparr>\<rparr> in
            bind_result (identity_defaults (cfg_Identity cfg2)) (\<lambda>ident.
            let cfg3 = cfg2\<lparr>cfg_Identity := ident\<rparr> in
            bind_result (map_result (chain_setting cfg3) (cfg_ChainSettings cfg3)) (\<lambda>css.
            let cfg4 = cfg3\<lparr>cfg_ChainSettings := css\<rparr> in
            bind_result (validateChainReferences cfg4) (\<lambda>_. Ok cfg4)))))))"

subsection \<open>Redis services\<close>

definition or_default :: "string \<Rightarrow> string \<Rightarrow> string" where
  "or_default v d = (if v = [] then d else v)"

definition redis_duration :: "string \<Rightarrow> string \<Rightarrow> (config_error, int) result" where
  "redis_duration fld v = (case ParseDuration v of None \<Rightarrow> Err (InvalidDuration fld v) | Some d \<Rightarrow> Ok d)"

definition applyRedisDefaults :: "RedisServiceConfig \<Rightarrow> (config_error, RedisServiceConfig) result" where
  "applyRedisDefaults c0 =
     (let c = c0\<lparr>rd_Type := or_default (rd_Type c0) ''SINGLE'',
                 rd_SocketType := or_default (rd_SocketType c0) ''tcp'',
                 rd_URL := or_default (rd_URL c0) ''localhost:6379'',
                 rd_PoolSize := (if rd_PoolSize c0 = 0 then 10 else rd_PoolSize c0),
                 rd_PipelineWindow := or_default (rd_PipelineWindow c0) ''0s'',
                 rd_ClusterPipelineParallelism :=
                   (if rd_ClusterPipelineParallelism c0 = 0 then 1 else rd_ClusterPipelineParallelism c0),
                 rd_Timeout := or_default (rd_Timeout c0) ''10s'',
                 rd_OnEmptyBehavior := or_default (rd_OnEmptyBehavior c0) ''WAIT'',
                 rd_WaitTimeout := or_default (rd_WaitTimeout c0) ''1s'',
                 rd_StartupInitialInterval := or_default (rd_StartupInitialInterval c0) ''1s'',
                 rd_StartupMaxInterval := or_default (rd_StartupMaxInterval c0) ''30s'',
                 rd_StartupMaxElapsedTime := or_default (rd_StartupMaxElapsedTime c0) ''0s''\<rparr> in
      if rd_Type c \<notin> {''SINGLE'', ''CLUSTER'', ''SENTINEL''} then Err (InvalidRedisType (rd_Type c))
      else if rd_SocketType c \<notin> {''tcp'', ''unix''} then Err (InvalidRedisSocket (rd_SocketType c))
      else if rd_OnEmptyBehavior c \<noteq> ''WAIT'' then Err (InvalidRedisEmpty (rd_OnEmptyBehavior c))
      else
        bind_result (redis_duration ''pipeline_window'' (rd_PipelineWindow c)) (\<lambda>pw.
        bind_result (redis_duration ''timeout'' (rd_Timeout c)) (\<lambda>to.
        bind_result (redis_duration ''wait_timeout'' (rd_WaitTimeout c)) (\<lambda>wt.
        bind_result (redis_duration ''startup_initial_interval'' (rd_StartupInitialInterval c)) (\<lambda>si.
        bind_result (redis_duration ''startup_max_interval'' (rd_StartupMaxInterval c)) (\<lambda>sm.
        bind_result (redis_duration ''startup_max_elapsed_time'' (rd_StartupMaxElapsedTime c)) (\<lambda>se.
        Ok (c\<lparr>rd_PipelineWindowDuration := pw, rd_TimeoutDuration := to, rd_WaitTimeoutDuration := wt,
              rd_StartupInitialIntervalDuration := si, rd_StartupMaxIntervalDuration := sm,
              rd_StartupMaxElapsedTimeDuration := se\<rparr>))))))))"

subsection \<open>What a loaded configuration guarantees\<close>

definition references_defined :: "Config \<Rightarrow> bool" where
  "references_defined cfg \<longleftrightarrow>
     (\<forall>r \<in> set (rc_Routes (cfg_Router cfg)). rt_TargetChain r \<noteq> [] \<and> rt_TargetChain r \<in> dom (cfg_Chains cfg)) \<and>
     (\<forall>n \<in> {rc_DefaultChain (cfg_Router cfg), rc_Other (cfg_Router cfg),
             rc_DefaultNorthSouth (cfg_Router cfg), rc_DefaultEastWest (cfg_Router cfg)}.
        n \<noteq> [] \<longrightarrow> n \<in> dom (cfg_Chains cfg))"

definition settings_valid :: "Config \<Rightarrow> bool" where
  "settings_valid cfg \<longleftrightarrow>
     (\<forall>(n, c) \<in> set (cfg_ChainSettings cfg).
        n \<in> dom (cfg_Chains cfg) \<and> cs_OnTimeout c \<in> {''deny'', ''allow''} \<and>
        cs_OnOverload c \<in> {''deny'', ''allow''} \<and> 0 \<le> cs_MaxConcurrency c \<and>
        (cs_Timeout c \<noteq> [] \<longrightarrow> 0 < cs_TimeoutDuration c))"

definition server_valid :: "ServerConfig \<Rightarrow> bool" where
  "server_valid s \<longleftrightarrow>
     0 < sv_PoolPrewarmSize s \<and> 0 < sv_InitialHeaderCapacity s \<and> sv_HealthAddress s \<noteq> [] \<and>
     0 \<le> sv_TrustedProxyHops s \<and> 0 \<le> sh_QuietPeriodDuration (sv_Shutdown s) \<and>
     0 \<le> sh_MinDelayDuration (sv_Shutdown s) \<and>
     sh_MinDelayDuration (sv_Shutdown s) \<le> sh_MaxDelayDuration (sv_Shutdown s) \<and>
     0 \<le> sh_DrainTimeoutDuration (sv_Shutdown s)"

definition identity_valid :: "IdentityConfig \<Rightarrow> bool" where
  "identity_valid i \<longleftrightarrow>
     (ic_Enabled i \<longrightarrow> ic_Address i \<noteq> [] \<and> (ic_CAFile i \<noteq> [] \<or> ic_Insecure i) \<and> ic_TokenFile i \<noteq> [])"

definition config_valid :: "Config \<Rightarrow> bool" where
  "config_valid cfg \<longleftrightarrow>
     cfg_Version cfg = ''v1'' \<and> references_defined cfg \<and> settings_valid cfg \<and>
     server_valid (cfg_Server cfg) \<and> identity_valid (cfg_Identity cfg) \<and>
     rc_UnknownSource (cfg_Router cfg) \<in> {''deny'', ''default''}"

lemma validateChainReferences_Ok: "validateChainReferences cfg = Ok () \<Longrightarrow> references_defined cfg"
  by (auto simp: validateChainReferences_def bind_result_eq_Ok check_all_Ok route_reference_def
      router_reference_def references_defined_def split: if_splits)

lemma shutdown_duration_nonneg: "shutdown_duration f raw d = Ok x \<Longrightarrow> 0 \<le> d \<Longrightarrow> 0 \<le> x"
  by (auto simp: shutdown_duration_def split: if_splits option.splits)

lemma server_defaults_valid: "server_defaults s = Ok s' \<Longrightarrow> server_valid s'"
  by (auto simp: server_defaults_def shutdown_applyDefaults_def server_valid_def bind_result_eq_Ok Let_def
      dest: shutdown_duration_nonneg split: if_splits)

lemma server_valid_TLS [simp]: "server_valid (s\<lparr>sv_TLS := t\<rparr>) = server_valid s"
  by (simp add: server_valid_def)

lemma identity_defaults_valid: "identity_defaults i = Ok i' \<Longrightarrow> identity_valid i'"
  by (auto simp: identity_defaults_def identity_valid_def split: if_splits)

lemma limit_action_Ok: "limit_action n f v = Ok a \<Longrightarrow> a \<in> {''deny'', ''allow''}"
  by (auto simp: limit_action_def split: if_splits)

lemma chain_settings_validate_Ok:
  assumes "chain_settings_validate n c = Ok d"
  shows "cs_OnTimeout d \<in> {''deny'', ''allow''}" "cs_OnOverload d \<in> {''deny'', ''allow''}"
    "0 \<le> cs_MaxConcurrency d" "cs_Timeout d \<noteq> [] \<longrightarrow> 0 < cs_TimeoutDuration d"
  using assms
  by (auto simp: chain_settings_validate_def bind_result_eq_Ok split: if_splits option.splits dest: limit_action_Ok)

lemma chain_setting_Ok:
  assumes "map_result (chain_setting cfg) xs = Ok css"
  shows "\<forall>(n, c) \<in> set css. n \<in> dom (cfg_Chains cfg) \<and> cs_OnTimeout c \<in> {''deny'', ''allow''} \<and>
        cs_OnOverload c \<in> {''deny'', ''allow''} \<and> 0 \<le> cs_MaxConcurrency c \<and>
        (cs_Timeout c \<noteq> [] \<longrightarrow> 0 < cs_TimeoutDuration c)"
proof (intro ballI)
  fix nc assume nc: "nc \<in> set css"
  from map_result_member [OF assms nc] obtain x where "chain_setting cfg x = Ok nc" by blast
  then obtain n c d where x: "x = (n, c)" "n \<in> dom (cfg_Chains cfg)" "chain_settings_validate n c = Ok d" "nc = (n, d)"
    by (cases x) (auto simp: chain_setting_def bind_result_eq_Ok split: if_splits)
  with chain_settings_validate_Ok [OF x(3)]
  show "case nc of (n, c) \<Rightarrow> n \<in> dom (cfg_Chains cfg) \<and> cs_OnTimeout c \<in> {''deny'', ''allow''} \<and>
        cs_OnOverload c \<in> {''deny'', ''allow''} \<and> 0 \<le> cs_MaxConcurrency c \<and>
        (cs_Timeout c \<noteq> [] \<longrightarrow> 0 < cs_TimeoutDuration c)" by simp
qed

text \<open>The parts of a successful load, in the order the parser computes them.\<close>

lemma ParseBytes_OkE:
  assumes "ParseBytes un re env data = Ok cfg"
  obtains raw sv routes us ident css where
    "un data = Some raw" "cfg_Version raw = ''v1''" "server_defaults (cfg_Server raw) = Ok sv"
    "map_result (compile_route re (ic_Enabled (cfg_Identity raw))) (rc_Routes (cfg_Router raw)) = Ok routes"
    "unknown_source (rc_UnknownSource (cfg_Router raw)) = Ok us"
    "identity_defaults (cfg_Identity raw) = Ok ident"
    "map_result (chain_setting cfg) (cfg_ChainSettings raw) = Ok css"
    "validateChainReferences cfg = Ok ()"
    "cfg = raw\<lparr>cfg_Logging := logging_defaults (cfg_Logging raw),
       cfg_Server := sv\<lparr>sv_TLS := applyTLSEnvOverrides env (sv_TLS sv)\<rparr>,
       cfg_Router := (cfg_Router raw)\<lparr>rc_Routes := routes, rc_UnknownSource := us\<rparr>,
       cfg_Identity := ident, cfg_ChainSettings := css\<rparr>"
proof -
  have eq: "map_result (chain_setting c) xs = map_result (chain_setting d) xs" if "cfg_Chains c = cfg_Chains d" for c d xs
    by (induction xs) (simp_all add: chain_setting_def that)
  from assms obtain raw sv routes us ident css where *:
    "un data = Some raw" "cfg_Version raw = ''v1''" "server_defaults (cfg_Server raw) = Ok sv"
    "map_result (compile_route re (ic_Enabled (cfg_Identity raw))) (rc_Routes (cfg_Router raw)) = Ok routes"
    "unknown_source (rc_UnknownSource (cfg_Router raw)) = Ok us"
    "identity_defaults (cfg_Identity raw) = Ok ident" "validateChainReferences cfg = Ok ()"
    "map_result (chain_setting (raw\<lparr>cfg_Logging := logging_defaults (cfg_Logging raw),
       cfg_Server := sv\<lparr>sv_TLS := applyTLSEnvOverrides env (sv_TLS sv)\<rparr>,
       cfg_Router := (cfg_Router raw)\<lparr>rc_Routes := routes, rc_UnknownSource := us\<rparr>, cfg_Identity := ident\<rparr>))
       (cfg_ChainSettings raw) = Ok css"
    "cfg = raw\<lparr>cfg_Logging := logging_defaults (cfg_Logging raw),
       cfg_Server := sv\<lparr>sv_TLS := applyTLSEnvOverrides env (sv_TLS sv)\<rparr>,
       cfg_Router := (cfg_Router raw)\<lparr>rc_Routes := routes, rc_UnknownSource := us\<rparr>,
       cfg_Identity := ident, cfg_ChainSettings := css\<rparr>"
    unfolding ParseBytes_def Let_def
    by (auto simp: bind_result_eq_Ok split: option.splits if_splits)
  have "map_result (chain_setting cfg) (cfg_ChainSettings raw) = Ok css"
    using *(8) by (subst eq [of cfg]) (auto simp: *(9))
  with * that show ?thesis by blast
qed


subsection \<open>An example\<close>

definition ex_match :: MatchConfig where
  "ex_match = \<lparr>mc_Traffic = ''east-west'', mc_Sources = [''cidr:10.1.0.0/16''], mc_Destinations = [],
     mc_CompiledTraffic = TrafficAny, mc_CompiledSources = None, mc_CompiledDestinations = None,
     mc_PathPrefix = ''/api'', mc_PathRegexPattern = [], mc_CompiledPathRegex = None,
     mc_Headers = [(''X-Team'', \<lparr>hm_Exact = ''*'', hm_RegexPattern = [], hm_CompiledRegex = None\<rparr>)]\<rparr>"

definition ex_router :: RouterConfig where
  "ex_router = \<lparr>rc_Routes = [\<lparr>rt_Name = ''api'', rt_Matches = [ex_match], rt_TargetChain = ''main''\<rparr>],
     rc_DefaultNorthSouth = [], rc_DefaultEastWest = [], rc_DefaultChain = ''fallback'', rc_Other = [],
     rc_UnknownSource = []\<rparr>"

definition ex_server :: ServerConfig where
  "ex_server = \<lparr>sv_Address = '':50051'', sv_MaxConcurrentStreams = 0, sv_PoolPrewarmSize = 0,
     sv_InitialHeaderCapacity = 0,
     sv_TLS = \<lparr>tls_Enabled = False, tls_CertFile = [], tls_KeyFile = [], tls_CAFile = [], tls_MutualTLS = False\<rparr>,
     sv_HealthAddress = [], sv_PprofAddress = [], sv_TrustedProxyHops = 1,
     sv_Shutdown = \<lparr>sh_QuietPeriod = ''1.5s'', sh_MinDelay = [], sh_MaxDelay = ''1m'', sh_DrainTimeout = [],
       sh_QuietPeriodDuration = 0, sh_MinDelayDuration = 0, sh_MaxDelayDuration = 0, sh_DrainTimeoutDuration = 0\<rparr>\<rparr>"

definition ex_config :: Config where
  "ex_config = \<lparr>cfg_Version = ''v1'', cfg_Server = ex_server,
     cfg_Logging = \<lparr>lg_Level = [], lg_Format = [], lg_OutputPath = []\<rparr>,
     cfg_Chains = [''main'' \<mapsto> [], ''fallback'' \<mapsto> []], cfg_Router = ex_router, cfg_Redis = Map.empty,
     cfg_ChainSettings = [(''main'', \<lparr>cs_Timeout = ''250ms'', cs_MaxConcurrency = 8, cs_OnTimeout = [],
       cs_OnOverload = ''allow'', cs_TimeoutDuration = 0\<rparr>)],
     cfg_Identity = \<lparr>ic_Enabled = False, ic_Address = [], ic_CAFile = [], ic_ServerName = [], ic_TokenFile = [],
       ic_Insecure = False\<rparr>\<rparr>"

definition ex_parse :: "(config_error, Config) result" where
  "ex_parse = ParseBytes (\<lambda>_. Some ex_config) (\<lambda>_. None) (\<lambda>_. []) []"

lemma ex_parse_ok: "is_ok ex_parse"
  by code_simp


end
