(* ===== verification/Chain_Registry.thy ===== *)
theory Chain_Registry
  imports Chain_Executor Config
begin

text \<open>
  Reference-counted policy snapshots (\<^verbatim>\<open>internal/engine/registry.go\<close>). Streams acquire the
  current snapshot and release it when they end; a reload swaps in a new snapshot and retires the
  old one, whose cleanup is to run when nobody uses it any more. The operations are atomic
  accesses to shared counters, so they are modelled as the steps of an interleaving relation: each
  atomic access is one step, and a thread between two of its accesses is a pending entry.
\<close>

subsection \<open>Snapshot data\<close>

record 'w snapshot_data =
  sd_Config :: "Config option"
  sd_Chains :: "string \<rightharpoonup> 'w Chain"
  sd_FilterNames :: "string \<rightharpoonup> string list"

definition filter_label :: "nat \<Rightarrow> FilterConfig \<Rightarrow> string" where
  "filter_label i f = (if fc_Name f \<noteq> [] then fc_Name f else show_nat i @ '':'' @ fc_Type f)"

definition NewSnapshot :: "Config option \<Rightarrow> (string \<rightharpoonup> 'w Chain) \<Rightarrow> 'w snapshot_data" where
  "NewSnapshot cfg chs = \<lparr>sd_Config = cfg, sd_Chains = chs,
     sd_FilterNames =
       (case cfg of
          None \<Rightarrow> Map.empty
        | Some c \<Rightarrow> (\<lambda>ch. map_option (\<lambda>fs. map (\<lambda>i. filter_label i (fs ! i)) [0..<length fs]) (cfg_Chains c ch)))\<rparr>"

definition FilterName :: "'w snapshot_data \<Rightarrow> string \<Rightarrow> int \<Rightarrow> string" where
  "FilterName s chain idx =
     (if idx < 0 then ''engine''
      else (let names = (case sd_FilterNames s chain of Some ns \<Rightarrow> ns | None \<Rightarrow> []) in
            if idx < int (length names) then names ! nat idx else show_int idx))"

definition registry_Get :: "'w snapshot_data \<Rightarrow> string \<Rightarrow> 'w Chain option" where
  "registry_Get s nm = sd_Chains s nm"

definition Register :: "string \<Rightarrow> 'w Chain \<Rightarrow> 'w snapshot_data \<Rightarrow> 'w snapshot_data" where
  "Register nm chain s = NewSnapshot (sd_Config s) ((sd_Chains s)(nm \<mapsto> chain))"

definition ReplaceAll :: "(string \<rightharpoonup> 'w Chain) \<Rightarrow> 'w snapshot_data \<Rightarrow> 'w snapshot_data" where
  "ReplaceAll chs s = NewSnapshot (sd_Config s) chs"

subsection \<open>Reference counting\<close>

record snap =
  sn_refs :: int
  sn_retired :: bool
  sn_cleanup :: "nat option"  \<comment> \<open>the cleanup function, by identity; None for nil\<close>
  sn_once :: bool             \<comment> \<open>\<^verbatim>\<open>cleanOnce\<close> has fired\<close>
  sn_runs :: nat              \<comment> \<open>how often the cleanup has been called\<close>

definition fresh_snap :: snap where
  "fresh_snap = \<lparr>sn_refs = 0, sn_retired = False, sn_cleanup = None, sn_once = False, sn_runs = 0\<rparr>"

text \<open>Threads between two atomic accesses of \<^verbatim>\<open>Release\<close>, \<^verbatim>\<open>retire\<close> and \<^verbatim>\<open>runCleanup\<close>.\<close>

datatype pc =
    RelZero nat                  \<comment> \<open>\<^verbatim>\<open>refs.Add(-1)\<close> returned 0, before \<^verbatim>\<open>retired.Load()\<close>\<close>
  | Retire nat "nat option"      \<comment> \<open>swapped out, before \<^verbatim>\<open>retired.Store(true)\<close>\<close>
  | RetireCheck nat              \<comment> \<open>after \<^verbatim>\<open>retired.Store(true)\<close>, before \<^verbatim>\<open>refs.Load()\<close>\<close>
  | RunCleanup nat               \<comment> \<open>about to call \<^verbatim>\<open>runCleanup\<close>\<close>

record registry =
  reg_current :: nat
  reg_next :: nat                \<comment> \<open>the next fresh snapshot\<close>
  reg_snaps :: "nat \<Rightarrow> snap"
  reg_held :: "nat \<Rightarrow> nat"      \<comment> \<open>how many streams hold a snapshot\<close>
  reg_pend :: "pc multiset"

definition NewChainRegistry :: registry where
  "NewChainRegistry = \<lparr>reg_current = 0, reg_next = 1, reg_snaps = (\<lambda>_. fresh_snap),
     reg_held = (\<lambda>_. 0), reg_pend = {#}\<rparr>"

definition add_refs :: "int \<Rightarrow> nat \<Rightarrow> registry \<Rightarrow> registry" where
  "add_refs d s r = r\<lparr>reg_snaps := (reg_snaps r)(s := (reg_snaps r s)\<lparr>sn_refs := sn_refs (reg_snaps r s) + d\<rparr>)\<rparr>"

definition Acquire :: "registry \<Rightarrow> registry" where
  "Acquire r = (let s = reg_current r in
     (add_refs 1 s r)\<lparr>reg_held := (reg_held r)(s := Suc (reg_held r s))\<rparr>)"

definition Release_dec :: "nat \<Rightarrow> registry \<Rightarrow> registry" where
  "Release_dec s r = (let r1 = (add_refs (-1) s r)\<lparr>reg_held := (reg_held r)(s := reg_held r s - 1)\<rparr> in
     if sn_refs (reg_snaps r1 s) = 0 then r1\<lparr>reg_pend := add_mset (RelZero s) (reg_pend r1)\<rparr> else r1)"

definition Release_check :: "nat \<Rightarrow> registry \<Rightarrow> registry" where
  "Release_check s r = (let r1 = r\<lparr>reg_pend := reg_pend r - {#RelZero s#}\<rparr> in
     if sn_retired (reg_snaps r s) then r1\<lparr>reg_pend := add_mset (RunCleanup s) (reg_pend r1)\<rparr> else r1)"

definition Swap :: "nat option \<Rightarrow> registry \<Rightarrow> registry" where
  "Swap cl r = r\<lparr>reg_current := reg_next r, reg_next := Suc (reg_next r),
     reg_pend := add_mset (Retire (reg_current r) cl) (reg_pend r)\<rparr>"

definition retire_store :: "nat \<Rightarrow> nat option \<Rightarrow> registry \<Rightarrow> registry" where
  "retire_store s cl r = r\<lparr>reg_snaps := (reg_snaps r)(s := (reg_snaps r s)\<lparr>sn_cleanup := cl, sn_retired := True\<rparr>),
     reg_pend := add_mset (RetireCheck s) (reg_pend r - {#Retire s cl#})\<rparr>"

definition retire_check :: "nat \<Rightarrow> registry \<Rightarrow> registry" where
  "retire_check s r = (let r1 = r\<lparr>reg_pend := reg_pend r - {#RetireCheck s#}\<rparr> in
     if sn_refs (reg_snaps r s) = 0 then r1\<lparr>reg_pend := add_mset (RunCleanup s) (reg_pend r1)\<rparr> else r1)"

definition once_do :: "snap \<Rightarrow> snap" where
  "once_do sn = (if sn_once sn then sn
     else sn\<lparr>sn_once := True, sn_runs := sn_runs sn + (if sn_cleanup sn = None then 0 else 1)\<rparr>)"

definition runCleanup :: "nat \<Rightarrow> registry \<Rightarrow> registry" where
  "runCleanup s r = r\<lparr>reg_snaps := (reg_snaps r)(s := once_do (reg_snaps r s)),
     reg_pend := reg_pend r - {#RunCleanup s#}\<rparr>"

text \<open>
  The interleaving. With \<open>guarded\<close>, a reload only swaps while no \<^verbatim>\<open>Release\<close> of the outgoing snapshot
  is between its decrement and its look at \<^verbatim>\<open>retired\<close>; the code has no such guard.
\<close>

inductive reg_step :: "bool \<Rightarrow> registry \<Rightarrow> registry \<Rightarrow> bool" for guarded where
  acquire: "reg_step guarded r (Acquire r)"
| release: "reg_held r s > 0 \<Longrightarrow> reg_step guarded r (Release_dec s r)"
| release_check: "RelZero s \<in># reg_pend r \<Longrightarrow> reg_step guarded r (Release_check s r)"
| swap: "(guarded \<longrightarrow> RelZero (reg_current r) \<notin># reg_pend r) \<Longrightarrow> reg_step guarded r (Swap cl r)"
| retire: "Retire s cl \<in># reg_pend r \<Longrightarrow> reg_step guarded r (retire_store s cl r)"
| retire_check: "RetireCheck s \<in># reg_pend r \<Longrightarrow> reg_step guarded r (retire_check s r)"
| cleanup: "RunCleanup s \<in># reg_pend r \<Longrightarrow> reg_step guarded r (runCleanup s r)"

inductive reg_reachable :: "bool \<Rightarrow> registry \<Rightarrow> bool" for guarded where
  init: "reg_reachable guarded NewChainRegistry"
| step: "reg_reachable guarded r \<Longrightarrow> reg_step guarded r r' \<Longrightarrow> reg_reachable guarded r'"

lemmas registry_ops = Acquire_def Release_dec_def Release_check_def Swap_def retire_store_def
  retire_check_def runCleanup_def once_do_def add_refs_def Let_def

subsection \<open>Invariants\<close>

definition counts_ok :: "registry \<Rightarrow> bool" where
  "counts_ok r \<longleftrightarrow> (\<forall>s. sn_refs (reg_snaps r s) = int (reg_held r s))"

text \<open>Only snapshots that were swapped out are being retired, each by one thread and once.\<close>

definition retire_ok :: "registry \<Rightarrow> bool" where
  "retire_ok r \<longleftrightarrow>
     reg_current r < reg_next r \<and>
     (\<forall>s. s \<ge> reg_next r \<or> s = reg_current r \<longrightarrow>
        \<not> sn_retired (reg_snaps r s) \<and> (\<forall>cl. Retire s cl \<notin># reg_pend r)) \<and>
     (\<forall>s. s \<ge> reg_next r \<longrightarrow> reg_held r s = 0 \<and> RelZero s \<notin># reg_pend r) \<and>
     (\<forall>s. RetireCheck s \<in># reg_pend r \<or> RunCleanup s \<in># reg_pend r \<or> sn_once (reg_snaps r s) \<longrightarrow>
        sn_retired (reg_snaps r s))"

definition runs_ok :: "registry \<Rightarrow> bool" where
  "runs_ok r \<longleftrightarrow> (\<forall>s. sn_runs (reg_snaps r s) \<le> 1 \<and> (\<not> sn_once (reg_snaps r s) \<longrightarrow> sn_runs (reg_snaps r s) = 0))"

definition not_lost :: "registry \<Rightarrow> nat \<Rightarrow> bool" where
  "not_lost r s \<longleftrightarrow>
     (sn_retired (reg_snaps r s) \<and> reg_held r s = 0 \<longrightarrow>
        sn_once (reg_snaps r s) \<or> RunCleanup s \<in># reg_pend r \<or> RetireCheck s \<in># reg_pend r \<or>
        RelZero s \<in># reg_pend r)"

definition no_lost_cleanup :: "registry \<Rightarrow> bool" where
  "no_lost_cleanup r \<longleftrightarrow> (\<forall>s. not_lost r s)"

definition unheld_ok :: "registry \<Rightarrow> bool" where
  "unheld_ok r \<longleftrightarrow>
     (\<forall>s. sn_once (reg_snaps r s) \<or> RunCleanup s \<in># reg_pend r \<or>
          s \<noteq> reg_current r \<and> RelZero s \<in># reg_pend r \<longrightarrow> reg_held r s = 0)"

lemma remove_other: "a \<noteq> b \<Longrightarrow> a \<in># M - {#b#} \<longleftrightarrow> a \<in># M"
  by (simp flip: count_greater_zero_iff)

lemma counts_init: "counts_ok NewChainRegistry" "retire_ok NewChainRegistry" "runs_ok NewChainRegistry"
  "no_lost_cleanup NewChainRegistry" "unheld_ok NewChainRegistry"
  by (simp_all add: counts_ok_def retire_ok_def runs_ok_def no_lost_cleanup_def not_lost_def unheld_ok_def
      NewChainRegistry_def fresh_snap_def)

lemma counts_step: "reg_step g r r' \<Longrightarrow> counts_ok r \<Longrightarrow> counts_ok r'"
  by (induction rule: reg_step.induct) (auto simp: counts_ok_def registry_ops)

lemma retire_step: "reg_step g r r' \<Longrightarrow> retire_ok r \<Longrightarrow> retire_ok r'"
proof (induction rule: reg_step.induct)
  case (release r s)
  then have "s < reg_next r" using not_less unfolding retire_ok_def by blast
  with release show ?case by (auto simp: retire_ok_def registry_ops)
qed (auto simp: retire_ok_def registry_ops dest: in_diffD split: if_splits)

lemma runs_step: "reg_step g r r' \<Longrightarrow> runs_ok r \<Longrightarrow> runs_ok r'"
  by (induction rule: reg_step.induct) (auto simp: runs_ok_def registry_ops)

lemma lost_step:
  assumes "reg_step g r r'" "counts_ok r" "no_lost_cleanup r"
  shows "no_lost_cleanup r'"
  unfolding no_lost_cleanup_def
proof
  fix t
  have refs: "sn_refs (reg_snaps r t) = 0 \<longleftrightarrow> reg_held r t = 0" using assms(2) by (simp add: counts_ok_def)
  have t: "not_lost r t" using assms(3) by (simp add: no_lost_cleanup_def)
  show "not_lost r' t"
    using assms(1)
  proof (cases rule: reg_step.cases)
    case (release s)
    with refs t assms(2) show ?thesis by (cases "t = s") (auto simp: not_lost_def registry_ops counts_ok_def)
  next
    case (release_check s)
    with t show ?thesis by (cases "t = s") (auto simp: not_lost_def registry_ops remove_other split: if_splits)
  next
    case (retire s cl)
    with t show ?thesis by (cases "t = s") (auto simp: not_lost_def registry_ops remove_other)
  next
    case (retire_check s)
    with refs t show ?thesis by (cases "t = s") (auto simp: not_lost_def registry_ops remove_other split: if_splits)
  next
    case (cleanup s)
    with t show ?thesis by (cases "t = s") (auto simp: not_lost_def registry_ops remove_other)
  qed (use t in \<open>auto simp: not_lost_def registry_ops\<close>)
qed

lemma unheld_step:
  "reg_step True r r' \<Longrightarrow> counts_ok r \<Longrightarrow> retire_ok r \<Longrightarrow> unheld_ok r \<Longrightarrow> unheld_ok r'"
proof (induction rule: reg_step.induct)
  case (acquire r)
  then have "\<not> sn_once (reg_snaps r (reg_current r))" "RunCleanup (reg_current r) \<notin># reg_pend r"
    by (auto simp: retire_ok_def)
  with acquire show ?case by (auto simp: unheld_ok_def registry_ops)
next
  case (release_check s r)
  then have "sn_retired (reg_snaps r s) \<Longrightarrow> s \<noteq> reg_current r" unfolding retire_ok_def by blast
  with release_check have "sn_retired (reg_snaps r s) \<Longrightarrow> reg_held r s = 0" unfolding unheld_ok_def by blast
  with release_check show ?case by (auto simp: unheld_ok_def registry_ops dest: in_diffD split: if_splits)
next
  case (swap r cl)
  then show ?case by (simp add: unheld_ok_def Swap_def) metis
next
  case (release r s)
  then show ?case by (auto simp: unheld_ok_def registry_ops counts_ok_def split: if_splits)
next
  case (retire s cl r)
  then show ?case by (auto simp: unheld_ok_def registry_ops dest: in_diffD split: if_splits)
next
  case (retire_check s r)
  then show ?case by (auto simp: unheld_ok_def registry_ops counts_ok_def dest: in_diffD split: if_splits)
next
  case (cleanup s r)
  then show ?case by (auto simp: unheld_ok_def registry_ops dest: in_diffD split: if_splits)
qed

lemma reg_reachable_ok:
  "reg_reachable g r \<Longrightarrow> counts_ok r \<and> retire_ok r \<and> runs_ok r \<and> no_lost_cleanup r"
  by (induction rule: reg_reachable.induct) (auto simp: counts_init intro: counts_step retire_step runs_step lost_step)

lemma reg_reachable_unheld: "reg_reachable True r \<Longrightarrow> unheld_ok r"
proof (induction rule: reg_reachable.induct)
  case (step r r')
  then show ?case using reg_reachable_ok unheld_step by blast
qed (rule counts_init)

subsection \<open>Properties\<close>

text \<open>C15: in every interleaving of streams and reloads the cleanup of a snapshot runs at most
  once, and only for a snapshot that was retired and is not the current one.\<close>

theorem cleanup_once_and_retired:
  assumes "reg_reachable g r"
  shows "sn_runs (reg_snaps r s) \<le> 1 \<and>
    (sn_once (reg_snaps r s) \<longrightarrow> sn_retired (reg_snaps r s) \<and> s \<noteq> reg_current r)"
  using reg_reachable_ok [OF assms] by (auto simp: runs_ok_def retire_ok_def)


text \<open>a snapshot is cleaned up only when no stream holds it, provided every reload swaps while
  no release of the outgoing snapshot is between its decrement and its look at the retired flag.\<close>

theorem cleanup_unheld_if_guarded:
  assumes "reg_reachable True r" "sn_once (reg_snaps r s)"
  shows "reg_held r s = 0"
  using reg_reachable_unheld [OF assms(1)] assms(2) by (simp add: unheld_ok_def)

text \<open>A reload with nobody in between: acquire, release, swap and the retirement of snapshot 0.\<close>

definition quiet_reload :: registry where
  "quiet_reload =
     runCleanup 0 (retire_check 0 (retire_store 0 (Some 7) (Swap (Some 7)
       (Release_check 0 (Release_dec 0 (Acquire NewChainRegistry))))))"

lemma quiet_reload_reachable: "reg_reachable g quiet_reload"
  unfolding quiet_reload_def
  by (rule reg_reachable.step, rule reg_reachable.step, rule reg_reachable.step, rule reg_reachable.step,
      rule reg_reachable.step, rule reg_reachable.step, rule reg_reachable.step, rule reg_reachable.init,
      rule reg_step.acquire, rule reg_step.release [where s = 0], simp add: registry_ops NewChainRegistry_def fresh_snap_def,
      rule reg_step.release_check [where s = 0], simp add: registry_ops NewChainRegistry_def fresh_snap_def,
      rule reg_step.swap, simp add: registry_ops NewChainRegistry_def fresh_snap_def,
      rule reg_step.retire, simp add: registry_ops NewChainRegistry_def fresh_snap_def,
      rule reg_step.retire_check, simp add: registry_ops NewChainRegistry_def fresh_snap_def,
      rule reg_step.cleanup, simp add: registry_ops NewChainRegistry_def fresh_snap_def)

lemma quiet_reload_state:
  "reg_pend quiet_reload = {#}" "sn_retired (reg_snaps quiet_reload 0)" "reg_held quiet_reload 0 = 0"
  "sn_runs (reg_snaps quiet_reload 0) = 1"
  by (simp_all add: quiet_reload_def registry_ops NewChainRegistry_def fresh_snap_def)

theorem cleanup_once_and_retired_witness:
  "sn_runs (reg_snaps quiet_reload 0) = 1 \<and> sn_runs (reg_snaps quiet_reload 0) \<le> 1"
  using cleanup_once_and_retired [OF quiet_reload_reachable, of 0] quiet_reload_state by simp


theorem cleanup_unheld_if_guarded_witness: "reg_held quiet_reload 0 = 0 \<and> sn_once (reg_snaps quiet_reload 0)"
proof -
  have "sn_once (reg_snaps quiet_reload 0)"
    by (simp add: quiet_reload_def registry_ops NewChainRegistry_def fresh_snap_def)
  with cleanup_unheld_if_guarded [OF quiet_reload_reachable] show ?thesis by blast
qed

text \<open>
  The interleaving the guard excludes: a stream's release brings the count to zero, another stream
  acquires the same snapshot, a reload retires it without cleaning up since it is held, and then the
  first release sees the retired flag and cleans up.
\<close>

definition racing_reload :: registry where
  "racing_reload =
     runCleanup 0 (Release_check 0 (retire_check 0 (retire_store 0 (Some 7) (Swap (Some 7)
       (Acquire (Release_dec 0 (Acquire NewChainRegistry)))))))"

lemma racing_reload_reachable: "reg_reachable False racing_reload"
  unfolding racing_reload_def
  by (rule reg_reachable.step, rule reg_reachable.step, rule reg_reachable.step, rule reg_reachable.step,
      rule reg_reachable.step, rule reg_reachable.step, rule reg_reachable.step, rule reg_reachable.step,
      rule reg_reachable.init,
      rule reg_step.acquire, rule reg_step.release [where s = 0], simp add: registry_ops NewChainRegistry_def fresh_snap_def,
      rule reg_step.acquire, rule reg_step.swap, simp,
      rule reg_step.retire, simp add: registry_ops NewChainRegistry_def fresh_snap_def,
      rule reg_step.retire_check, simp add: registry_ops NewChainRegistry_def fresh_snap_def,
      rule reg_step.release_check, simp add: registry_ops NewChainRegistry_def fresh_snap_def,
      rule reg_step.cleanup, simp add: registry_ops NewChainRegistry_def fresh_snap_def)

text \<open>without that condition the cleanup of a snapshot can run while a stream still holds it:
  there is an interleaving of two streams and one reload after which the cleanup has been called
  and one stream is still using the snapshot.\<close>

theorem cleanup_while_held_possible:
  "\<exists>r s. reg_reachable False r \<and> sn_runs (reg_snaps r s) = 1 \<and> reg_held r s = 1"
proof -
  have "sn_runs (reg_snaps racing_reload 0) = 1" "reg_held racing_reload 0 = 1"
    by (simp_all add: racing_reload_def registry_ops NewChainRegistry_def fresh_snap_def)
  with racing_reload_reachable show ?thesis by blast
qed

lemma FilterName_label:
  "cfg_Chains cfg c = Some fs \<Longrightarrow> i < length fs \<Longrightarrow>
   FilterName (NewSnapshot (Some cfg) chs) c (int i) = filter_label i (fs ! i)"
  by (simp add: FilterName_def NewSnapshot_def)

end
