(* ===== verification/Router.thy ===== *)
theory Router
  imports Config Request_Context
begin

text \<open>
  Route selection (\<^verbatim>\<open>internal/router/matcher.go\<close>): the first route with a matching entry decides
  the chain, otherwise the fallback of the traffic class. The properties relate the router, run on a
  loaded configuration, to a reading of the configuration as it was written.
\<close>

definition trafficMatches :: "MatchConfig \<Rightarrow> traffic \<Rightarrow> bool" where
  "trafficMatches m t =
     (if mc_CompiledTraffic m \<noteq> TrafficAny then mc_CompiledTraffic m = t
      else mc_Traffic m = [] \<or> equal_fold (mc_Traffic m) ''any'')"

definition header_matches :: "RequestContext \<Rightarrow> string \<times> HeaderMatchConfig \<Rightarrow> bool" where
  "header_matches ctx kv =
     (case kv of (k, rule) \<Rightarrow>
        (case ctx_Headers ctx k of
           None \<Rightarrow> False
         | Some v \<Rightarrow>
             if hm_Exact rule = ''*'' then True
             else if hm_Exact rule \<noteq> [] \<and> v \<noteq> hm_Exact rule then False
             else (case hm_CompiledRegex rule of None \<Rightarrow> True | Some c \<Rightarrow> c v)))"

definition matches :: "MatchConfig \<Rightarrow> RequestContext \<Rightarrow> bool" where
  "matches m ctx =
     (if \<not> trafficMatches m (ctx_Traffic ctx) then False
      else if mc_PathPrefix m \<noteq> [] \<and> \<not> has_prefix (ctx_Path ctx) (mc_PathPrefix m) then False
      else if (case mc_CompiledPathRegex m of None \<Rightarrow> False | Some c \<Rightarrow> \<not> c (ctx_Path ctx)) then False
      else if length (mc_Sources m) > 0 \<and> mc_CompiledSources m = None \<or>
              length (mc_Destinations m) > 0 \<and> mc_CompiledDestinations m = None then False
      else
        (let externalOK = (ctx_SourceWorkload ctx = None \<and> ctx_Traffic ctx \<noteq> TrafficEastWest) in
         if \<not> MatchSource (mc_CompiledSources m) (ctx_ClientAddr ctx) (ctx_SourceWorkload ctx) externalOK then False
         else if \<not> MatchDestination (mc_CompiledDestinations m) (ctx_DestinationAddr ctx) (ctx_Host ctx)
                     (ctx_DestinationServices ctx) then False
         else list_all (header_matches ctx) (mc_Headers m)))"

definition defaultChain :: "RouterConfig \<Rightarrow> traffic \<Rightarrow> string" where
  "defaultChain rc t =
     (if t = TrafficNorthSouth \<and> rc_DefaultNorthSouth rc \<noteq> [] then rc_DefaultNorthSouth rc
      else if t = TrafficEastWest \<and> rc_DefaultEastWest rc \<noteq> [] then rc_DefaultEastWest rc
      else if rc_DefaultChain rc \<noteq> [] then rc_DefaultChain rc
      else rc_Other rc)"

fun any_match :: "MatchConfig list \<Rightarrow> RequestContext \<Rightarrow> bool" where
  "any_match [] ctx = False"
| "any_match (m # ms) ctx = (if matches m ctx then True else any_match ms ctx)"

fun route_loop :: "RouteConfig list \<Rightarrow> RequestContext \<Rightarrow> (string \<times> RequestContext) option" where
  "route_loop [] ctx = None"
| "route_loop (r # rs) ctx =
     (if any_match (rt_Matches r) ctx then Some (rt_TargetChain r, ctx\<lparr>ctx_MatchedRoute := rt_Name r\<rparr>)
      else route_loop rs ctx)"

definition RouteWith :: "RouterConfig \<Rightarrow> RequestContext \<Rightarrow> string \<times> RequestContext" where
  "RouteWith rc ctx =
     (case route_loop (rc_Routes rc) ctx of
        Some r \<Rightarrow> r
      | None \<Rightarrow> (defaultChain rc (ctx_Traffic ctx), ctx))"

definition Route :: "Config option \<Rightarrow> RequestContext \<Rightarrow> string \<times> RequestContext" where
  "Route active ctx = (case active of None \<Rightarrow> ([], ctx) | Some cfg \<Rightarrow> RouteWith (cfg_Router cfg) ctx)"

subsection \<open>Targets are defined\<close>

lemma route_loop_target:
  "route_loop rs ctx = Some (c, ctx') \<Longrightarrow> \<exists>r \<in> set rs. c = rt_TargetChain r \<and> ctx_MatchedRoute ctx' = rt_Name r"
  by (induction rs) (auto split: if_splits)

lemma RouteWith_defined:
  assumes "references_defined cfg" "RouteWith (cfg_Router cfg) ctx = (c, ctx')"
  shows "c = [] \<or> c \<in> dom (cfg_Chains cfg)"
proof (cases "route_loop (rc_Routes (cfg_Router cfg)) ctx")
  case None
  with assms show ?thesis by (auto simp: RouteWith_def defaultChain_def references_defined_def split: if_splits)
next
  case (Some p)
  with assms route_loop_target [of "rc_Routes (cfg_Router cfg)" ctx c ctx'] show ?thesis
    by (auto simp: RouteWith_def references_defined_def)
qed

text \<open>with a configuration that loaded, routing never names a chain that is not defined: the
  result is a defined chain, or empty, and it is empty only when no route matched and no fallback
  applies.\<close>

theorem routing_target_defined:
  assumes "ParseBytes un re env data = Ok cfg" "RouteWith (cfg_Router cfg) ctx = (c, ctx')"
  shows "(c \<in> dom (cfg_Chains cfg) \<or> c = []) \<and>
    (c = [] \<longrightarrow> rc_DefaultChain (cfg_Router cfg) = [] \<and> rc_Other (cfg_Router cfg) = [] \<and>
       (\<forall>r \<in> set (rc_Routes (cfg_Router cfg)). \<not> any_match (rt_Matches r) ctx))"
proof -
  have refs: "references_defined cfg"
    using assms(1) by (elim ParseBytes_OkE) (simp add: validateChainReferences_Ok)
  have none: "route_loop rs ctx = None \<longleftrightarrow> (\<forall>r \<in> set rs. \<not> any_match (rt_Matches r) ctx)" for rs
    by (induction rs) auto
  have "c = [] \<Longrightarrow> route_loop (rc_Routes (cfg_Router cfg)) ctx = None \<and>
      rc_DefaultChain (cfg_Router cfg) = [] \<and> rc_Other (cfg_Router cfg) = []"
    using assms(2) refs route_loop_target [of "rc_Routes (cfg_Router cfg)" ctx c ctx']
    by (auto simp: RouteWith_def defaultChain_def references_defined_def split: option.splits if_splits)
  with RouteWith_defined [OF refs assms(2)] none show ?thesis by blast
qed

definition ex_request :: RequestContext where
  "ex_request = new_context\<lparr>ctx_Path := ''/api/v1'', ctx_Traffic := TrafficEastWest,
     ctx_ClientAddr := AddrV4 0x0a010002, ctx_Headers := [''x-team'' \<mapsto> ''blue'']\<rparr>"

lemma ex_request_routed:
  "(case ex_parse of Inl _ \<Rightarrow> False
     | Inr cfg \<Rightarrow> fst (RouteWith (cfg_Router cfg) ex_request) = ''main'')"
  by code_simp

theorem routing_target_defined_witness:
  "\<exists>cfg. ex_parse = Ok cfg \<and> fst (RouteWith (cfg_Router cfg) ex_request) = ''main'' \<and> ''main'' \<in> dom (cfg_Chains cfg)"
proof -
  obtain cfg where cfg: "ex_parse = Ok cfg" "fst (RouteWith (cfg_Router cfg) ex_request) = ''main''"
    using ex_request_routed by (auto split: sum.splits)
  obtain ctx' where "RouteWith (cfg_Router cfg) ex_request = (''main'', ctx')"
    using cfg(2) by (metis prod.collapse)
  from routing_target_defined [OF cfg(1) [unfolded ex_parse_def] this] have "''main'' \<in> dom (cfg_Chains cfg)"
    by simp
  with cfg show ?thesis by blast
qed

subsection \<open>The reading of a configuration\<close>

text \<open>
  A match entry as written, before compilation: traffic class, path, selectors and headers. Header
  names are compared in lower case.
\<close>

definition header_reading :: "(string \<Rightarrow> regex option) \<Rightarrow> RequestContext \<Rightarrow> string \<times> HeaderMatchConfig \<Rightarrow> bool" where
  "header_reading re ctx kv \<longleftrightarrow>
     (\<exists>v. ctx_Headers ctx (fst kv) = Some v \<and>
        (hm_Exact (snd kv) = ''*'' \<or>
         (hm_Exact (snd kv) = [] \<or> v = hm_Exact (snd kv)) \<and>
         (hm_RegexPattern (snd kv) = [] \<or> (\<exists>c. re (hm_RegexPattern (snd kv)) = Some c \<and> c v))))"

definition match_reading :: "(string \<Rightarrow> regex option) \<Rightarrow> RequestContext \<Rightarrow> MatchConfig \<Rightarrow> bool" where
  "match_reading re ctx m \<longleftrightarrow>
     (mc_Traffic m = [] \<or> equal_fold (mc_Traffic m) ''any'' \<or>
      ctx_Traffic ctx \<noteq> TrafficAny \<and> ParseTraffic (mc_Traffic m) = Ok (ctx_Traffic ctx)) \<and>
     prefix (mc_PathPrefix m) (ctx_Path ctx) \<and>
     (mc_PathRegexPattern m = [] \<or> (\<exists>c. re (mc_PathRegexPattern m) = Some c \<and> c (ctx_Path ctx))) \<and>
     (mc_Sources m = [] \<or>
      (\<exists>raw \<in> set (mc_Sources m). \<exists>sel. Parse raw Source = Ok sel \<and>
         denotes_source sel (ctx_ClientAddr ctx) (ctx_SourceWorkload ctx) (ctx_Traffic ctx \<noteq> TrafficEastWest))) \<and>
     (mc_Destinations m = [] \<or>
      (\<exists>raw \<in> set (mc_Destinations m). \<exists>sel. Parse raw Destination = Ok sel \<and>
         denotes_destination sel (ctx_DestinationAddr ctx) (ctx_Host ctx) (ctx_DestinationServices ctx))) \<and>
     (\<forall>kv \<in> set (lower_headers (mc_Headers m)). header_reading re ctx kv)"

text \<open>Fields tagged \<^verbatim>\<open>yaml:"-"\<close> are left at their zero value by the decoder.\<close>

definition undecoded :: "Config \<Rightarrow> bool" where
  "undecoded cfg \<longleftrightarrow>
     (\<forall>r \<in> set (rc_Routes (cfg_Router cfg)). \<forall>m \<in> set (rt_Matches r).
        mc_CompiledPathRegex m = None \<and> (\<forall>kv \<in> set (mc_Headers m). hm_CompiledRegex (snd kv) = None))"

lemma update_values: "set (map snd (AList.update k v al)) \<subseteq> insert v (set (map snd al))"
  by (induction al) auto

lemma lower_headers_values: "kv \<in> set (lower_headers hs) \<Longrightarrow> \<exists>k. (k, snd kv) \<in> set hs"
proof -
  have "set (map snd (fold (\<lambda>(k, v) m. AList.update (to_lower k) v m) hs acc)) \<subseteq> set (map snd acc) \<union> set (map snd hs)" for acc
  proof (induction hs arbitrary: acc)
    case (Cons h hs)
    obtain k v where h: "h = (k, v)" by (cases h)
    show ?case using Cons [of "AList.update (to_lower k) v acc"] update_values [of "to_lower k" v acc] h by auto
  qed simp
  from this [of "[]"] show "kv \<in> set (lower_headers hs) \<Longrightarrow> ?thesis" by (force simp: lower_headers_def)
qed

lemma compile_header_reading:
  assumes "compile_header re r j kv = Ok kv'" "hm_CompiledRegex (snd kv) = None"
  shows "header_matches ctx kv' \<longleftrightarrow> header_reading re ctx kv"
  using assms by (cases kv) (auto simp: compile_header_def header_matches_def header_reading_def
      split: if_splits option.splits)

lemma compile_headers_reading:
  assumes "map_result (compile_header re r j) hs = Ok hs'" "\<forall>kv \<in> set hs. hm_CompiledRegex (snd kv) = None"
  shows "list_all (header_matches ctx) hs' \<longleftrightarrow> (\<forall>kv \<in> set hs. header_reading re ctx kv)"
  using assms
proof (induction hs arbitrary: hs')
  case (Cons kv hs)
  then show ?case by (auto simp: compile_header_reading split: sum.splits)
qed simp

lemma denotes_source_no_workload:
  "denotes_source sel a wo (wo = None \<and> e) \<longleftrightarrow> denotes_source sel a wo e"
  by (simp add: denotes_source_def split: option.split)

lemma source_reading_iff:
  "Compile xs Source allow = Ok so \<Longrightarrow>
   MatchSource so a wo (wo = None \<and> e) \<longleftrightarrow>
     xs = [] \<or> (\<exists>raw \<in> set xs. \<exists>sel. Parse raw Source = Ok sel \<and> denotes_source sel a wo e)"
  by (simp add: MatchSource_reading denotes_source_no_workload)

lemma trafficMatches_reading:
  assumes "ParseTraffic (mc_Traffic m) = Ok (mc_CompiledTraffic m)"
  shows "trafficMatches m t \<longleftrightarrow>
    mc_Traffic m = [] \<or> equal_fold (mc_Traffic m) ''any'' \<or> t \<noteq> TrafficAny \<and> ParseTraffic (mc_Traffic m) = Ok t"
proof -
  have any: "mc_CompiledTraffic m = TrafficAny" if "mc_Traffic m = [] \<or> equal_fold (mc_Traffic m) ''any''"
    using that
  proof
    assume "mc_Traffic m = []"
    with assms show ?thesis by (simp add: ParseTraffic_def trim_space_def)
  next
    assume "equal_fold (mc_Traffic m) ''any''"
    then have low: "to_lower (mc_Traffic m) = ''any''" by (simp add: equal_fold_def) code_simp
    obtain a b c where m: "mc_Traffic m = [a, b, c]" "lower_char a = CHR ''a''" "lower_char c = CHR ''y''"
      using low by (auto simp: to_lower_def map_eq_Cons_conv)
    have "\<not> is_space CHR ''a''" "\<not> is_space CHR ''y''" by (simp_all add: is_space_def)
    then have "\<not> is_space a" "\<not> is_space c" using m(2,3) is_space_lower by metis+
    with m have "trim_space (mc_Traffic m) = mc_Traffic m" by (intro trim_space_id) simp_all
    with assms low show ?thesis by (simp add: ParseTraffic_def)
  qed
  show ?thesis using assms any by (auto simp: trafficMatches_def)
qed

lemma matches_iff:
  "matches m ctx \<longleftrightarrow>
     trafficMatches m (ctx_Traffic ctx) \<and>
     prefix (mc_PathPrefix m) (ctx_Path ctx) \<and>
     (case mc_CompiledPathRegex m of None \<Rightarrow> True | Some c \<Rightarrow> c (ctx_Path ctx)) \<and>
     ((mc_Sources m = [] \<or> mc_CompiledSources m \<noteq> None) \<and>
      (mc_Destinations m = [] \<or> mc_CompiledDestinations m \<noteq> None)) \<and>
     MatchSource (mc_CompiledSources m) (ctx_ClientAddr ctx) (ctx_SourceWorkload ctx)
       (ctx_SourceWorkload ctx = None \<and> ctx_Traffic ctx \<noteq> TrafficEastWest) \<and>
     MatchDestination (mc_CompiledDestinations m) (ctx_DestinationAddr ctx) (ctx_Host ctx) (ctx_DestinationServices ctx) \<and>
     list_all (header_matches ctx) (mc_Headers m)"
  unfolding matches_def Let_def has_prefix_iff by (cases "mc_CompiledPathRegex m") auto

lemma compile_match_reading:
  assumes ok: "compile_match re allow r (j, m) = Ok m'"
    and un: "mc_CompiledPathRegex m = None" "\<forall>kv \<in> set (mc_Headers m). hm_CompiledRegex (snd kv) = None"
  shows "matches m' ctx \<longleftrightarrow> match_reading re ctx m"
proof -
  from ok obtain t src dst rx hs where
    t: "ParseTraffic (mc_Traffic m) = Ok t" and src: "Compile (mc_Sources m) Source allow = Ok src"
    and dst: "Compile (mc_Destinations m) Destination allow = Ok dst"
    and rx: "rx = (if mc_PathRegexPattern m = [] then None else re (mc_PathRegexPattern m))"
      "mc_PathRegexPattern m \<noteq> [] \<longrightarrow> rx \<noteq> None"
    and hs: "map_result (compile_header re r j) (lower_headers (mc_Headers m)) = Ok hs"
    and m': "m' = m\<lparr>mc_CompiledTraffic := t, mc_CompiledSources := src, mc_CompiledDestinations := dst,
               mc_CompiledPathRegex := rx, mc_Headers := hs\<rparr>"
    using un(1)
    by (auto simp: compile_match_def match_Compile_def bind_result_eq_Ok split: sum.splits option.splits if_splits)
  have headers: "list_all (header_matches ctx) hs \<longleftrightarrow> (\<forall>kv \<in> set (lower_headers (mc_Headers m)). header_reading re ctx kv)"
  proof (rule compile_headers_reading [OF hs], rule ballI)
    fix kv assume "kv \<in> set (lower_headers (mc_Headers m))"
    then obtain k where "(k, snd kv) \<in> set (mc_Headers m)" using lower_headers_values by blast
    with un(2) show "hm_CompiledRegex (snd kv) = None" by (metis snd_conv)
  qed
  have compiled: "(mc_Sources m = [] \<or> src \<noteq> None) \<and> (mc_Destinations m = [] \<or> dst \<noteq> None)"
    using src dst by (auto simp: Compile_def split: if_splits sum.splits)
  have traffic: "trafficMatches m' (ctx_Traffic ctx) \<longleftrightarrow> mc_Traffic m = [] \<or> equal_fold (mc_Traffic m) ''any'' \<or>
      ctx_Traffic ctx \<noteq> TrafficAny \<and> ParseTraffic (mc_Traffic m) = Ok (ctx_Traffic ctx)"
    using trafficMatches_reading [of m'] t by (simp add: m')
  have regex: "(case rx of None \<Rightarrow> True | Some c \<Rightarrow> c (ctx_Path ctx)) \<longleftrightarrow>
      mc_PathRegexPattern m = [] \<or> (\<exists>c. re (mc_PathRegexPattern m) = Some c \<and> c (ctx_Path ctx))"
    using rx by (auto split: if_splits option.splits)
  have "matches m' ctx \<longleftrightarrow>
      trafficMatches m' (ctx_Traffic ctx) \<and> prefix (mc_PathPrefix m) (ctx_Path ctx) \<and>
      (case rx of None \<Rightarrow> True | Some c \<Rightarrow> c (ctx_Path ctx)) \<and>
      ((mc_Sources m = [] \<or> src \<noteq> None) \<and> (mc_Destinations m = [] \<or> dst \<noteq> None)) \<and>
      MatchSource src (ctx_ClientAddr ctx) (ctx_SourceWorkload ctx)
        (ctx_SourceWorkload ctx = None \<and> ctx_Traffic ctx \<noteq> TrafficEastWest) \<and>
      MatchDestination dst (ctx_DestinationAddr ctx) (ctx_Host ctx) (ctx_DestinationServices ctx) \<and>
      list_all (header_matches ctx) hs"
    unfolding matches_iff by (simp add: m')
  then show ?thesis
    unfolding match_reading_def traffic regex headers source_reading_iff [OF src] MatchDestination_reading [OF dst]
    using compiled by blast
qed

lemma any_match_iff: "any_match ms ctx \<longleftrightarrow> (\<exists>m \<in> set ms. matches m ctx)"
  by (induction ms) auto

lemma compile_matches_reading:
  assumes "map_result (compile_match re allow r) (List.enumerate j ms) = Ok ms'"
    and "\<forall>m \<in> set ms. mc_CompiledPathRegex m = None \<and> (\<forall>kv \<in> set (mc_Headers m). hm_CompiledRegex (snd kv) = None)"
  shows "any_match ms' ctx \<longleftrightarrow> (\<exists>m \<in> set ms. match_reading re ctx m)"
  using assms
proof (induction ms arbitrary: j ms')
  case (Cons m ms)
  then obtain m' rest where ok: "compile_match re allow r (j, m) = Ok m'"
    and rest: "map_result (compile_match re allow r) (List.enumerate (Suc j) ms) = Ok rest" "ms' = m' # rest"
    by (auto split: sum.splits)
  have "matches m' ctx \<longleftrightarrow> match_reading re ctx m"
    using compile_match_reading [OF ok] Cons.prems(2) by simp
  with Cons.IH [OF rest(1)] Cons.prems(2) rest(2) show ?case by simp
qed simp

lemma compile_route_Ok:
  "compile_route re allow r = Ok r' \<longleftrightarrow>
     (\<exists>ms. map_result (compile_match re allow (rt_Name r)) (List.enumerate 0 (rt_Matches r)) = Ok ms \<and>
           r' = r\<lparr>rt_Matches := ms\<rparr>)"
  by (auto simp: compile_route_def bind_result_eq_Ok)

lemma compile_routes_reading:
  assumes "map_result (compile_route re allow) rs = Ok rs'"
    and "\<forall>r \<in> set rs. \<forall>m \<in> set (rt_Matches r). mc_CompiledPathRegex m = None \<and>
           (\<forall>kv \<in> set (mc_Headers m). hm_CompiledRegex (snd kv) = None)"
  shows "route_loop rs' ctx =
    map_option (\<lambda>r. (rt_TargetChain r, ctx\<lparr>ctx_MatchedRoute := rt_Name r\<rparr>))
      (find (\<lambda>r. \<exists>m \<in> set (rt_Matches r). match_reading re ctx m) rs)"
  using assms
proof (induction rs arbitrary: rs')
  case (Cons r rs)
  then obtain r' rest ms where
    ms: "map_result (compile_match re allow (rt_Name r)) (List.enumerate 0 (rt_Matches r)) = Ok ms"
    and r': "r' = r\<lparr>rt_Matches := ms\<rparr>"
    and rest: "map_result (compile_route re allow) rs = Ok rest" "rs' = r' # rest"
    by (auto simp: compile_route_Ok split: sum.splits)
  have "any_match ms ctx \<longleftrightarrow> (\<exists>m \<in> set (rt_Matches r). match_reading re ctx m)"
    using compile_matches_reading [OF ms] Cons.prems(2) by simp
  with Cons.IH [OF rest(1)] Cons.prems(2) rest(2) r' show ?case by simp
qed simp


lemma ex_config_undecoded: "undecoded ex_config"
  by (simp add: undecoded_def ex_config_def ex_router_def ex_match_def)


subsection \<open>External callers\<close>

lemma Parse_external: "Parse ''external'' Source = Ok (new_selector KindExternal [])"
  by code_simp

text \<open>an entry whose only source is \<^verbatim>\<open>external\<close> never matches an east-west request and never
  matches a caller known to the identity map; a caller that is merely missing from the map does not
  count as external.\<close>

theorem external_excludes_mesh_callers:
  assumes "mc_Sources m = [''external'']" "Compile (mc_Sources m) Source allow = Ok (mc_CompiledSources m)"
    and "ctx_Traffic ctx = TrafficEastWest \<or> ctx_SourceWorkload ctx \<noteq> None"
  shows "\<not> matches m ctx"
proof -
  have "denotes_source (new_selector KindExternal []) a wo e \<longleftrightarrow> wo = None \<and> e" for a wo e
    by (auto simp: denotes_source_def denotes_net_def denotes_workload_def new_selector_def split: option.splits)
  with assms(1,3) show ?thesis
    unfolding matches_iff MatchSource_reading [OF assms(2)] by (auto simp: Parse_external)
qed

definition ex_external :: MatchConfig where
  "ex_external = ex_match\<lparr>mc_Traffic := [], mc_Sources := [''external''],
     mc_CompiledSources := Some (add_selector (new_selector KindExternal []) empty_set), mc_Headers := []\<rparr>"

theorem external_excludes_mesh_callers_witness:
  "matches ex_external (ex_request\<lparr>ctx_Traffic := TrafficNorthSouth\<rparr>) \<and> \<not> matches ex_external ex_request"
proof
  show "matches ex_external (ex_request\<lparr>ctx_Traffic := TrafficNorthSouth\<rparr>)" by code_simp
  have "Compile [''external''] Source True = Ok (Some (add_selector (new_selector KindExternal []) empty_set))"
    by (simp add: Compile_def Parse_external Workload_def new_selector_def)
  then show "\<not> matches ex_external ex_request"
    using external_excludes_mesh_callers [of ex_external True ex_request] by (simp add: ex_external_def ex_request_def)
qed

subsection \<open>Spellings of the traffic class\<close>

text \<open>the loader and the router disagree on spellings of the class \<^verbatim>\<open>any\<close>: an entry written
  with \<^verbatim>\<open>traffic: any_\<close> (or with surrounding blanks) loads as class any, yet it matches no request
  at all.\<close>

theorem traffic_any_spelling_never_matches:
  assumes "match_Compile allow (m\<lparr>mc_Traffic := ''any_''\<rparr>) = Ok m'"
  shows "mc_CompiledTraffic m' = TrafficAny \<and> \<not> matches m' ctx"
proof -
  have "ParseTraffic ''any_'' = Ok TrafficAny" "\<not> equal_fold ''any_'' ''any''" by code_simp+
  with assms show ?thesis
    by (auto simp: match_Compile_def matches_def trafficMatches_def split: sum.splits)
qed

theorem traffic_any_spelling_never_matches_witness:
  "\<exists>m'. match_Compile False (ex_match\<lparr>mc_Traffic := ''any_''\<rparr>) = Ok m' \<and> \<not> matches m' ex_request"
proof -
  have "is_ok (match_Compile False (ex_match\<lparr>mc_Traffic := ''any_''\<rparr>))" by code_simp
  then obtain m' where "match_Compile False (ex_match\<lparr>mc_Traffic := ''any_''\<rparr>) = Ok m'"
    by (auto simp: is_ok_def split: sum.splits)
  with traffic_any_spelling_never_matches [OF this] show ?thesis by blast
qed

end
