(* ===== verification/Ext_Proc_Server.thy ===== *)
theory Ext_Proc_Server
  imports Chain_Registry Router Client_IP
begin

text \<open>
  The ext_proc stream handler (\<^verbatim>\<open>internal/grpc\<close>: \<^verbatim>\<open>handlers.go\<close>, \<^verbatim>\<open>mutators.go\<close>, \<^verbatim>\<open>server.go\<close>,
  \<^verbatim>\<open>shutdown.go\<close>). One stream carries the messages of one HTTP request; its state is the routing
  decision, the request context and what the server shares: the in-flight counters of the chain
  limiter, the metrics written so far, and the state \<open>'w\<close> of the filters. Envoy's protobuf messages
  are datatypes. Whether a chain's deadline has passed after the filters ran is a function of \<open>'w\<close>.
\<close>

subsection \<open>Messages\<close>

text \<open>An entry of Envoy's header map: key, value and raw value.\<close>

type_synonym header_entry = "string \<times> string \<times> string"

datatype message =
    RequestHeadersMsg "(string \<rightharpoonup> string) option list" "header_entry list option" bool
  | RequestBodyMsg string
  | RequestTrailersMsg "header_entry list option"
  | ResponseHeadersMsg "header_entry list option"
  | ResponseBodyMsg string
  | ResponseTrailersMsg "header_entry list option"
  | OtherMsg

record header_mutation =
  hmut_Set :: "header_option list"
  hmut_Remove :: "string list"

datatype body_mutation = ClearBody | SetBody string

datatype body_mode = BodyNone | BodyBuffered

datatype trailer_mode = TrailerSkip | TrailerSend

record processing_mode =
  pm_RequestBody :: body_mode
  pm_ResponseBody :: body_mode
  pm_RequestTrailer :: trailer_mode
  pm_ResponseTrailer :: trailer_mode

datatype response =
    ImmediateResponse int "header_mutation option" string
  | RequestHeadersResponse "header_mutation option" "processing_mode option"
  | RequestBodyResponse "header_mutation option" "body_mutation option"
  | RequestTrailersResponse "header_mutation option"
  | ResponseHeadersResponse "header_mutation option" "processing_mode option"
  | ResponseBodyResponse "body_mutation option"
  | ResponseTrailersResponse "header_mutation option"

subsection \<open>Mutations\<close>

definition header_option_of :: "header \<Rightarrow> header_option" where
  "header_option_of h = \<lparr>ho_Key = h_Key h, ho_RawValue = h_Value h\<rparr>"

definition buildHeaderMutation ::
  "header list \<Rightarrow> string list \<Rightarrow> RequestContext \<Rightarrow> header_mutation option \<times> RequestContext" where
  "buildHeaderMutation hs removes ctx =
     (if hs = [] \<and> removes = [] then (None, ctx)
      else (let opts = take 0 (ctx_SetHeaderOptions ctx) @ map header_option_of hs
            in (Some \<lparr>hmut_Set = opts, hmut_Remove = removes\<rparr>, ctx\<lparr>ctx_SetHeaderOptions := opts\<rparr>)))"

definition buildBodyMutation :: "string option \<Rightarrow> bool \<Rightarrow> body_mutation option" where
  "buildBodyMutation body modified =
     (if \<not> modified then None
      else (case body of
              None \<Rightarrow> Some ClearBody
            | Some b \<Rightarrow> if b = [] then Some ClearBody else Some (SetBody b)))"

definition buildModeOverride :: "RequestContext \<Rightarrow> processing_mode option" where
  "buildModeOverride ctx =
     (if \<not> ctx_RequestBodyRequired ctx \<and> \<not> ctx_ResponseBodyRequired ctx \<and>
         \<not> ctx_RequestTrailersRequired ctx \<and> \<not> ctx_ResponseTrailersRequired ctx then None
      else Some
        \<lparr>pm_RequestBody = (if ctx_RequestBodyRequired ctx then BodyBuffered else BodyNone),
         pm_ResponseBody = (if ctx_ResponseBodyRequired ctx then BodyBuffered else BodyNone),
         pm_RequestTrailer = (if ctx_RequestTrailersRequired ctx then TrailerSend else TrailerSkip),
         pm_ResponseTrailer = (if ctx_ResponseTrailersRequired ctx then TrailerSend else TrailerSkip)\<rparr>)"

subsection \<open>Server state\<close>

datatype outcome = OutcomeAllowed | OutcomeDenied | OutcomeAnswered | OutcomeError

datatype metric =
    UnknownSourceMetric
  | ChainRejection string string
  | AuditMetric string string int
  | DenyMetric string string int
  | RequestMetric string string outcome

record 'w server =
  srv_identity :: "index option"
  srv_limiter :: "string \<Rightarrow> int"
  srv_metrics :: "metric list"
  srv_world :: 'w

record 'w streamState =
  st_snap :: "'w snapshot_data"
  st_resolved :: bool
  st_chain :: "'w Chain"
  st_name :: string

definition new_stream :: "'w snapshot_data \<Rightarrow> 'w streamState" where
  "new_stream snap = \<lparr>st_snap = snap, st_resolved = False, st_chain = [], st_name = []\<rparr>"

definition log_metric :: "metric \<Rightarrow> 'w server \<Rightarrow> 'w server" where
  "log_metric m s = s\<lparr>srv_metrics := srv_metrics s @ [m]\<rparr>"

subsection \<open>Routing\<close>

definition stringAttribute :: "(string \<rightharpoonup> string) option list \<Rightarrow> string \<Rightarrow> string" where
  "stringAttribute attrs key = attribute key attrs"

text \<open>\<^verbatim>\<open>vals\<close> are the values of the \<^verbatim>\<open>x-hypergate-traffic\<close> metadata of the stream.\<close>

definition trafficFromContext :: "string list \<Rightarrow> traffic" where
  "trafficFromContext vals =
     (case vals of
        [] \<Rightarrow> TrafficAny
      | v # _ \<Rightarrow> (case ParseTraffic v of Inl _ \<Rightarrow> TrafficAny | Inr t \<Rightarrow> t))"

definition destination_services :: "index \<Rightarrow> RequestContext \<Rightarrow> string list" where
  "destination_services idx ctx =
     (case ServiceByClusterIP (Some idx) (ctx_DestinationAddr ctx) of
        Some svc \<Rightarrow> [svc_Key svc]
      | None \<Rightarrow>
          (let w = Lookup (Some idx) (ctx_DestinationAddr ctx) in
           if IsPod w then wl_Services (the w)
           else (case ServiceFromHost (Some idx) (ctx_Host ctx) of Some svc \<Rightarrow> [svc_Key svc] | None \<Rightarrow> [])))"

definition resolveIdentity :: "index option \<Rightarrow> RequestContext \<Rightarrow> RequestContext" where
  "resolveIdentity ident ctx =
     (let inferred = (ctx_Traffic ctx = TrafficAny);
          c1 = (if inferred then ctx\<lparr>ctx_Traffic := TrafficNorthSouth\<rparr> else ctx) in
      case ident of
        None \<Rightarrow> c1
      | Some idx \<Rightarrow>
          (let c2 = c1\<lparr>ctx_SourceWorkload := Lookup ident (ctx_ClientAddr c1)\<rparr>;
               c3 = (if inferred \<and> IsPod (ctx_SourceWorkload c2) then c2\<lparr>ctx_Traffic := TrafficEastWest\<rparr> else c2)
           in c3\<lparr>ctx_DestinationServices := take 0 (ctx_DestinationServices c3) @ destination_services idx c3\<rparr>))"

definition block_unavailable :: "RequestContext \<Rightarrow> RequestContext" where
  "block_unavailable = Block 503 ''Service Unavailable''"

definition resolve ::
  "'w streamState \<Rightarrow> RequestContext \<Rightarrow> 'w server \<Rightarrow> 'w streamState \<times> RequestContext \<times> 'w server" where
  "resolve st ctx s =
     (if st_resolved st then (st, ctx, s)
      else
        (let st1 = st\<lparr>st_resolved := True\<rparr> in
         case sd_Config (st_snap st1) of
           None \<Rightarrow> (st1, block_unavailable ctx, s)
         | Some cfg \<Rightarrow>
             (let c1 = resolveIdentity (srv_identity s) ctx in
              if srv_identity s \<noteq> None \<and> ctx_Traffic c1 = TrafficEastWest \<and> ctx_SourceWorkload c1 = None \<and>
                 rc_UnknownSource (cfg_Router cfg) \<noteq> ''default''
              then (st1, block_unavailable c1, log_metric UnknownSourceMetric s)
              else
                (let (nm, c2) = RouteWith (cfg_Router cfg) c1; st2 = st1\<lparr>st_name := nm\<rparr> in
                 if nm = [] then (st2, c2, s)
                 else (case sd_Chains (st_snap st2) nm of
                         None \<Rightarrow> (st2, block_unavailable c2, s)
                       | Some chain \<Rightarrow> (st2\<lparr>st_chain := chain\<rparr>, c2, s))))))"

subsection \<open>Running a chain\<close>

definition limiter_acquire :: "string \<Rightarrow> int \<Rightarrow> (string \<Rightarrow> int) \<Rightarrow> bool \<times> (string \<Rightarrow> int)" where
  "limiter_acquire chain mx l =
     (let l1 = l(chain := l chain + 1) in
      if l1 chain > mx then (False, l1(chain := l1 chain - 1)) else (True, l1))"

definition limiter_release :: "string \<Rightarrow> (string \<Rightarrow> int) \<Rightarrow> (string \<Rightarrow> int)" where
  "limiter_release chain l = l(chain := l chain - 1)"

definition zero_settings :: ChainSettings where
  "zero_settings = \<lparr>cs_Timeout = [], cs_MaxConcurrency = 0, cs_OnTimeout = [], cs_OnOverload = [],
     cs_TimeoutDuration = 0\<rparr>"

definition settings_of :: "'w snapshot_data \<Rightarrow> string \<Rightarrow> ChainSettings" where
  "settings_of snap nm =
     (case sd_Config snap of
        None \<Rightarrow> zero_settings
      | Some cfg \<Rightarrow> (case map_of (cfg_ChainSettings cfg) nm of Some c \<Rightarrow> c | None \<Rightarrow> zero_settings))"

text \<open>The part of \<^verbatim>\<open>run\<close> between acquiring and releasing the concurrency slot. \<open>expired\<close> tells from the
  state after the filters ran whether the deadline of the chain has passed. The derived context
  replaces \<^verbatim>\<open>Ctx\<close> while the filters run and is replaced again by its parent.\<close>

definition run_limited ::
  "('w \<Rightarrow> bool) \<Rightarrow> ChainSettings \<Rightarrow> 'w streamState \<Rightarrow> RequestContext \<Rightarrow> Phase \<Rightarrow> 'w server \<Rightarrow>
   RequestContext \<times> 'w server" where
  "run_limited expired limits st ctx phase s =
     (if cs_TimeoutDuration limits > 0 then
        (let parent = ctx_Ctx ctx;
             (err, c, w) = Execute (ctx\<lparr>ctx_Ctx := map_option Suc parent\<rparr>) (st_chain st) phase (srv_world s);
             s1 = s\<lparr>srv_world := w\<rparr>;
             back = (\<lambda>c. c\<lparr>ctx_Ctx := parent\<rparr>) in
         if err \<noteq> None \<and> expired w then
           (let s2 = log_metric (ChainRejection (st_name st) ''timeout'') s1 in
            if cs_OnTimeout limits = ''allow'' then
              (back (c\<lparr>ctx_Blocked := False, ctx_FilterFailed := False, ctx_ResponseStatus := 0,
                       ctx_ResponseBody := []\<rparr>), s2)
            else (back (block_unavailable (c\<lparr>ctx_FilterFailed := False\<rparr>)), s2))
         else (back c, s1))
      else
        (let (err, c, w) = Execute ctx (st_chain st) phase (srv_world s)
         in (c, s\<lparr>srv_world := w\<rparr>)))"

definition run ::
  "('w \<Rightarrow> bool) \<Rightarrow> 'w streamState \<Rightarrow> RequestContext \<Rightarrow> Phase \<Rightarrow> 'w server \<Rightarrow> RequestContext \<times> 'w server" where
  "run expired st ctx phase s =
     (if ctx_Blocked ctx \<or> st_chain st = [] then (ctx, s)
      else
        (let limits = settings_of (st_snap st) (st_name st) in
         if cs_MaxConcurrency limits > 0 then
           (let (ok, l) = limiter_acquire (st_name st) (cs_MaxConcurrency limits) (srv_limiter s);
                s1 = s\<lparr>srv_limiter := l\<rparr> in
            if \<not> ok then
              (let s2 = log_metric (ChainRejection (st_name st) ''overload'') s1 in
               if cs_OnOverload limits = ''allow'' then (ctx, s2)
               else (block_unavailable (SetHeaderDownstream ''retry-after'' ''1'' ctx), s2))
            else
              (let (c, s2) = run_limited expired limits st ctx phase s1
               in (c, s2\<lparr>srv_limiter := limiter_release (st_name st) (srv_limiter s2)\<rparr>)))
         else run_limited expired limits st ctx phase s))"

subsection \<open>Handlers\<close>

definition immediateResponse :: "RequestContext \<Rightarrow> response \<times> RequestContext" where
  "immediateResponse ctx =
     (let status = (if ctx_ResponseStatus ctx = 0 then 403 else ctx_ResponseStatus ctx);
          (hm, c) = buildHeaderMutation (ctx_ResponseHeadersToAdd ctx) [] ctx
      in (ImmediateResponse status hm (ctx_ResponseBody ctx), c))"

definition fold_header :: "header_entry \<Rightarrow> (string \<rightharpoonup> string) \<Rightarrow> (string \<rightharpoonup> string)" where
  "fold_header h dst =
     (case h of (k0, v0, raw) \<Rightarrow>
        let key = to_lower k0;
            v = (if raw \<noteq> [] then raw else v0);
            v' = (case dst key of
                    Some prev \<Rightarrow> if prev \<noteq> [] then prev @ (if key = ''cookie'' then ''; '' else '', '') @ v else v
                  | None \<Rightarrow> v)
        in dst(key \<mapsto> v'))"

definition copyHeaders :: "(string \<rightharpoonup> string) \<Rightarrow> header_entry list option \<Rightarrow> (string \<rightharpoonup> string)" where
  "copyHeaders dst hs = (case hs of None \<Rightarrow> dst | Some es \<Rightarrow> fold fold_header es dst)"

type_synonym 'w handler_state = "'w streamState \<times> RequestContext \<times> 'w server"

text \<open>What \<^verbatim>\<open>handleRequestHeaders\<close> derives from the message before it routes.\<close>

definition prepare_request ::
  "'w streamState \<Rightarrow> (string \<rightharpoonup> string) option list \<Rightarrow> header_entry list option \<Rightarrow> bool \<Rightarrow> RequestContext \<Rightarrow> RequestContext" where
  "prepare_request st attrs hs eos ctx =
     (let hdrs = copyHeaders (ctx_Headers ctx) hs;
          hops = (case sd_Config (st_snap st) of None \<Rightarrow> 0 | Some cfg \<Rightarrow> sv_TrustedProxyHops (cfg_Server cfg));
          ip = Resolve (get_or_empty hdrs ''x-forwarded-for'') (PeerFromAttributes attrs) hops;
          dst = stringAttribute attrs ''destination.address'';
          auth = (if get_or_empty hdrs '':authority'' = [] then get_or_empty hdrs ''host''
                  else get_or_empty hdrs '':authority'')
      in ctx\<lparr>ctx_Headers := hdrs, ctx_Path := get_or_empty hdrs '':path'',
             ctx_Method := get_or_empty hdrs '':method'', ctx_RequestEndOfStream := eos,
             ctx_ClientIP := ip, ctx_ClientAddr := ParseAddr ip,
             ctx_DestinationAddress := dst, ctx_DestinationAddr := ParseAddr dst,
             ctx_Host := NormalizeHost auth\<rparr>)"

definition route_and_run ::
  "('w \<Rightarrow> bool) \<Rightarrow> Phase \<Rightarrow> (RequestContext \<Rightarrow> RequestContext) \<Rightarrow> 'w handler_state \<Rightarrow> 'w handler_state" where
  "route_and_run expired phase check hst =
     (case hst of (st, ctx, s) \<Rightarrow>
        let (st1, c1, s1) = resolve st ctx s;
            (c2, s2) = run expired st1 (check c1) phase s1
        in (st1, c2, s2))"

definition answer_or ::
  "'w handler_state \<Rightarrow> (RequestContext \<Rightarrow> response \<times> RequestContext) \<Rightarrow> response \<times> 'w handler_state" where
  "answer_or hst continue =
     (case hst of (st, ctx, s) \<Rightarrow>
        let (r, c) = (if ctx_Blocked ctx then immediateResponse ctx else continue ctx)
        in (r, (st, c, s)))"

definition handleRequestHeaders ::
  "('w \<Rightarrow> bool) \<Rightarrow> (string \<rightharpoonup> string) option list \<Rightarrow> header_entry list option \<Rightarrow> bool \<Rightarrow> 'w handler_state \<Rightarrow>
   response \<times> 'w handler_state" where
  "handleRequestHeaders expired attrs hs eos hst =
     (case hst of (st, ctx, s) \<Rightarrow>
        answer_or
          (route_and_run expired PhaseRequestHeaders id (st, prepare_request st attrs hs eos ctx, s))
          (\<lambda>c. let (hm, c1) = buildHeaderMutation (ctx_HeadersToAdd c) (ctx_HeadersToRemove c) c
               in (RequestHeadersResponse hm (buildModeOverride c1), c1)))"

definition handleRequestBody ::
  "('w \<Rightarrow> bool) \<Rightarrow> string \<Rightarrow> 'w handler_state \<Rightarrow> response \<times> 'w handler_state" where
  "handleRequestBody expired body hst =
     (case hst of (st, ctx, s) \<Rightarrow>
        answer_or
          (route_and_run expired PhaseRequestBody id
             (st, ctx\<lparr>ctx_RequestBodySeen := True, ctx_RequestBody := Some body\<rparr>, s))
          (\<lambda>c. let (hm, c1) = buildHeaderMutation (ctx_HeadersToAdd c) (ctx_HeadersToRemove c) c
               in (RequestBodyResponse hm (buildBodyMutation (ctx_RequestBody c1) (ctx_RequestBodyModified c1)), c1)))"

definition handleRequestTrailers ::
  "('w \<Rightarrow> bool) \<Rightarrow> header_entry list option \<Rightarrow> 'w handler_state \<Rightarrow> response \<times> 'w handler_state" where
  "handleRequestTrailers expired ts hst =
     (case hst of (st, ctx, s) \<Rightarrow>
        answer_or
          (route_and_run expired PhaseRequestTrailers id
             (st, ctx\<lparr>ctx_Headers := copyHeaders (ctx_Headers ctx) ts\<rparr>, s))
          (\<lambda>c. let (hm, c1) = buildHeaderMutation (ctx_RequestTrailersToAdd c) (ctx_RequestTrailersToRemove c) c
               in (RequestTrailersResponse hm, c1)))"

text \<open>A body inspection that never took place must not let the response through.\<close>

definition require_body :: "RequestContext \<Rightarrow> RequestContext" where
  "require_body ctx =
     (if \<not> ctx_Blocked ctx \<and> ctx_RequestBodyRequired ctx \<and> \<not> ctx_RequestBodySeen ctx \<and> \<not> ctx_RequestEndOfStream ctx
      then Block 500 ''Internal Server Error'' ctx else ctx)"

definition handleResponseHeaders ::
  "('w \<Rightarrow> bool) \<Rightarrow> header_entry list option \<Rightarrow> 'w handler_state \<Rightarrow> response \<times> 'w handler_state" where
  "handleResponseHeaders expired hs hst =
     (case hst of (st, ctx, s) \<Rightarrow>
        answer_or
          (route_and_run expired PhaseResponseHeaders require_body
             (st, ctx\<lparr>ctx_ResponseHeaders := copyHeaders (ctx_ResponseHeaders ctx) hs\<rparr>, s))
          (\<lambda>c. let (hm, c1) = buildHeaderMutation (ctx_ResponseHeadersToAdd c) (ctx_ResponseHeadersToRemove c) c
               in (ResponseHeadersResponse hm (buildModeOverride c1), c1)))"

definition handleResponseBody ::
  "('w \<Rightarrow> bool) \<Rightarrow> string \<Rightarrow> 'w handler_state \<Rightarrow> response \<times> 'w handler_state" where
  "handleResponseBody expired body hst =
     (case hst of (st, ctx, s) \<Rightarrow>
        answer_or
          (route_and_run expired PhaseResponseBody id (st, ctx\<lparr>ctx_ResponseBodyBytes := Some body\<rparr>, s))
          (\<lambda>c. (ResponseBodyResponse (buildBodyMutation (ctx_ResponseBodyBytes c) (ctx_ResponseBodyModified c)), c)))"

definition handleResponseTrailers ::
  "('w \<Rightarrow> bool) \<Rightarrow> header_entry list option \<Rightarrow> 'w handler_state \<Rightarrow> response \<times> 'w handler_state" where
  "handleResponseTrailers expired ts hst =
     (case hst of (st, ctx, s) \<Rightarrow>
        let (st1, c, s1) = route_and_run expired PhaseResponseTrailers id
              (st, ctx\<lparr>ctx_ResponseHeaders := copyHeaders (ctx_ResponseHeaders ctx) ts\<rparr>, s);
            (hm, c1) = buildHeaderMutation (ctx_ResponseTrailersToAdd c) (ctx_ResponseTrailersToRemove c) c
        in (ResponseTrailersResponse hm, (st1, c1, s1)))"

subsection \<open>The stream loop\<close>

text \<open>The \<^verbatim>\<open>switch\<close> of \<^verbatim>\<open>Process\<close>; an unsupported message is an error and sends nothing.\<close>

definition handle_message ::
  "('w \<Rightarrow> bool) \<Rightarrow> message \<Rightarrow> 'w handler_state \<Rightarrow> (response \<times> 'w handler_state) option" where
  "handle_message expired msg hst =
     (case msg of
        RequestHeadersMsg attrs hs eos \<Rightarrow> Some (handleRequestHeaders expired attrs hs eos hst)
      | RequestBodyMsg b \<Rightarrow> Some (handleRequestBody expired b hst)
      | RequestTrailersMsg ts \<Rightarrow> Some (handleRequestTrailers expired ts hst)
      | ResponseHeadersMsg hs \<Rightarrow> Some (handleResponseHeaders expired hs hst)
      | ResponseBodyMsg b \<Rightarrow> Some (handleResponseBody expired b hst)
      | ResponseTrailersMsg ts \<Rightarrow> Some (handleResponseTrailers expired ts hst)
      | OtherMsg \<Rightarrow> None)"

datatype recv_event =
    Recv message bool bool   \<comment> \<open>a message, whether sending its response succeeds, and
      whether the stream's context has ended by then\<close>
  | RecvEOF
  | RecvError bool           \<comment> \<open>whether the error is the end of the stream's context\<close>

datatype stream_end = StreamOpen | StreamOK | StreamFailed

fun process_loop ::
  "('w \<Rightarrow> bool) \<Rightarrow> recv_event list \<Rightarrow> 'w handler_state \<Rightarrow> stream_end \<times> response list \<times> 'w handler_state" where
  "process_loop expired [] hst = (StreamOpen, [], hst)"
| "process_loop expired (RecvEOF # es) hst = (StreamOK, [], hst)"
| "process_loop expired (RecvError cancelled # es) hst =
     ((if cancelled then StreamOK else StreamFailed), [], hst)"
| "process_loop expired (Recv msg sent cancelled # es) hst =
     (case handle_message expired msg hst of
        None \<Rightarrow> ((if cancelled then StreamOK else StreamFailed), [], hst)
      | Some (r, hst') \<Rightarrow>
          if \<not> sent then ((if cancelled then StreamOK else StreamFailed), [], hst')
          else (let (e, rs, final) = process_loop expired es hst' in (e, r # rs, final)))"

definition record_audits :: "'w streamState \<Rightarrow> audit_hit list \<Rightarrow> 'w server \<Rightarrow> 'w server" where
  "record_audits st hits s =
     fold (\<lambda>h. log_metric (AuditMetric (st_name st) (FilterName (st_snap st) (st_name st) (int (ah_Index h))) (ah_Status h)))
       hits s"

definition recordOutcome :: "'w handler_state \<Rightarrow> 'w server" where
  "recordOutcome hst =
     (case hst of (st, ctx, s) \<Rightarrow>
        if \<not> st_resolved st then s
        else
          (let s1 = record_audits st (ctx_AuditHits ctx) s in
           if \<not> ctx_Blocked ctx then
             log_metric (RequestMetric (ctx_MatchedRoute ctx) (st_name st) OutcomeAllowed) s1
           else
             (let status = (if ctx_ResponseStatus ctx = 0 then 403 else ctx_ResponseStatus ctx);
                  out = (if ctx_FilterFailed ctx then OutcomeError
                         else if ctx_Answered ctx \<or> status < 400 then OutcomeAnswered
                         else OutcomeDenied);
                  s2 = (if out \<noteq> OutcomeAnswered
                        then log_metric (DenyMetric (st_name st)
                               (FilterName (st_snap st) (st_name st) (ctx_BlockedBy ctx)) status) s1
                        else s1)
              in log_metric (RequestMetric (ctx_MatchedRoute ctx) (st_name st) out) s2)))"

text \<open>
  One stream: the snapshot acquired from the registry, the context acquired from the pool, the
  stream's own context handle and its traffic metadata. When the loop has returned, the outcome is
  recorded and the context is reset for the pool.
\<close>

definition Process ::
  "('w \<Rightarrow> bool) \<Rightarrow> 'w snapshot_data \<Rightarrow> RequestContext \<Rightarrow> nat \<Rightarrow> string list \<Rightarrow> recv_event list \<Rightarrow> 'w server \<Rightarrow>
   stream_end \<times> response list \<times> RequestContext \<times> 'w server" where
  "Process expired snap pooled handle vals es s =
     (let ctx = pooled\<lparr>ctx_Ctx := Some handle, ctx_Traffic := trafficFromContext vals\<rparr>;
          (e, rs, st, c, s1) = process_loop expired es (new_stream snap, ctx, s)
      in if e = StreamOpen then (e, rs, c, s1) else (e, rs, Reset c, recordOutcome (st, c, s1)))"

subsection \<open>Transport security\<close>

datatype tls_error = BadKeyPair | MissingCA | UnreadableCA | BadCA

record tls_settings =
  ts_min13 :: bool
  ts_verifyClients :: bool
  ts_clientCA :: "string option"

text \<open>Reading the files is the parameters \<open>keypair\<close> (loads and matches), \<open>readf\<close> and \<open>pem\<close> (a CA
  certificate was found).\<close>

definition buildTLSCredentials ::
  "(string \<Rightarrow> string \<Rightarrow> bool) \<Rightarrow> (string \<Rightarrow> string option) \<Rightarrow> (string \<Rightarrow> bool) \<Rightarrow> TLSConfig \<Rightarrow> (tls_error, tls_settings) result" where
  "buildTLSCredentials keypair readf pem cfg =
     (if \<not> keypair (tls_CertFile cfg) (tls_KeyFile cfg) then Err BadKeyPair
      else if \<not> tls_MutualTLS cfg then Ok \<lparr>ts_min13 = True, ts_verifyClients = False, ts_clientCA = None\<rparr>
      else if tls_CAFile cfg = [] then Err MissingCA
      else (case readf (tls_CAFile cfg) of
              None \<Rightarrow> Err UnreadableCA
            | Some data \<Rightarrow> if pem data then Ok \<lparr>ts_min13 = True, ts_verifyClients = True, ts_clientCA = Some data\<rparr>
                           else Err BadCA))"

subsection \<open>Routing and running: what passes\<close>

lemma execute_loop_err_blocked: "execute_loop i gs phase ctx w = (Some e, c, w') \<Longrightarrow> ctx_Blocked c"
  by (induction gs arbitrary: i ctx w)
     (auto simp: fail_internal_def Let_def split: if_splits prod.splits option.splits)

lemma Execute_err_blocked: "Execute ctx chain phase w = (Some e, c, w') \<Longrightarrow> ctx_Blocked c"
  unfolding Execute_def by (rule execute_loop_err_blocked)

text \<open>
  A chain lets a phase pass when there is nothing to run, when it ran to its end without a denial,
  or when its settings allow the request on overload or on a timeout that happened.
\<close>

definition passes :: "('w \<Rightarrow> bool) \<Rightarrow> 'w streamState \<Rightarrow> RequestContext \<Rightarrow> Phase \<Rightarrow> 'w server \<Rightarrow> bool" where
  "passes expired st ctx phase s \<longleftrightarrow>
     (let limits = settings_of (st_snap st) (st_name st) in
      st_chain st = [] \<or>
      0 < cs_MaxConcurrency limits \<and> cs_MaxConcurrency limits < srv_limiter s (st_name st) + 1 \<and>
        cs_OnOverload limits = ''allow'' \<or>
      (\<exists>h err c w. Execute (ctx\<lparr>ctx_Ctx := h\<rparr>) (st_chain st) phase (srv_world s) = (err, c, w) \<and>
         (err = None \<and> \<not> ctx_Blocked c \<or>
          err \<noteq> None \<and> 0 < cs_TimeoutDuration limits \<and> expired w \<and> cs_OnTimeout limits = ''allow'')))"

lemma run_limited_passes:
  assumes "run_limited expired limits st ctx phase s = (c, s')" "\<not> ctx_Blocked c"
  shows "\<exists>h err d w. Execute (ctx\<lparr>ctx_Ctx := h\<rparr>) (st_chain st) phase (srv_world s) = (err, d, w) \<and>
         (err = None \<and> \<not> ctx_Blocked d \<or>
          err \<noteq> None \<and> 0 < cs_TimeoutDuration limits \<and> expired w \<and> cs_OnTimeout limits = ''allow'')"
proof (cases "0 < cs_TimeoutDuration limits")
  case True
  obtain err d w where ex: "Execute (ctx\<lparr>ctx_Ctx := map_option Suc (ctx_Ctx ctx)\<rparr>) (st_chain st) phase (srv_world s) = (err, d, w)"
    by (cases "Execute (ctx\<lparr>ctx_Ctx := map_option Suc (ctx_Ctx ctx)\<rparr>) (st_chain st) phase (srv_world s)")
  have "err = None \<and> \<not> ctx_Blocked d \<or> err \<noteq> None \<and> expired w \<and> cs_OnTimeout limits = ''allow''"
    using assms True ex Execute_err_blocked [of _ "st_chain st" phase "srv_world s"]
    by (cases err) (auto simp: run_limited_def Let_def block_unavailable_def Block_def split: if_splits)
  with ex True show ?thesis by blast
next
  case False
  obtain err d w where ex: "Execute ctx (st_chain st) phase (srv_world s) = (err, d, w)"
    by (cases "Execute ctx (st_chain st) phase (srv_world s)")
  with assms False have "\<not> ctx_Blocked d" by (auto simp: run_limited_def)
  then have "err = None \<and> \<not> ctx_Blocked d" using ex Execute_err_blocked [of ctx "st_chain st" phase "srv_world s" _ d w] by (cases err) auto
  moreover have "Execute (ctx\<lparr>ctx_Ctx := ctx_Ctx ctx\<rparr>) (st_chain st) phase (srv_world s) = (err, d, w)"
    using ex by simp
  ultimately show ?thesis by blast
qed

lemma run_passes:
  assumes "run expired st ctx phase s = (c, s')" "\<not> ctx_Blocked c"
  shows "\<not> ctx_Blocked ctx \<and> passes expired st ctx phase s"
proof -
  let ?limits = "settings_of (st_snap st) (st_name st)"
  have free: "\<not> ctx_Blocked ctx" using assms by (auto simp: run_def)
  show ?thesis
  proof (cases "st_chain st = [] \<or> 0 < cs_MaxConcurrency ?limits \<and>
      cs_MaxConcurrency ?limits < srv_limiter s (st_name st) + 1")
    case True
    with assms free show ?thesis
      by (auto simp: run_def passes_def limiter_acquire_def block_unavailable_def Block_def Let_def split: if_splits)
  next
    case False
    then obtain s1 d s2 where "run_limited expired ?limits st ctx phase s1 = (d, s2)" "\<not> ctx_Blocked d"
      "srv_world s1 = srv_world s"
      using assms free by (auto simp: run_def limiter_acquire_def Let_def split: if_splits prod.splits)
    with run_limited_passes [of expired ?limits st ctx phase s1 d s2] free show ?thesis
      by (auto simp: passes_def Let_def)
  qed
qed

lemma run_blocked: "ctx_Blocked ctx \<Longrightarrow> run expired st ctx phase s = (ctx, s)"
  by (simp add: run_def)

text \<open>An east-west caller that the identity map does not know, under the deny policy.\<close>

definition unknown_caller :: "index option \<Rightarrow> Config \<Rightarrow> RequestContext \<Rightarrow> bool" where
  "unknown_caller ident cfg ctx \<longleftrightarrow>
     ident \<noteq> None \<and> ctx_Traffic ctx = TrafficEastWest \<and> ctx_SourceWorkload ctx = None \<and>
     rc_UnknownSource (cfg_Router cfg) \<noteq> ''default''"

lemma resolve_passes:
  assumes "resolve st ctx s = (st', c, s')" "\<not> st_resolved st" "\<not> ctx_Blocked c" "st_chain st = []"
  shows "\<exists>cfg. sd_Config (st_snap st) = Some cfg \<and>
    \<not> unknown_caller (srv_identity s) cfg (resolveIdentity (srv_identity s) ctx) \<and>
    RouteWith (cfg_Router cfg) (resolveIdentity (srv_identity s) ctx) = (st_name st', c) \<and>
    (st_name st' = [] \<and> st_chain st' = [] \<or> sd_Chains (st_snap st) (st_name st') = Some (st_chain st')) \<and>
    st_snap st' = st_snap st \<and> s' = s"
  using assms
  by (auto simp: resolve_def unknown_caller_def Let_def block_unavailable_def Block_def
      split: if_splits option.splits prod.splits)

lemma answer_or_continue:
  "answer_or (st, c, s) k = (r, st', c', s') \<Longrightarrow> (\<And>a b d. r \<noteq> ImmediateResponse a b d) \<Longrightarrow>
   \<not> ctx_Blocked c \<and> st' = st \<and> s' = s \<and> k c = (r, c')"
  by (auto simp: answer_or_def immediateResponse_def Let_def split: if_splits prod.splits)


definition ex_snapshot :: "nat snapshot_data" where
  "ex_snapshot = \<lparr>sd_Config = Some ex_config, sd_Chains = (\<lambda>_. Some []), sd_FilterNames = (\<lambda>_. None)\<rparr>"

definition ex_shared :: "nat server" where
  "ex_shared = \<lparr>srv_identity = None, srv_limiter = (\<lambda>_. 0), srv_metrics = [], srv_world = 0\<rparr>"

definition ex_arrival :: "response \<times> nat handler_state" where
  "ex_arrival = handleRequestHeaders (\<lambda>_. False) [] (Some [('':path'', ''/x'', [])]) True
     (new_stream ex_snapshot, new_context, ex_shared)"


subsection \<open>Denials are final\<close>

definition is_immediate :: "int \<Rightarrow> string \<Rightarrow> response \<Rightarrow> bool" where
  "is_immediate status body r = (case r of ImmediateResponse st _ b \<Rightarrow> st = status \<and> b = body | _ \<Rightarrow> False)"

definition is_trailers :: "response \<Rightarrow> bool" where
  "is_trailers r = (case r of ResponseTrailersResponse _ \<Rightarrow> True | _ \<Rightarrow> False)"

definition effective_status :: "RequestContext \<Rightarrow> int" where
  "effective_status ctx = (if ctx_ResponseStatus ctx = 0 then 403 else ctx_ResponseStatus ctx)"

lemma buildHeaderMutation_frame [simp]:
  "ctx_Blocked (snd (buildHeaderMutation hs rs c)) = ctx_Blocked c"
  "ctx_ResponseStatus (snd (buildHeaderMutation hs rs c)) = ctx_ResponseStatus c"
  "ctx_ResponseBody (snd (buildHeaderMutation hs rs c)) = ctx_ResponseBody c"
  by (simp_all add: buildHeaderMutation_def Let_def)

lemma buildHeaderMutation_frameD:
  "buildHeaderMutation hs rs c = (hm, c') \<Longrightarrow> ctx_Blocked c' = ctx_Blocked c \<and>
     ctx_ResponseStatus c' = ctx_ResponseStatus c \<and> ctx_ResponseBody c' = ctx_ResponseBody c"
  by (metis buildHeaderMutation_frame snd_conv)

lemma route_and_run_blocked:
  assumes "st_resolved st" "ctx_Blocked ctx" "\<And>c. ctx_Blocked c \<Longrightarrow> check c = c"
  shows "route_and_run expired phase check (st, ctx, s) = (st, ctx, s)"
  using assms by (simp add: route_and_run_def resolve_def run_blocked)

lemma answer_or_blocked:
  assumes "ctx_Blocked c"
  shows "\<exists>r c'. answer_or (st, c, s) k = (r, st, c', s) \<and>
    is_immediate (effective_status c) (ctx_ResponseBody c) r \<and> ctx_Blocked c' \<and>
    ctx_ResponseStatus c' = ctx_ResponseStatus c \<and> ctx_ResponseBody c' = ctx_ResponseBody c"
proof -
  obtain hm c' where b: "buildHeaderMutation (ctx_ResponseHeadersToAdd c) [] c = (hm, c')"
    by (cases "buildHeaderMutation (ctx_ResponseHeadersToAdd c) [] c")
  with buildHeaderMutation_frame [of "ctx_ResponseHeadersToAdd c" "[]" c] assms show ?thesis
    by (simp add: answer_or_def immediateResponse_def is_immediate_def effective_status_def)
qed

definition still_blocked :: "'w streamState \<Rightarrow> RequestContext \<Rightarrow> 'w server \<Rightarrow> response \<times> 'w handler_state \<Rightarrow> bool" where
  "still_blocked st ctx s q =
     (case q of (r, st', c, s') \<Rightarrow> st' = st \<and> s' = s \<and> ctx_Blocked c \<and>
        ctx_ResponseStatus c = ctx_ResponseStatus ctx \<and> ctx_ResponseBody c = ctx_ResponseBody ctx \<and>
        (is_immediate (effective_status ctx) (ctx_ResponseBody ctx) r \<or> is_trailers r))"

lemma answer_or_still_blocked:
  assumes "st_resolved st" "ctx_Blocked c" "ctx_ResponseStatus c = ctx_ResponseStatus ctx"
    "ctx_ResponseBody c = ctx_ResponseBody ctx" "\<And>d. ctx_Blocked d \<Longrightarrow> check d = d"
  shows "still_blocked st ctx s (answer_or (route_and_run expired phase check (st, c, s)) k)"
proof -
  have "effective_status c = effective_status ctx" using assms by (simp add: effective_status_def)
  moreover have "route_and_run expired phase check (st, c, s) = (st, c, s)"
    by (rule route_and_run_blocked [OF assms(1,2,5)])
  ultimately show ?thesis
    using answer_or_blocked [OF assms(2), of st s k] assms by (auto simp: still_blocked_def)
qed

lemma blocked_message:
  assumes "st_resolved st" "ctx_Blocked ctx"
  shows "case handle_message expired msg (st, ctx, s) of
      None \<Rightarrow> msg = OtherMsg | Some q \<Rightarrow> still_blocked st ctx s q"
proof -
  have rb: "ctx_Blocked d \<Longrightarrow> require_body d = d" for d by (simp add: require_body_def)
  note sticky = answer_or_still_blocked [OF assms(1)]
  show ?thesis
  proof (cases msg)
    case (RequestHeadersMsg attrs hs eos)
    show ?thesis
      unfolding handle_message_def handleRequestHeaders_def RequestHeadersMsg
      by (simp, rule sticky) (use assms(2) in \<open>simp_all add: prepare_request_def Let_def\<close>)
  next
    case (RequestBodyMsg b)
    show ?thesis
      unfolding handle_message_def handleRequestBody_def RequestBodyMsg
      by (simp, rule sticky) (use assms(2) in simp_all)
  next
    case (RequestTrailersMsg ts)
    show ?thesis
      unfolding handle_message_def handleRequestTrailers_def RequestTrailersMsg
      by (simp, rule sticky) (use assms(2) in simp_all)
  next
    case (ResponseHeadersMsg hs)
    show ?thesis
      unfolding handle_message_def handleResponseHeaders_def ResponseHeadersMsg
      by (simp, rule sticky) (use assms(2) rb in simp_all)
  next
    case (ResponseBodyMsg b)
    show ?thesis
      unfolding handle_message_def handleResponseBody_def ResponseBodyMsg
      by (simp, rule sticky) (use assms(2) in simp_all)
  next
    case (ResponseTrailersMsg ts)
    let ?c = "ctx\<lparr>ctx_ResponseHeaders := copyHeaders (ctx_ResponseHeaders ctx) ts\<rparr>"
    have "route_and_run expired PhaseResponseTrailers id (st, ?c, s) = (st, ?c, s)"
      using assms by (intro route_and_run_blocked) simp_all
    with ResponseTrailersMsg assms(2) show ?thesis
      by (auto simp: handle_message_def handleResponseTrailers_def is_trailers_def still_blocked_def
          dest: buildHeaderMutation_frameD split: prod.splits)
  next
    case OtherMsg
    then show ?thesis by (simp add: handle_message_def)
  qed
qed


definition ex_denied :: "nat handler_state" where
  "ex_denied = ((new_stream ex_snapshot)\<lparr>st_resolved := True\<rparr>, Block 403 ''no'' new_context, ex_shared)"


subsection \<open>One response per message\<close>

definition answers :: "message \<Rightarrow> response \<Rightarrow> bool" where
  "answers msg r =
     (case r of
        ImmediateResponse _ _ _ \<Rightarrow> (case msg of ResponseTrailersMsg _ \<Rightarrow> False | OtherMsg \<Rightarrow> False | _ \<Rightarrow> True)
      | RequestHeadersResponse _ _ \<Rightarrow> (case msg of RequestHeadersMsg _ _ _ \<Rightarrow> True | _ \<Rightarrow> False)
      | RequestBodyResponse _ _ \<Rightarrow> (case msg of RequestBodyMsg _ \<Rightarrow> True | _ \<Rightarrow> False)
      | RequestTrailersResponse _ \<Rightarrow> (case msg of RequestTrailersMsg _ \<Rightarrow> True | _ \<Rightarrow> False)
      | ResponseHeadersResponse _ _ \<Rightarrow> (case msg of ResponseHeadersMsg _ \<Rightarrow> True | _ \<Rightarrow> False)
      | ResponseBodyResponse _ \<Rightarrow> (case msg of ResponseBodyMsg _ \<Rightarrow> True | _ \<Rightarrow> False)
      | ResponseTrailersResponse _ \<Rightarrow> (case msg of ResponseTrailersMsg _ \<Rightarrow> True | _ \<Rightarrow> False))"

fun answered_prefix :: "recv_event list \<Rightarrow> message list" where
  "answered_prefix (Recv msg True c # es) = (if msg = OtherMsg then [] else msg # answered_prefix es)"
| "answered_prefix _ = []"

lemma answer_or_kind:
  assumes "answer_or hst k = (r, hst')"
  shows "(\<exists>a b d. r = ImmediateResponse a b d) \<or> (\<exists>c c'. k c = (r, c'))"
proof -
  obtain st c s where "hst = (st, c, s)" by (cases hst)
  with assms show ?thesis
    by (auto simp: answer_or_def immediateResponse_def Let_def split: if_splits prod.splits)
qed

lemma handle_message_answers:
  assumes "handle_message expired msg hst = Some (r, hst')"
  shows "answers msg r"
proof -
  obtain st ctx s where hst: "hst = (st, ctx, s)" by (cases hst)
  show ?thesis
  proof (cases msg)
    case (ResponseTrailersMsg ts)
    with assms show ?thesis
      by (auto simp: handle_message_def handleResponseTrailers_def hst answers_def Let_def split: prod.splits)
  qed (use assms in \<open>auto simp: handle_message_def handleRequestHeaders_def handleRequestBody_def
      handleRequestTrailers_def handleResponseHeaders_def handleResponseBody_def hst answers_def Let_def
      split: prod.splits response.splits dest!: answer_or_kind\<close>)
qed

text \<open>C22: the protocol of ext_proc is kept. The engine sends exactly one response per message, in the
  order of the messages, until a send fails or the stream ends; each response is of the kind the
  message asks for, or an immediate response where Envoy still accepts one (not for response
  trailers), and a message of an unknown kind ends the stream.\<close>

theorem responses_match_messages:
  "case process_loop expired es hst of (e, rs, final) \<Rightarrow> list_all2 answers (answered_prefix es) rs"
proof (induction expired es hst rule: process_loop.induct)
  case (4 expired msg sent cancelled es hst)
  show ?case
  proof (cases "handle_message expired msg hst")
    case None
    then have "msg = OtherMsg" by (auto simp: handle_message_def split: message.splits)
    with None show ?thesis by (cases sent) simp_all
  next
    case (Some p)
    obtain r hst1 where p: "p = (r, hst1)" by (cases p)
    have msg: "msg \<noteq> OtherMsg" using Some by (auto simp: handle_message_def)
    show ?thesis
    proof (cases sent)
      case True
      with 4 [OF Some p [symmetric]] Some p msg handle_message_answers [OF Some [unfolded p]] show ?thesis
        by (auto split: prod.splits)
    qed (use Some p in simp)
  qed
qed simp_all

subsection \<open>Recorded outcomes\<close>

lemma record_audits_metrics:
  "srv_metrics (record_audits st hits s) = srv_metrics s @
     map (\<lambda>h. AuditMetric (st_name st) (FilterName (st_snap st) (st_name st) (int (ah_Index h))) (ah_Status h)) hits"
  unfolding record_audits_def by (induction hits arbitrary: s) (simp_all add: log_metric_def)

definition denials :: "metric list \<Rightarrow> metric list" where
  "denials ms = [m \<leftarrow> ms. case m of DenyMetric _ _ _ \<Rightarrow> True | _ \<Rightarrow> False]"

definition requests :: "metric list \<Rightarrow> metric list" where
  "requests ms = [m \<leftarrow> ms. case m of RequestMetric _ _ _ \<Rightarrow> True | _ \<Rightarrow> False]"

definition outcome_of :: "RequestContext \<Rightarrow> outcome" where
  "outcome_of ctx =
     (if \<not> ctx_Blocked ctx then OutcomeAllowed
      else if ctx_FilterFailed ctx then OutcomeError
      else if ctx_Answered ctx \<or> effective_status ctx < 400 then OutcomeAnswered
      else OutcomeDenied)"

text \<open>every routed stream is counted exactly once, as allowed exactly when it was not blocked;
  a denied or failed request is also counted once as a denial, with the status the client was sent
  and the name of the filter that decided, and no other request is.\<close>

theorem recordOutcome_counts_once:
  assumes "st_resolved st" "denials (srv_metrics s) = []" "requests (srv_metrics s) = []"
  shows "requests (srv_metrics (recordOutcome (st, ctx, s))) =
      [RequestMetric (ctx_MatchedRoute ctx) (st_name st) (outcome_of ctx)] \<and>
    denials (srv_metrics (recordOutcome (st, ctx, s))) =
      (if outcome_of ctx \<in> {OutcomeDenied, OutcomeError}
       then [DenyMetric (st_name st) (FilterName (st_snap st) (st_name st) (ctx_BlockedBy ctx)) (effective_status ctx)]
       else [])"
proof -
  have none: "denials (srv_metrics (record_audits st (ctx_AuditHits ctx) s)) = []"
    "requests (srv_metrics (record_audits st (ctx_AuditHits ctx) s)) = []"
    using assms(2,3) by (simp_all add: record_audits_metrics denials_def requests_def filter_empty_conv)
  show ?thesis
    using assms(1) none
    by (simp add: recordOutcome_def Let_def log_metric_def outcome_of_def effective_status_def denials_def requests_def)
qed

theorem recordOutcome_counts_once_witness:
  "requests (srv_metrics (recordOutcome ex_denied)) = [RequestMetric [] [] OutcomeDenied]"
  using recordOutcome_counts_once [of "(new_stream ex_snapshot)\<lparr>st_resolved := True\<rparr>" ex_shared "Block 403 ''no'' new_context"]
  by (simp add: ex_denied_def ex_shared_def denials_def requests_def outcome_of_def effective_status_def Block_def
      new_context_def new_stream_def)

subsection \<open>What Envoy makes of a mutation\<close>

text \<open>
  Envoy applies a header mutation by removing the listed headers and setting the listed values,
  overwriting what was there. For a mutation without duplicate or contradictory keys the result is
  determined; this is all the engine relies on.
\<close>

definition envoy_applies :: "(header_mutation \<Rightarrow> (string \<rightharpoonup> string) \<Rightarrow> (string \<rightharpoonup> string)) \<Rightarrow> bool" where
  "envoy_applies ap \<longleftrightarrow>
     (\<forall>m h k. distinct (map ho_Key (hmut_Set m)) \<and> ho_Key ` set (hmut_Set m) \<inter> set (hmut_Remove m) = {} \<longrightarrow>
        ap m h k =
          (if k \<in> set (hmut_Remove m) then None
           else (case map_of (map (\<lambda>opt. (ho_Key opt, ho_RawValue opt)) (hmut_Set m)) k of
                   Some v \<Rightarrow> Some v
                 | None \<Rightarrow> h k)))"

definition apply_opt ::
  "(header_mutation \<Rightarrow> (string \<rightharpoonup> string) \<Rightarrow> (string \<rightharpoonup> string)) \<Rightarrow> header_mutation option \<Rightarrow>
   (string \<rightharpoonup> string) \<Rightarrow> (string \<rightharpoonup> string)" where
  "apply_opt ap m h = (case m of None \<Rightarrow> h | Some x \<Rightarrow> ap x h)"

lemma mutation_applied:
  assumes ap: "envoy_applies ap" and wf: "edits_wf sh add rem"
  shows "apply_opt ap (fst (buildHeaderMutation add rem ctx)) h k =
    (case sh k of Some v \<Rightarrow> Some v | None \<Rightarrow> if k \<in> set rem then None else h k)"
proof (cases "add = [] \<and> rem = []")
  case True
  with wf show ?thesis by (simp add: buildHeaderMutation_def apply_opt_def edits_wf_def header_map_def)
next
  case False
  have keys: "map ho_Key (map header_option_of add) = map h_Key add"
    "map (\<lambda>opt. (ho_Key opt, ho_RawValue opt)) (map header_option_of add) = map (\<lambda>h. (h_Key h, h_Value h)) add"
    by (simp_all add: header_option_of_def)
  have key_set: "ho_Key ` set (map header_option_of add) = h_Key ` set add"
    by (auto simp: header_option_of_def image_iff)
  from wf have sh: "sh = header_map add" and disj: "h_Key ` set add \<inter> set rem = {}" "distinct (map h_Key add)"
    by (simp_all add: edits_wf_def)
  have "k \<in> set rem \<Longrightarrow> sh k = None"
    using disj(1) by (auto simp: sh header_map_def map_of_eq_None_iff image_iff)
  moreover have "apply_opt ap (fst (buildHeaderMutation add rem ctx)) h k =
      (if k \<in> set rem then None else (case header_map add k of Some v \<Rightarrow> Some v | None \<Rightarrow> h k))"
  proof -
    let ?m = "\<lparr>hmut_Set = map header_option_of add, hmut_Remove = rem\<rparr>"
    have "ap ?m h k =
      (if k \<in> set (hmut_Remove ?m) then None
       else (case map_of (map (\<lambda>opt. (ho_Key opt, ho_RawValue opt)) (hmut_Set ?m)) k of
               Some v \<Rightarrow> Some v | None \<Rightarrow> h k))"
    proof (rule ap [unfolded envoy_applies_def, rule_format])
      show "distinct (map ho_Key (hmut_Set ?m)) \<and> ho_Key ` set (hmut_Set ?m) \<inter> set (hmut_Remove ?m) = {}"
        using disj key_set unfolding header_mutation.simps keys(1) by simp
    qed
    moreover have "fst (buildHeaderMutation add rem ctx) = Some ?m"
      using False by (auto simp: buildHeaderMutation_def Let_def)
    ultimately show ?thesis
      unfolding header_mutation.simps keys(2) by (simp add: apply_opt_def header_map_def)
  qed
  ultimately show ?thesis by (auto simp: sh split: option.splits)
qed


definition envoy_apply :: "header_mutation \<Rightarrow> (string \<rightharpoonup> string) \<Rightarrow> (string \<rightharpoonup> string)" where
  "envoy_apply m h =
     fold (\<lambda>opt g. g(ho_Key opt \<mapsto> ho_RawValue opt)) (hmut_Set m) (fold (\<lambda>k g. g(k := None)) (hmut_Remove m) h)"

lemma envoy_apply_law: "envoy_applies envoy_apply"
proof -
  have removed: "fold (\<lambda>k g. g(k := None)) ks h q = (if q \<in> set ks then None else h q)" for ks h and q :: string
    by (induction ks arbitrary: h) auto
  have set_value: "distinct (map ho_Key opts) \<Longrightarrow>
      fold (\<lambda>opt g. g(ho_Key opt \<mapsto> ho_RawValue opt)) opts h q =
      (case map_of (map (\<lambda>opt. (ho_Key opt, ho_RawValue opt)) opts) q of Some v \<Rightarrow> Some v | None \<Rightarrow> h q)" for opts h q
  proof (induction opts arbitrary: h)
    case (Cons a opts)
    have "q = ho_Key a \<Longrightarrow> map_of (map (\<lambda>opt. (ho_Key opt, ho_RawValue opt)) opts) q = None"
      using Cons.prems by (auto simp: map_of_eq_None_iff)
    with Cons show ?case by (auto split: option.splits)
  qed simp
  have absent: "map_of (map (\<lambda>opt. (ho_Key opt, ho_RawValue opt)) opts) q = None"
    if "ho_Key ` set opts \<inter> set ks = {}" "q \<in> set ks" for opts ks q
    using that by (auto simp: map_of_eq_None_iff)
  show ?thesis
    unfolding envoy_applies_def envoy_apply_def
    by (intro allI impI) (auto simp: set_value removed split: option.split dest: absent)
qed


subsection \<open>Body inspection\<close>

text \<open>C21: if a filter asked for the request body and Envoy forwarded the request without sending
  it, the response is withheld: the answer to the response headers is an immediate response, with
  status 500 unless the request had already been denied.\<close>

theorem uninspected_body_withheld:
  assumes "st_resolved st" "ctx_RequestBodyRequired ctx" "\<not> ctx_RequestBodySeen ctx" "\<not> ctx_RequestEndOfStream ctx"
  shows "\<exists>status hm body hst'. handleResponseHeaders expired hs (st, ctx, s) = (ImmediateResponse status hm body, hst') \<and>
    (\<not> ctx_Blocked ctx \<longrightarrow> status = 500)"
proof -
  let ?c = "ctx\<lparr>ctx_ResponseHeaders := copyHeaders (ctx_ResponseHeaders ctx) hs\<rparr>"
  have blocked: "ctx_Blocked (require_body ?c)" using assms by (simp add: require_body_def Block_def)
  have "route_and_run expired PhaseResponseHeaders require_body (st, ?c, s) = (st, require_body ?c, s)"
    using assms(1) blocked by (simp add: route_and_run_def resolve_def run_blocked)
  moreover have "\<not> ctx_Blocked ctx \<Longrightarrow> effective_status (require_body ?c) = 500"
    using assms by (simp add: require_body_def Block_def effective_status_def)
  moreover obtain r c' where "answer_or (st, require_body ?c, s)
      (\<lambda>c. let (hm, c1) = buildHeaderMutation (ctx_ResponseHeadersToAdd c) (ctx_ResponseHeadersToRemove c) c
           in (ResponseHeadersResponse hm (buildModeOverride c1), c1)) = (r, st, c', s)"
    "is_immediate (effective_status (require_body ?c)) (ctx_ResponseBody (require_body ?c)) r"
    using answer_or_blocked [OF blocked] by blast
  ultimately show ?thesis
    by (cases r) (auto simp: handleResponseHeaders_def is_immediate_def)
qed

definition ex_waiting :: RequestContext where
  "ex_waiting = new_context\<lparr>ctx_RequestBodyRequired := True\<rparr>"

theorem uninspected_body_withheld_witness:
  "\<exists>hm body hst'. handleResponseHeaders (\<lambda>_. False) None
     ((new_stream (NewSnapshot None Map.empty))\<lparr>st_resolved := True\<rparr>, ex_waiting,
      \<lparr>srv_identity = None, srv_limiter = (\<lambda>_. 0), srv_metrics = [], srv_world = (0::nat)\<rparr>)
     = (ImmediateResponse 500 hm body, hst')"
  using uninspected_body_withheld [of "(new_stream (NewSnapshot None Map.empty))\<lparr>st_resolved := True\<rparr>" ex_waiting
      "\<lambda>_. False" None "\<lparr>srv_identity = None, srv_limiter = (\<lambda>_. 0), srv_metrics = [], srv_world = (0::nat)\<rparr>"]
  by (auto simp: ex_waiting_def new_context_def)

end
