(* ===== verification/Server_Lifecycle.thy ===== *)
theory Server_Lifecycle
  imports Ext_Proc_Server
begin

text \<open>
  What the ext_proc server does over its life rather than within one stream: the per-chain
  concurrency limiter under interleaved streams (\<^verbatim>\<open>chainLimiter\<close> in \<^verbatim>\<open>internal/grpc/handlers.go\<close>), and
  the activity counters and the wait for quiet of the graceful shutdown
  (\<^verbatim>\<open>internal/grpc/shutdown.go\<close>). Times are nanoseconds.
\<close>

subsection \<open>The concurrency limiter under interleaving\<close>

text \<open>
  \<^verbatim>\<open>acquire\<close> is two atomic steps: the increment, which decides, and for a rejected stream the
  decrement. Streams that were admitted run the chain and release their slot with a decrement.
  \<open>lim_rejecting\<close> counts the streams between the two steps.
\<close>

record limiter =
  lim_counter :: int
  lim_running :: nat
  lim_rejecting :: nat

definition limiter_add :: "int \<Rightarrow> limiter \<Rightarrow> limiter" where
  "limiter_add d l = l\<lparr>lim_counter := lim_counter l + d\<rparr>"

definition acquire_add :: "int \<Rightarrow> limiter \<Rightarrow> limiter" where
  "acquire_add mx l =
     (let l1 = limiter_add 1 l in
      if lim_counter l1 > mx then l1\<lparr>lim_rejecting := Suc (lim_rejecting l1)\<rparr>
      else l1\<lparr>lim_running := Suc (lim_running l1)\<rparr>)"

definition acquire_undo :: "limiter \<Rightarrow> limiter" where
  "acquire_undo l = (limiter_add (-1) l)\<lparr>lim_rejecting := lim_rejecting l - 1\<rparr>"

definition release_slot :: "limiter \<Rightarrow> limiter" where
  "release_slot l = (limiter_add (-1) l)\<lparr>lim_running := lim_running l - 1\<rparr>"

inductive limiter_step :: "int \<Rightarrow> limiter \<Rightarrow> limiter \<Rightarrow> bool" for mx where
  enter: "limiter_step mx l (acquire_add mx l)"
| reject: "0 < lim_rejecting l \<Longrightarrow> limiter_step mx l (acquire_undo l)"
| leave: "0 < lim_running l \<Longrightarrow> limiter_step mx l (release_slot l)"

inductive_cases limiter_stepE: "limiter_step mx l l'"

definition idle_limiter :: limiter where
  "idle_limiter = \<lparr>lim_counter = 0, lim_running = 0, lim_rejecting = 0\<rparr>"

definition limiter_inv :: "int \<Rightarrow> limiter \<Rightarrow> bool" where
  "limiter_inv mx l \<longleftrightarrow>
     lim_counter l = int (lim_running l) + int (lim_rejecting l) \<and> int (lim_running l) \<le> mx"

lemmas limiter_defs = limiter_add_def acquire_add_def acquire_undo_def release_slot_def limiter_inv_def

lemma limiter_inv_step: "limiter_step mx l l' \<Longrightarrow> limiter_inv mx l \<Longrightarrow> limiter_inv mx l'"
  by (erule limiter_stepE) (auto simp: limiter_defs Let_def)

lemma limiter_inv_steps: "(limiter_step mx)\<^sup>*\<^sup>* l l' \<Longrightarrow> limiter_inv mx l \<Longrightarrow> limiter_inv mx l'"
  by (induction rule: rtranclp_induct) (auto intro: limiter_inv_step)

text \<open>C17: under every interleaving of streams at most \<^verbatim>\<open>max_concurrency\<close> of them run the chain at
  once, no slot leaks (when no stream is inside, the counter is zero), and a stream is turned away
  only when the streams inside, counting those about to leave again after a rejection, fill the limit.\<close>

theorem limiter_respects_max:
  assumes "0 \<le> mx" "(limiter_step mx)\<^sup>*\<^sup>* idle_limiter l"
  shows "int (lim_running l) \<le> mx \<and>
    (lim_running l = 0 \<and> lim_rejecting l = 0 \<longrightarrow> lim_counter l = 0) \<and>
    (lim_running (acquire_add mx l) = lim_running l \<longleftrightarrow> mx \<le> int (lim_running l + lim_rejecting l))"
proof -
  have "limiter_inv mx l"
    by (rule limiter_inv_steps [OF assms(2)]) (use assms(1) in \<open>simp add: limiter_inv_def idle_limiter_def\<close>)
  then show ?thesis by (auto simp: limiter_defs Let_def)
qed

lemma ex_limiter_steps: "(limiter_step 1)\<^sup>*\<^sup>* idle_limiter (acquire_add 1 (acquire_add 1 idle_limiter))"
  by (rule rtranclp.rtrancl_into_rtrancl [OF rtranclp.rtrancl_into_rtrancl [OF rtranclp.rtrancl_refl]])
     (rule limiter_step.enter)+

theorem limiter_respects_max_witness:
  "lim_running (acquire_add 1 (acquire_add 1 idle_limiter)) \<le> 1"
  using limiter_respects_max [OF _ ex_limiter_steps] by simp

text \<open>Without overlap the two steps are the \<^const>\<open>limiter_acquire\<close> that one stream sees.\<close>

lemma limiter_acquire_steps:
  "limiter_acquire chain mx c = (ok, c') \<Longrightarrow> lim_counter l = c chain \<Longrightarrow>
   c' chain = lim_counter (if ok then acquire_add mx l else acquire_undo (acquire_add mx l)) \<and>
   (ok \<longleftrightarrow> lim_running (acquire_add mx l) = Suc (lim_running l))"
  by (auto simp: limiter_acquire_def limiter_defs Let_def split: if_splits)

subsection \<open>Stream activity\<close>

record Activity =
  act_lastStart :: int
  act_active :: int

definition streamStarted :: "int \<Rightarrow> Activity \<Rightarrow> Activity" where
  "streamStarted now a = (let a1 = a\<lparr>act_lastStart := now\<rparr> in a1\<lparr>act_active := act_active a1 + 1\<rparr>)"

definition streamEnded :: "Activity \<Rightarrow> Activity" where
  "streamEnded a = a\<lparr>act_active := act_active a - 1\<rparr>"

definition Active :: "Activity \<Rightarrow> int" where
  "Active a = act_active a"

definition LastStart :: "Activity \<Rightarrow> int option" where
  "LastStart a = (if act_lastStart a \<noteq> 0 then Some (act_lastStart a) else None)"

text \<open>\<^verbatim>\<open>time.Since\<close> of the zero time saturates at the longest duration.\<close>

definition time_since :: "int \<Rightarrow> int option \<Rightarrow> int" where
  "time_since now t = (case t of None \<Rightarrow> 2 ^ 63 - 1 | Some s \<Rightarrow> now - s)"

subsection \<open>Waiting for quiet\<close>

text \<open>
  What one pass of the loop of \<^verbatim>\<open>WaitForQuiet\<close> sees: the clock when the pass begins, the activity
  it loads, and how the select ends: by the ticker, or with the context done at the given time.
\<close>

record wait_pass =
  wp_now :: int
  wp_activity :: Activity
  wp_done :: "int option"

fun WaitForQuiet :: "nat \<Rightarrow> (nat \<Rightarrow> wait_pass) \<Rightarrow> int \<Rightarrow> nat \<Rightarrow> int \<Rightarrow> int \<Rightarrow> int \<Rightarrow> int option" where
  "WaitForQuiet 0 obs start i quiet minDelay maxDelay = None"
| "WaitForQuiet (Suc fuel) obs start i quiet minDelay maxDelay =
     (let elapsed = wp_now (obs i) - start in
      if elapsed \<ge> maxDelay then Some elapsed
      else if elapsed \<ge> minDelay \<and> time_since (wp_now (obs i)) (LastStart (wp_activity (obs i))) \<ge> quiet then Some elapsed
      else (case wp_done (obs i) of
              Some t \<Rightarrow> Some (t - start)
            | None \<Rightarrow> WaitForQuiet fuel obs start (Suc i) quiet minDelay maxDelay))"

text \<open>The n-th tick of the ticker comes no earlier than n intervals of 100ms after its start.\<close>

definition tick_interval :: int where
  "tick_interval = 100000000"

definition ticker_law :: "int \<Rightarrow> (nat \<Rightarrow> wait_pass) \<Rightarrow> bool" where
  "ticker_law start obs \<longleftrightarrow> (\<forall>i. start + int i * tick_interval \<le> wp_now (obs i))"

lemma WaitForQuiet_enough_fuel:
  assumes "ticker_law start obs" "maxDelay \<le> (int i + int fuel) * tick_interval"
  shows "\<exists>t. WaitForQuiet (Suc fuel) obs start i quiet minDelay maxDelay = Some t"
  using assms(2)
proof (induction fuel arbitrary: i)
  case 0
  have "start + int i * tick_interval \<le> wp_now (obs i)" using assms(1) by (simp add: ticker_law_def)
  with 0 show ?case by (simp add: Let_def)
next
  case (Suc fuel)
  then have "maxDelay \<le> (int (Suc i) + int fuel) * tick_interval" by (simp add: algebra_simps)
  from Suc.IH [OF this] show ?case by (simp add: Let_def split: option.split)
qed

text \<open>Why the wait may end at a pass.\<close>

definition wait_over :: "(nat \<Rightarrow> wait_pass) \<Rightarrow> int \<Rightarrow> int \<Rightarrow> int \<Rightarrow> int \<Rightarrow> nat \<Rightarrow> int \<Rightarrow> bool" where
  "wait_over obs start quiet minDelay maxDelay i t \<longleftrightarrow>
     t = wp_now (obs i) - start \<and>
       (maxDelay \<le> t \<or> minDelay \<le> t \<and> quiet \<le> time_since (wp_now (obs i)) (LastStart (wp_activity (obs i)))) \<or>
     (\<exists>d. wp_done (obs i) = Some d \<and> t = d - start)"

lemma WaitForQuiet_reason:
  "WaitForQuiet fuel obs start i quiet minDelay maxDelay = Some t \<Longrightarrow>
   \<exists>j \<ge> i. wait_over obs start quiet minDelay maxDelay j t \<and> (\<forall>k. i \<le> k \<and> k < j \<longrightarrow> wp_done (obs k) = None \<and>
      wp_now (obs k) - start < maxDelay)"
proof (induction fuel arbitrary: i)
  case (Suc fuel)
  show ?case
  proof (cases "wait_over obs start quiet minDelay maxDelay i t")
    case False
    with Suc.prems have step: "WaitForQuiet fuel obs start (Suc i) quiet minDelay maxDelay = Some t"
      and pass: "wp_done (obs i) = None" "wp_now (obs i) - start < maxDelay"
      by (auto simp: wait_over_def Let_def split: if_splits option.splits)
    from Suc.IH [OF step] obtain j where "j \<ge> Suc i" "wait_over obs start quiet minDelay maxDelay j t"
      "\<forall>k. Suc i \<le> k \<and> k < j \<longrightarrow> wp_done (obs k) = None \<and> wp_now (obs k) - start < maxDelay" by auto
    with pass show ?thesis by (intro exI [of _ j]) (metis Suc_leD Suc_leI le_neq_implies_less)
  qed (auto intro: exI [of _ i])
qed simp

text \<open>C30: the wait before shutdown always ends: within one pass per 100ms of \<^verbatim>\<open>maxDelay\<close> (and one
  more) \<^verbatim>\<open>WaitForQuiet\<close> returns. Every pass before the last one began before \<^verbatim>\<open>maxDelay\<close>, and the last
  one ends for one of three reasons: the context is done, \<^verbatim>\<open>maxDelay\<close> has passed, or \<^verbatim>\<open>minDelay\<close> has
  passed and no stream has started for \<^verbatim>\<open>quiet\<close>. Unless the context ended, it has waited at least
  \<^verbatim>\<open>minDelay\<close>, given that this is at most \<^verbatim>\<open>maxDelay\<close>.\<close>

theorem WaitForQuiet_terminates:
  assumes "ticker_law start obs" "minDelay \<le> maxDelay"
  shows "\<exists>t j. WaitForQuiet (nat (maxDelay div tick_interval) + 2) obs start 0 quiet minDelay maxDelay = Some t \<and>
    wait_over obs start quiet minDelay maxDelay j t \<and>
    (\<forall>k < j. wp_done (obs k) = None \<and> wp_now (obs k) - start < maxDelay) \<and>
    (wp_done (obs j) = None \<longrightarrow> minDelay \<le> t)"
proof -
  let ?n = "nat (maxDelay div tick_interval) + 1"
  have "maxDelay = maxDelay div tick_interval * tick_interval + maxDelay mod tick_interval" by simp
  moreover have "maxDelay mod tick_interval < tick_interval" by (simp add: tick_interval_def)
  moreover have "maxDelay div tick_interval \<le> int (nat (maxDelay div tick_interval))" by simp
  ultimately have "maxDelay \<le> (int 0 + int ?n) * tick_interval"
    by (simp add: tick_interval_def)
  then obtain t where t: "WaitForQuiet (Suc ?n) obs start 0 quiet minDelay maxDelay = Some t"
    using WaitForQuiet_enough_fuel [OF assms(1)] by blast
  from WaitForQuiet_reason [OF t] obtain j where j: "wait_over obs start quiet minDelay maxDelay j t"
    "\<forall>k < j. wp_done (obs k) = None \<and> wp_now (obs k) - start < maxDelay" by blast
  from j(1) assms(2) have "wp_done (obs j) = None \<longrightarrow> minDelay \<le> t" by (auto simp: wait_over_def)
  with t j show ?thesis by (intro exI [of _ t] exI [of _ j]) (simp only: add_2_eq_Suc' Suc_eq_plus1 simp_thms)
qed

definition ex_passes :: "nat \<Rightarrow> wait_pass" where
  "ex_passes i = \<lparr>wp_now = 7 + int i * tick_interval, wp_activity = \<lparr>act_lastStart = 5, act_active = 1\<rparr>, wp_done = None\<rparr>"

theorem WaitForQuiet_terminates_witness:
  "\<exists>t. WaitForQuiet 5 ex_passes 7 0 100000000 200000000 300000000 = Some t \<and> 200000000 \<le> t"
proof -
  have "ticker_law 7 ex_passes" by (simp add: ticker_law_def ex_passes_def)
  from WaitForQuiet_terminates [OF this, of 200000000 300000000 100000000] show ?thesis
    by (auto simp: ex_passes_def tick_interval_def)
qed

end
