(* ===== verification/Rate_Limiter.thy ===== *)
theory Rate_Limiter
  imports Chain_Executor Complex_Main "HOL-Library.AList" "HOL-Library.Product_Lexorder"
begin

text \<open>
  The rate limiting filter (\<^verbatim>\<open>internal/filters/rate_limiter\<close>: \<^verbatim>\<open>filter.go\<close>, \<^verbatim>\<open>executor.go\<close> and the part
  the five executors share): options and defaults, the cost of a request, the runtime values of the
  descriptor keys, the selection of policies, and the decision. The executors themselves are in
  theory \<open>Rate_Algorithms\<close>. \<^verbatim>\<open>uint32\<close> and \<^verbatim>\<open>uint64\<close> values are words; \<^verbatim>\<open>float64\<close> values are exact rationals.
\<close>

subsection \<open>Options\<close>

record DescriptorEntryDef =
  de_Key :: string
  de_Value :: string

record YamlDescriptor =
  yd_Entries :: "DescriptorEntryDef list"
  yd_Limit :: "32 word"
  yd_Unit :: string
  yd_ShadowMode :: bool
  yd_StopIncrementWhenOverlimit :: bool
  yd_FailOpen :: bool
  yd_ShareThresholdPattern :: string
  yd_MaxTokens :: rat
  yd_FillRate :: rat
  yd_BucketCapacity :: "32 word"
  yd_LeakRate :: rat

record ResponseHeadersOpts =
  rh_Enabled :: bool
  rh_LimitHeader :: string
  rh_RemainingHeader :: string
  rh_ResetHeader :: string

record DynamicCostOpts =
  dy_Enabled :: bool
  dy_SourceHeader :: string
  dy_DefaultFallbackCost :: int
  dy_MaxAllowedCost :: int

record FilterOptions =
  fo_Domain :: string
  fo_Algorithm :: string
  fo_RedisService :: string
  fo_HeaderMappings :: "(string \<times> string) list"
  fo_ResponseHeaders :: ResponseHeadersOpts
  fo_DynamicCost :: DynamicCostOpts
  fo_Descriptors :: "YamlDescriptor list"

definition header_default :: "string \<Rightarrow> string \<Rightarrow> string" where
  "header_default d h = (if h = [] then d else to_lower h)"

definition lower_entry :: "DescriptorEntryDef \<Rightarrow> DescriptorEntryDef" where
  "lower_entry e =
     (let e1 = e\<lparr>de_Key := to_lower (de_Key e)\<rparr>
      in if de_Value e1 \<noteq> [] then e1\<lparr>de_Value := to_lower (de_Value e1)\<rparr> else e1)"

definition ApplyDefaults :: "FilterOptions \<Rightarrow> FilterOptions" where
  "ApplyDefaults opts =
     (let dc = fo_DynamicCost opts;
          dc1 = (if dy_SourceHeader dc \<noteq> [] then dc\<lparr>dy_SourceHeader := to_lower (dy_SourceHeader dc)\<rparr> else dc);
          dc2 = (if dy_DefaultFallbackCost dc1 < 1 then dc1\<lparr>dy_DefaultFallbackCost := 1\<rparr> else dc1);
          rh = fo_ResponseHeaders opts;
          rh1 = rh\<lparr>rh_LimitHeader := header_default ''ratelimit-limit'' (rh_LimitHeader rh),
                   rh_RemainingHeader := header_default ''ratelimit-remaining'' (rh_RemainingHeader rh),
                   rh_ResetHeader := header_default ''ratelimit-reset'' (rh_ResetHeader rh)\<rparr>
      in opts\<lparr>fo_DynamicCost := dc2, fo_ResponseHeaders := rh1,
          fo_HeaderMappings :=
            fold (\<lambda>(k, v) m. AList.update (to_lower k) (to_lower v) m) (fo_HeaderMappings opts) [],
          fo_Descriptors :=
            map (\<lambda>d. d\<lparr>yd_Entries := map lower_entry (yd_Entries d)\<rparr>) (fo_Descriptors opts)\<rparr>)"

subsection \<open>The cost of a request\<close>

text \<open>\<^verbatim>\<open>strconv.ParseInt(s, 10, 64)\<close>.\<close>

definition parse_magnitude :: "string \<Rightarrow> nat option" where
  "parse_magnitude s = (if s \<noteq> [] \<and> all_digits s then Some (digits_val s) else None)"

definition ParseInt64 :: "string \<Rightarrow> int option" where
  "ParseInt64 s =
     (case s of
        [] \<Rightarrow> None
      | c # t \<Rightarrow>
          if c = CHR ''-'' then
            (case parse_magnitude t of
               Some n \<Rightarrow> if n \<le> 2 ^ 63 then Some (- int n) else None
             | None \<Rightarrow> None)
          else
            (case parse_magnitude (if c = CHR ''+'' then t else s) of
               Some n \<Rightarrow> if n < 2 ^ 63 then Some (int n) else None
             | None \<Rightarrow> None))"

definition requestCost :: "FilterOptions \<Rightarrow> RequestContext \<Rightarrow> int" where
  "requestCost opts ctx =
     (let dc = fo_DynamicCost opts in
      if \<not> dy_Enabled dc then 1
      else
        (let cost = (case ParseInt64 (GetHeader ctx (dy_SourceHeader dc)) of
                       Some parsed \<Rightarrow> if parsed \<ge> 1 then parsed else dy_DefaultFallbackCost dc
                     | None \<Rightarrow> dy_DefaultFallbackCost dc)
         in if dy_MaxAllowedCost dc > 0 \<and> cost > dy_MaxAllowedCost dc then dy_MaxAllowedCost dc else cost))"

text \<open>a request always costs at least one unit and never more than the configured cap, whatever
  the client puts into the cost header, so it can neither skip nor refund quota.\<close>

theorem requestCost_bounds:
  "1 \<le> requestCost (ApplyDefaults opts) ctx \<and>
   (0 < dy_MaxAllowedCost (fo_DynamicCost opts) \<longrightarrow>
      requestCost (ApplyDefaults opts) ctx \<le> dy_MaxAllowedCost (fo_DynamicCost opts))"
  by (auto simp: requestCost_def ApplyDefaults_def Let_def split: option.splits)

definition ex_cost_options :: FilterOptions where
  "ex_cost_options =
     \<lparr>fo_Domain = ''d'', fo_Algorithm = ''fixed_window'', fo_RedisService = ''r'', fo_HeaderMappings = [],
      fo_ResponseHeaders = \<lparr>rh_Enabled = False, rh_LimitHeader = [], rh_RemainingHeader = [], rh_ResetHeader = []\<rparr>,
      fo_DynamicCost = \<lparr>dy_Enabled = True, dy_SourceHeader = ''X-Cost'', dy_DefaultFallbackCost = 0, dy_MaxAllowedCost = 50\<rparr>,
      fo_Descriptors = []\<rparr>"

theorem requestCost_bounds_witness:
  "requestCost (ApplyDefaults ex_cost_options) (SetHeaderUpstream ''x-cost'' ''900'' new_context) \<le> 50"
  using requestCost_bounds [of ex_cost_options "SetHeaderUpstream ''x-cost'' ''900'' new_context"]
  by (simp add: ex_cost_options_def)

subsection \<open>Runtime values of the descriptor keys\<close>

record DescriptorEntry =
  dn_Key :: string
  dn_Value :: string

definition runtime_value :: "FilterOptions \<Rightarrow> RequestContext \<Rightarrow> string \<Rightarrow> string" where
  "runtime_value opts ctx k =
     (let v1 = (case map_of (fo_HeaderMappings opts) k of
                  Some headerName \<Rightarrow> GetHeader ctx headerName
                | None \<Rightarrow> GetHeader ctx k);
          v2 = (if k = ''ip'' \<or> k = ''client_ip'' \<or> k = ''remote_ip'' then ctx_ClientIP ctx else v1)
      in if v2 = [] then ''default'' else v2)"

fun extract_entries :: "FilterOptions \<Rightarrow> RequestContext \<Rightarrow> string list \<Rightarrow> DescriptorEntryDef list \<Rightarrow> DescriptorEntry list" where
  "extract_entries opts ctx extractedKeys [] = []"
| "extract_entries opts ctx extractedKeys (e # es) =
     (if de_Key e \<in> set extractedKeys then extract_entries opts ctx extractedKeys es
      else \<lparr>dn_Key = de_Key e, dn_Value = runtime_value opts ctx (de_Key e)\<rparr> #
           extract_entries opts ctx (de_Key e # extractedKeys) es)"

definition extract_descriptors :: "FilterOptions \<Rightarrow> RequestContext \<Rightarrow> DescriptorEntry list" where
  "extract_descriptors opts ctx = extract_entries opts ctx [] (concat (map yd_Entries (fo_Descriptors opts)))"

definition extracted_map :: "DescriptorEntry list \<Rightarrow> (string \<rightharpoonup> string)" where
  "extracted_map ds = fold (\<lambda>e m. m(dn_Key e \<mapsto> dn_Value e)) ds Map.empty"

lemma extract_entries_map:
  "fold (\<lambda>e m. m(dn_Key e \<mapsto> dn_Value e)) (extract_entries opts ctx seen es) m k =
   (if k \<in> de_Key ` set es - set seen then Some (runtime_value opts ctx k) else m k)"
  by (induction es arbitrary: seen m) auto

lemma extracted_runtime:
  "extracted_map (extract_descriptors opts ctx) k =
   (if \<exists>d \<in> set (fo_Descriptors opts). k \<in> de_Key ` set (yd_Entries d) then Some (runtime_value opts ctx k) else None)"
  by (auto simp: extracted_map_def extract_descriptors_def extract_entries_map image_iff)

subsection \<open>Selecting policies\<close>

definition specific_count :: "YamlDescriptor \<Rightarrow> nat" where
  "specific_count d = length [e \<leftarrow> yd_Entries d. de_Value e \<noteq> []]"

text \<open>The order of \<^verbatim>\<open>sort.Slice\<close>: more entries first, then more explicit values. Descriptors that
  compare equal keep their order.\<close>

definition sort_descriptors :: "YamlDescriptor list \<Rightarrow> YamlDescriptor list" where
  "sort_descriptors ds = sort_key (\<lambda>d. (- int (length (yd_Entries d)), - int (specific_count d))) ds"

definition dimension :: "YamlDescriptor \<Rightarrow> string" where
  "dimension p = join ''_'' (map de_Key (yd_Entries p))"

fun policy_matched :: "(string \<rightharpoonup> string) \<Rightarrow> DescriptorEntryDef list \<Rightarrow> bool" where
  "policy_matched ext [] = True"
| "policy_matched ext (e # es) =
     (case ext (de_Key e) of
        None \<Rightarrow> False
      | Some clientVal \<Rightarrow>
          if de_Value e \<noteq> [] \<and> de_Value e \<noteq> clientVal then False else policy_matched ext es)"

lemma policy_matched_iff:
  "policy_matched ext es \<longleftrightarrow>
     (\<forall>e \<in> set es. \<exists>v. ext (de_Key e) = Some v \<and> (de_Value e = [] \<or> de_Value e = v))"
  by (induction es) (auto split: option.splits)

subsection \<open>Decisions\<close>

record Decision =
  dc_Blocked :: bool
  dc_Limit :: "32 word"
  dc_LimitRemaining :: "32 word"
  dc_ResetDuration :: int

abbreviation seconds :: "int \<Rightarrow> int" where
  "seconds n \<equiv> n * 1000000000"

definition initial_decision :: Decision where
  "initial_decision = \<lparr>dc_Blocked = False, dc_Limit = 0, dc_LimitRemaining = - 1, dc_ResetDuration = 0\<rparr>"

definition note_remaining :: "32 word \<Rightarrow> 32 word \<Rightarrow> int \<Rightarrow> Decision \<Rightarrow> Decision" where
  "note_remaining remain lmt reset d =
     (if remain < dc_LimitRemaining d
      then d\<lparr>dc_LimitRemaining := remain, dc_Limit := lmt, dc_ResetDuration := reset\<rparr> else d)"

definition finish_decision :: "Decision \<Rightarrow> Decision" where
  "finish_decision d =
     (let d1 = (if dc_LimitRemaining d = - 1 then d\<lparr>dc_LimitRemaining := 0, dc_Limit := 0\<rparr> else d)
      in d1\<lparr>dc_Blocked := False\<rparr>)"

text \<open>What evaluating one selected policy comes to: the policy is skipped, it is over its limit in
  shadow mode, it blocks the request, the evaluation fails, or the request is within the limit.\<close>

datatype policy_result =
    PolicySkip
  | PolicyShadow "32 word" int
  | PolicyDeny Decision
  | PolicyFail string
  | PolicyPass "32 word" "32 word" int

text \<open>The loop over the policies that every executor has. \<open>off\<close> is the part of the batch buffer in use.\<close>

fun policy_loop ::
  "(YamlDescriptor \<Rightarrow> nat \<Rightarrow> 'w \<Rightarrow> policy_result \<times> nat \<times> 'w) \<Rightarrow> (string \<rightharpoonup> string) \<Rightarrow> string list \<Rightarrow>
   YamlDescriptor list \<Rightarrow> nat \<Rightarrow> Decision \<Rightarrow> 'w \<Rightarrow> (string, Decision) result \<times> 'w" where
  "policy_loop step ext evaluated [] off d w = (Ok (finish_decision d), w)"
| "policy_loop step ext evaluated (p # ps) off d w =
     (if dimension p \<in> set evaluated \<or> \<not> policy_matched ext (yd_Entries p)
      then policy_loop step ext evaluated ps off d w
      else
        (case step p off w of
           (PolicySkip, off', w') \<Rightarrow> policy_loop step ext (dimension p # evaluated) ps off' d w'
         | (PolicyShadow lmt reset, off', w') \<Rightarrow>
             policy_loop step ext (dimension p # evaluated) ps off' (note_remaining 0 lmt reset d) w'
         | (PolicyDeny d', off', w') \<Rightarrow> (Ok d', w')
         | (PolicyFail e, off', w') \<Rightarrow> (Err e, w')
         | (PolicyPass remain lmt reset, off', w') \<Rightarrow>
             policy_loop step ext (dimension p # evaluated) ps off' (note_remaining remain lmt reset d) w'))"

subsection \<open>The filter\<close>

definition ceil_seconds :: "int \<Rightarrow> int" where
  "ceil_seconds ns = - ((- ns) div 1000000000)"

type_synonym 'w executor = "string \<Rightarrow> DescriptorEntry list \<Rightarrow> int \<Rightarrow> 'w \<Rightarrow> (string, Decision) result \<times> 'w"

definition limit_headers :: "ResponseHeadersOpts \<Rightarrow> Decision \<Rightarrow> RequestContext \<Rightarrow> RequestContext" where
  "limit_headers rh d ctx =
     SetHeaderDownstream (rh_ResetHeader rh) (show_int (ceil_seconds (dc_ResetDuration d)))
       (SetHeaderDownstream (rh_RemainingHeader rh) (show_nat (unat (dc_LimitRemaining d)))
          (SetHeaderDownstream (rh_LimitHeader rh) (show_nat (unat (dc_Limit d))) ctx))"

definition rate_limiter_Execute ::
  "FilterOptions \<Rightarrow> 'w executor \<Rightarrow> RequestContext \<Rightarrow> 'w \<Rightarrow> string option \<times> RequestContext \<times> 'w" where
  "rate_limiter_Execute opts Evaluate ctx w =
     (case Evaluate (GetHeader ctx ''x-request-id'') (extract_descriptors opts ctx) (requestCost opts ctx) w of
        (Err e, w') \<Rightarrow> (Some e, ctx, w')
      | (Ok d, w') \<Rightarrow>
          (let c1 = (if rh_Enabled (fo_ResponseHeaders opts) then limit_headers (fo_ResponseHeaders opts) d ctx else ctx);
               c2 = (if dc_Blocked d
                     then c1\<lparr>ctx_Blocked := True, ctx_ResponseStatus := 429, ctx_ResponseBody := ''Too Many Requests''\<rparr>
                     else c1)
           in (None, c2, w')))"

definition NewRateLimiterFilter :: "FilterOptions \<Rightarrow> 'w executor \<Rightarrow> 'w base_filter" where
  "NewRateLimiterFilter opts Evaluate =
     \<lparr>bf_phases = None, bf_exec = rate_limiter_Execute (ApplyDefaults opts) Evaluate\<rparr>"

lemma limit_headers_lawful [simp]:
  "keeps_bookkeeping ctx (limit_headers rh d ctx)"
  "context_wf ctx \<Longrightarrow> context_wf (limit_headers rh d ctx)"
  "ctx_Blocked (limit_headers rh d ctx) = ctx_Blocked ctx"
  by (simp_all add: limit_headers_def) (simp add: SetHeaderDownstream_def Let_def)

lemma rate_limiter_Execute_cases:
  assumes "rate_limiter_Execute opts Evaluate ctx w = (err, c, w')"
  shows "err \<noteq> None \<and> c = ctx \<or>
    (\<exists>d c1. err = None \<and> c1 \<in> {ctx, limit_headers (fo_ResponseHeaders opts) d ctx} \<and>
       c = (if dc_Blocked d then Block 429 ''Too Many Requests'' c1 else c1))"
proof -
  obtain r w1 where ev: "Evaluate (GetHeader ctx ''x-request-id'') (extract_descriptors opts ctx) (requestCost opts ctx) w = (r, w1)"
    by fastforce
  show ?thesis
  proof (cases r)
    case (Inl e)
    with assms ev show ?thesis by (auto simp: rate_limiter_Execute_def)
  next
    case (Inr d)
    let ?c1 = "if rh_Enabled (fo_ResponseHeaders opts) then limit_headers (fo_ResponseHeaders opts) d ctx else ctx"
    have "err = None" "c = (if dc_Blocked d then Block 429 ''Too Many Requests'' ?c1 else ?c1)"
      using assms ev Inr by (auto simp: rate_limiter_Execute_def Let_def Block_def)
    then show ?thesis by (intro disjI2 exI [of _ d] exI [of _ ?c1]) simp
  qed
qed

lemma rate_limiter_lawful: "lawful_exec (bf_exec (NewRateLimiterFilter opts Evaluate))"
proof (rule lawful_execI)
  fix ctx c :: RequestContext and w w' err
  assume "bf_exec (NewRateLimiterFilter opts Evaluate) ctx w = (err, c, w')"
  then have "rate_limiter_Execute (ApplyDefaults opts) Evaluate ctx w = (err, c, w')"
    by (simp add: NewRateLimiterFilter_def)
  from rate_limiter_Execute_cases [OF this] show "keeps_bookkeeping ctx c \<and> (context_wf ctx \<longrightarrow> context_wf c)"
    by (auto split: if_splits)
qed

text \<open>only the address Envoy reports decides the address key of a limit: changing any request
  header, forwarded or mapped, leaves the runtime value of \<^verbatim>\<open>ip\<close>, \<^verbatim>\<open>client_ip\<close> and \<^verbatim>\<open>remote_ip\<close>
  unchanged, so a client cannot get a fresh counter by rotating headers.\<close>

theorem address_key_from_peer:
  assumes "k \<in> {''ip'', ''client_ip'', ''remote_ip''}"
    "\<exists>d \<in> set (fo_Descriptors opts). k \<in> de_Key ` set (yd_Entries d)"
  shows "extracted_map (extract_descriptors opts (SetHeaderUpstream h v ctx)) k =
      Some (if ctx_ClientIP ctx = [] then ''default'' else ctx_ClientIP ctx) \<and>
    extracted_map (extract_descriptors opts (ctx\<lparr>ctx_Headers := hs\<rparr>)) k =
      Some (if ctx_ClientIP ctx = [] then ''default'' else ctx_ClientIP ctx)"
  using assms by (auto simp: extracted_runtime runtime_value_def SetHeaderUpstream_def Let_def)

definition ex_policy :: "DescriptorEntryDef list \<Rightarrow> 32 word \<Rightarrow> string \<Rightarrow> YamlDescriptor" where
  "ex_policy es lmt u =
     \<lparr>yd_Entries = es, yd_Limit = lmt, yd_Unit = u, yd_ShadowMode = False, yd_StopIncrementWhenOverlimit = False,
      yd_FailOpen = False, yd_ShareThresholdPattern = [], yd_MaxTokens = 0, yd_FillRate = 0, yd_BucketCapacity = 0,
      yd_LeakRate = 0\<rparr>"

definition ex_options :: "YamlDescriptor list \<Rightarrow> FilterOptions" where
  "ex_options ds =
     \<lparr>fo_Domain = ''d'', fo_Algorithm = ''fixed_window'', fo_RedisService = ''r'', fo_HeaderMappings = [],
      fo_ResponseHeaders = \<lparr>rh_Enabled = True, rh_LimitHeader = [], rh_RemainingHeader = [], rh_ResetHeader = []\<rparr>,
      fo_DynamicCost = \<lparr>dy_Enabled = False, dy_SourceHeader = [], dy_DefaultFallbackCost = 0, dy_MaxAllowedCost = 0\<rparr>,
      fo_Descriptors = ds\<rparr>"

theorem address_key_from_peer_witness:
  "extracted_map (extract_descriptors (ex_options [ex_policy [\<lparr>de_Key = ''ip'', de_Value = []\<rparr>] 5 ''minute''])
     (SetHeaderUpstream ''ip'' ''1.2.3.4'' (new_context\<lparr>ctx_ClientIP := ''10.0.0.1''\<rparr>))) ''ip'' = Some ''10.0.0.1''"
  using address_key_from_peer [of "''ip''" "ex_options [ex_policy [\<lparr>de_Key = ''ip'', de_Value = []\<rparr>] 5 ''minute'']"
      "''ip''" "''1.2.3.4''" "new_context\<lparr>ctx_ClientIP := ''10.0.0.1''\<rparr>" Map.empty]
  by (simp add: ex_options_def ex_policy_def)

subsection \<open>Which policies are evaluated\<close>

text \<open>The policies the loop evaluates while none of them ends the request.\<close>

fun selected :: "(string \<rightharpoonup> string) \<Rightarrow> string list \<Rightarrow> YamlDescriptor list \<Rightarrow> YamlDescriptor list" where
  "selected ext evaluated [] = []"
| "selected ext evaluated (p # ps) =
     (if dimension p \<in> set evaluated \<or> \<not> policy_matched ext (yd_Entries p) then selected ext evaluated ps
      else p # selected ext (dimension p # evaluated) ps)"

definition passed :: "policy_result \<Rightarrow> bool" where
  "passed r = (case r of PolicyDeny _ \<Rightarrow> False | PolicyFail _ \<Rightarrow> False | _ \<Rightarrow> True)"

text \<open>Evaluating a list of policies one after the other, all of which let the request pass.\<close>

inductive evaluates ::
  "(YamlDescriptor \<Rightarrow> nat \<Rightarrow> 'w \<Rightarrow> policy_result \<times> nat \<times> 'w) \<Rightarrow> YamlDescriptor list \<Rightarrow> nat \<Rightarrow> 'w \<Rightarrow> 'w \<Rightarrow> bool"
  for step where
  evaluates_Nil: "evaluates step [] off w w"
| evaluates_Cons: "step p off w = (r, off', w') \<Longrightarrow> passed r \<Longrightarrow> evaluates step ps off' w' w'' \<Longrightarrow>
    evaluates step (p # ps) off w w''"

inductive_cases evaluates_ConsE: "evaluates step (p # ps) off w w'"

inductive_cases evaluates_NilE: "evaluates step [] off w w'"

text \<open>A decision that lets the request pass means that every selected policy was evaluated and passed.\<close>

lemma policy_loop_passed:
  assumes "policy_loop step ext evaluated ps off d w = (Ok d', w')" "\<not> dc_Blocked d'"
    and deny: "\<And>p off w d off' w'. step p off w = (PolicyDeny d, off', w') \<Longrightarrow> dc_Blocked d"
  shows "evaluates step (selected ext evaluated ps) off w w'"
  using assms(1)
proof (induction ps arbitrary: evaluated off d w)
  case Nil
  then show ?case by (auto intro: evaluates.intros)
next
  case (Cons p ps)
  show ?case
  proof (cases "dimension p \<in> set evaluated \<or> \<not> policy_matched ext (yd_Entries p)")
    case True
    with Cons show ?thesis by simp
  next
    case False
    obtain r off1 w1 where step: "step p off w = (r, off1, w1)" by (cases "step p off w")
    show ?thesis
    proof (cases "passed r")
      case True
      then obtain d1 where "policy_loop step ext (dimension p # evaluated) ps off1 d1 w1 = (Ok d', w')"
        using Cons.prems False step by (cases r) (auto simp: passed_def)
      from Cons.IH [OF this] step True False show ?thesis by (auto intro: evaluates.intros)
    next
      case failed: False
      with Cons.prems False step assms(2) deny [of p off w _ off1 w1] show ?thesis
        by (cases r) (auto simp: passed_def)
    qed
  qed
qed

lemma selected_props:
  assumes "p \<in> set (selected ext evaluated ps)"
  shows "p \<in> set ps \<and> policy_matched ext (yd_Entries p) \<and> dimension p \<notin> set evaluated"
  using assms by (induction ps arbitrary: evaluated) (force split: if_splits)+

lemma selected_first:
  assumes "p \<in> set (selected ext evaluated ps)" "sorted (map f ps)"
    "q \<in> set ps" "policy_matched ext (yd_Entries q)" "dimension q = dimension p"
  shows "f p \<le> f q"
  using assms
proof (induction ps arbitrary: evaluated)
  case (Cons a ps)
  show ?case
  proof (cases "dimension a \<in> set evaluated \<or> \<not> policy_matched ext (yd_Entries a)")
    case True
    with Cons.prems have p: "p \<in> set (selected ext evaluated ps)" by simp
    have "q \<noteq> a" using True Cons.prems(4,5) selected_props [OF p] by auto
    with Cons.IH [OF p] Cons.prems show ?thesis by simp
  next
    case False
    show ?thesis
    proof (cases "p = a")
      case True
      with Cons.prems show ?thesis by auto
    next
      case neq: False
      with Cons.prems False have p: "p \<in> set (selected ext (dimension a # evaluated) ps)" by simp
      with selected_props [OF this] Cons.prems have "q \<in> set ps" by auto
      with Cons.IH [OF p] Cons.prems show ?thesis by simp
    qed
  qed
qed simp

lemma selected_covers:
  assumes "q \<in> set ps" "policy_matched ext (yd_Entries q)"
  shows "dimension q \<in> set evaluated \<or> (\<exists>p \<in> set (selected ext evaluated ps). dimension p = dimension q)"
  using assms(1)
proof (induction ps arbitrary: evaluated)
  case (Cons a ps)
  show ?case
  proof (cases "q = a")
    case True
    with assms(2) show ?thesis by auto
  next
    case False
    with Cons.prems have "q \<in> set ps" by simp
    from Cons.IH [OF this, of evaluated] Cons.IH [OF this, of "dimension a # evaluated"] show ?thesis by auto
  qed
qed simp

definition more_specific :: "YamlDescriptor \<Rightarrow> YamlDescriptor \<Rightarrow> bool" where
  "more_specific q p \<longleftrightarrow> length (yd_Entries p) < length (yd_Entries q) \<or>
     length (yd_Entries p) = length (yd_Entries q) \<and> specific_count p < specific_count q"

lemma selected_most_specific:
  assumes "p \<in> set (selected ext [] (sort_descriptors ds))"
  shows "p \<in> set ds \<and> policy_matched ext (yd_Entries p) \<and>
    (\<forall>q \<in> set ds. policy_matched ext (yd_Entries q) \<and> dimension q = dimension p \<longrightarrow> \<not> more_specific q p)"
proof -
  let ?f = "\<lambda>d. (- int (length (yd_Entries d)), - int (specific_count d))"
  have "sorted (map ?f (sort_descriptors ds))" by (simp add: sort_descriptors_def)
  moreover have same: "set (sort_descriptors ds) = set ds" by (simp add: sort_descriptors_def)
  ultimately have "?f p \<le> ?f q" if "q \<in> set ds" "policy_matched ext (yd_Entries q)" "dimension q = dimension p" for q
    using selected_first [OF assms] that by blast
  then show ?thesis
    using selected_props [OF assms] same by (force simp: less_eq_prod_def more_specific_def)
qed

text \<open>a request that passes has passed the most specific policy of every dimension. With the
  policies in the order the executors sort them into, the loop lets a request pass only after it
  evaluated, one after the other, policies that all let it pass: each of them matches the request,
  no matching policy of its dimension is more specific (has more entries, or as many entries and
  more explicit values), and every dimension with a matching policy is among them.\<close>

theorem passing_needs_most_specific:
  assumes "policy_loop step ext [] (sort_descriptors ds) off d w = (Ok d', w')" "\<not> dc_Blocked d'"
    and "\<And>p off w d off' w'. step p off w = (PolicyDeny d, off', w') \<Longrightarrow> dc_Blocked d"
  shows "\<exists>ps. evaluates step ps off w w' \<and>
    (\<forall>p \<in> set ps. p \<in> set ds \<and> policy_matched ext (yd_Entries p) \<and>
       (\<forall>q \<in> set ds. policy_matched ext (yd_Entries q) \<and> dimension q = dimension p \<longrightarrow> \<not> more_specific q p)) \<and>
    (\<forall>q \<in> set ds. policy_matched ext (yd_Entries q) \<longrightarrow> (\<exists>p \<in> set ps. dimension p = dimension q))"
proof -
  have "set (sort_descriptors ds) = set ds" by (simp add: sort_descriptors_def)
  with selected_covers [of _ "sort_descriptors ds" ext "[]"]
  have "\<forall>q \<in> set ds. policy_matched ext (yd_Entries q) \<longrightarrow>
      (\<exists>p \<in> set (selected ext [] (sort_descriptors ds)). dimension p = dimension q)" by simp
  with policy_loop_passed [OF assms(1,2)] assms(3) selected_most_specific show ?thesis by blast
qed

definition ex_step :: "YamlDescriptor \<Rightarrow> nat \<Rightarrow> nat \<Rightarrow> policy_result \<times> nat \<times> nat" where
  "ex_step p off w =
     (if w < unat (yd_Limit p) then (PolicyPass (yd_Limit p - of_nat w) (yd_Limit p) 0, off, w + 1)
      else (PolicyDeny \<lparr>dc_Blocked = True, dc_Limit = yd_Limit p, dc_LimitRemaining = 0, dc_ResetDuration = 0\<rparr>, off, w))"

theorem passing_needs_most_specific_witness:
  "let gold = ex_policy [\<lparr>de_Key = ''plan'', de_Value = ''gold''\<rparr>] 600 ''minute'';
       other = ex_policy [\<lparr>de_Key = ''plan'', de_Value = []\<rparr>] 60 ''minute'' in
   \<exists>ps. evaluates ex_step ps 0 100 101 \<and> (\<exists>p \<in> set ps. dimension p = ''plan'' \<and> \<not> more_specific gold p)"
proof -
  let ?ext = "[''plan'' \<mapsto> ''gold'']"
  let ?gold = "ex_policy [\<lparr>de_Key = ''plan'', de_Value = ''gold''\<rparr>] 600 ''minute''"
  let ?other = "ex_policy [\<lparr>de_Key = ''plan'', de_Value = []\<rparr>] 60 ''minute''"
  let ?run = "policy_loop ex_step ?ext [] (sort_descriptors [?other, ?gold]) 0 initial_decision 100"
  have run: "?run = (Ok (finish_decision (note_remaining 500 600 0 initial_decision)), 101)"
    by (simp add: sort_descriptors_def ex_policy_def specific_count_def dimension_def insort_key.simps less_eq_prod_def
        ex_step_def)
  have open_d: "\<not> dc_Blocked (finish_decision (note_remaining 500 600 0 initial_decision))"
    by (simp add: finish_decision_def note_remaining_def initial_decision_def)
  have gold: "policy_matched ?ext (yd_Entries ?gold)" "dimension ?gold = ''plan''"
    by (simp_all add: ex_policy_def dimension_def)
  from passing_needs_most_specific [OF run open_d] obtain ps where
    "evaluates ex_step ps 0 100 101" "\<exists>p \<in> set ps. dimension p = dimension ?gold"
    "\<forall>p \<in> set ps. dimension ?gold = dimension p \<longrightarrow> \<not> more_specific ?gold p"
    using gold by (fastforce simp: ex_step_def split: if_splits)
  with gold(2) show ?thesis unfolding Let_def by metis
qed

text \<open>the dimension of a policy is not determined by its keys as documented: two policies over
  different keys can have the same dimension, and then only the first of them is evaluated.\<close>

theorem dimension_collision:
  "dimension (ex_policy [\<lparr>de_Key = ''user_plan'', de_Value = []\<rparr>] 5 ''minute'') =
     dimension (ex_policy [\<lparr>de_Key = ''user'', de_Value = []\<rparr>, \<lparr>de_Key = ''plan'', de_Value = []\<rparr>] 9 ''hour'') \<and>
   map yd_Limit (selected [''user_plan'' \<mapsto> ''a'', ''user'' \<mapsto> ''b'', ''plan'' \<mapsto> ''c''] []
     (sort_descriptors [ex_policy [\<lparr>de_Key = ''user_plan'', de_Value = []\<rparr>] 5 ''minute'',
        ex_policy [\<lparr>de_Key = ''user'', de_Value = []\<rparr>, \<lparr>de_Key = ''plan'', de_Value = []\<rparr>] 9 ''hour''])) = [9]"
  by (simp add: dimension_def sort_descriptors_def ex_policy_def specific_count_def less_eq_prod_def)

end
