(* ===== verification/Rate_Algorithms.thy ===== *)
theory Rate_Algorithms
  imports Rate_Limiter
begin

text \<open>
  The five rate limiting executors (\<^verbatim>\<open>internal/filters/rate_limiter\<close>: \<^verbatim>\<open>fixed_window.go\<close>,
  \<^verbatim>\<open>sliding_window.go\<close>, \<^verbatim>\<open>sliding_window_log.go\<close>, \<^verbatim>\<open>token_bucket.go\<close>, \<^verbatim>\<open>leaky_bucket.go\<close>,
  \<^verbatim>\<open>lua_script.go\<close>, \<^verbatim>\<open>executor.go\<close>). Redis and the local cache are parameters: records of the
  operations the code calls. A Lua script is a function on the data it sees; Redis runs it atomically.
  Numbers in scripts and floating point options are exact rationals.
\<close>

subsection \<open>Redis, the local cache and the executor's environment\<close>

datatype rvalue =
    RCount int                     \<comment> \<open>an integer\<close>
  | RBucket rat rat                \<comment> \<open>the level and the time of a bucket\<close>
  | RLog "(int \<times> string) list"    \<comment> \<open>a sorted set of scores and members\<close>

type_synonym db = "string \<rightharpoonup> rvalue"

datatype lua_value = LuaInt int | LuaNum rat | LuaNil

type_synonym script = "db \<Rightarrow> lua_value list \<times> db"

record 'r redis_ops =
  ro_incrby_expire :: "string \<Rightarrow> int \<Rightarrow> int \<Rightarrow> 'r \<Rightarrow> (string, 64 word) result \<times> 'r"
  ro_evalsha :: "string \<Rightarrow> script \<Rightarrow> 'r \<Rightarrow> (string, lua_value list) result \<times> 'r"
  ro_script_load :: "string \<Rightarrow> 'r \<Rightarrow> (string, string) result \<times> 'r"

record 'c cache_ops =
  co_Get :: "string \<Rightarrow> 'c \<Rightarrow> bool"
  co_Set :: "string \<Rightarrow> int \<Rightarrow> 'c \<Rightarrow> 'c"

text \<open>The readings of the clock (in nanoseconds) and of the random source come from sequences.\<close>

record ('r, 'c) limiter_world =
  lw_redis :: 'r
  lw_cache :: 'c
  lw_clock :: "nat \<Rightarrow> int"
  lw_rand :: "nat \<Rightarrow> int"
  lw_logCounter :: "64 word"
  lw_sha :: string

record ('r, 'c) limiter_env =
  le_client :: "'r redis_ops"
  le_options :: FilterOptions
  le_localCache :: "'c cache_ops option"
  le_script :: string

definition time_Now :: "('r, 'c) limiter_world \<Rightarrow> int \<times> ('r, 'c) limiter_world" where
  "time_Now w = (lw_clock w 0, w\<lparr>lw_clock := (\<lambda>n. lw_clock w (Suc n))\<rparr>)"

definition Int63n :: "int \<Rightarrow> ('r, 'c) limiter_world \<Rightarrow> int \<times> ('r, 'c) limiter_world" where
  "Int63n n w = (lw_rand w 0 mod n, w\<lparr>lw_rand := (\<lambda>i. lw_rand w (Suc i))\<rparr>)"

definition cache_hit :: "('r, 'c) limiter_env \<Rightarrow> string \<Rightarrow> ('r, 'c) limiter_world \<Rightarrow> bool" where
  "cache_hit env key w = (case le_localCache env of None \<Rightarrow> False | Some co \<Rightarrow> co_Get co key (lw_cache w))"

definition cache_put :: "('r, 'c) limiter_env \<Rightarrow> string \<Rightarrow> int \<Rightarrow> ('r, 'c) limiter_world \<Rightarrow> ('r, 'c) limiter_world" where
  "cache_put env key ttl w =
     (case le_localCache env of None \<Rightarrow> w | Some co \<Rightarrow> w\<lparr>lw_cache := co_Set co key ttl (lw_cache w)\<rparr>)"

definition getDivider :: "string \<Rightarrow> int" where
  "getDivider u =
     (let l = to_lower u in
      if l = ''second'' then 1 else if l = ''minute'' then 60 else if l = ''hour'' then 3600
      else if l = ''day'' then 86400 else if l = ''week'' then 604800 else if l = ''month'' then 2592000
      else if l = ''year'' then 31536000 else 60)"

lemma getDivider_pos [simp]: "0 < getDivider u"
  by (simp add: getDivider_def Let_def)

subsection \<open>Scripts\<close>

definition contains_str :: "string \<Rightarrow> string \<Rightarrow> bool" where
  "contains_str s p = list_ex (\<lambda>i. has_prefix (drop i s) p) [0 ..< Suc (length s)]"

definition run_evalsha ::
  "('r, 'c) limiter_env \<Rightarrow> script \<Rightarrow> ('r, 'c) limiter_world \<Rightarrow> (string, lua_value list) result \<times> ('r, 'c) limiter_world" where
  "run_evalsha env fn w =
     (let (v, r) = ro_evalsha (le_client env) (lw_sha w) fn (lw_redis w) in (v, w\<lparr>lw_redis := r\<rparr>))"

definition lua_Eval ::
  "('r, 'c) limiter_env \<Rightarrow> string \<Rightarrow> script \<Rightarrow> ('r, 'c) limiter_world \<Rightarrow>
   (string, lua_value list) result \<times> ('r, 'c) limiter_world" where
  "lua_Eval env body fn w =
     (case run_evalsha env fn w of
        (Ok v, w1) \<Rightarrow> (Ok v, w1)
      | (Err e, w1) \<Rightarrow>
          if \<not> contains_str e ''NOSCRIPT'' then (Err e, w1)
          else
            (case ro_script_load (le_client env) body (lw_redis w1) of
               (Err e', r) \<Rightarrow> (Err (''SCRIPT LOAD failed: '' @ e'), w1\<lparr>lw_redis := r\<rparr>)
             | (Ok newSha, r) \<Rightarrow> run_evalsha env fn (w1\<lparr>lw_redis := r, lw_sha := newSha\<rparr>)))"

text \<open>The token bucket: its state is the number of tokens and the time it was written.\<close>

definition token_bucket ::
  "rat \<Rightarrow> rat \<Rightarrow> rat \<Rightarrow> rat \<Rightarrow> (rat \<times> rat) option \<Rightarrow> (bool \<times> rat \<times> rat) \<times> (rat \<times> rat) option" where
  "token_bucket max_tokens fill_rate cost now st =
     (let tokens = (case st of None \<Rightarrow> max_tokens | Some (t, l) \<Rightarrow> t);
          last_updated = (case st of None \<Rightarrow> now | Some (t, l) \<Rightarrow> l);
          elapsed = max 0 (now - last_updated);
          replenished = tokens + elapsed * fill_rate;
          tokens = max 0 (min max_tokens replenished);
          allowed = (tokens \<ge> cost);
          tokens' = (if allowed then tokens - cost else tokens);
          st' = (if allowed then Some (tokens', now) else st);
          reset = (if fill_rate > 0
                   then (if allowed then (max_tokens - tokens') / fill_rate else (cost - tokens') / fill_rate)
                   else 0)
      in ((allowed, tokens', max 0 reset), st'))"

text \<open>The leaky bucket: its state is the water level and the time it was written.\<close>

definition leaky_bucket ::
  "rat \<Rightarrow> rat \<Rightarrow> rat \<Rightarrow> rat \<Rightarrow> (rat \<times> rat) option \<Rightarrow> (bool \<times> rat \<times> rat) \<times> (rat \<times> rat) option" where
  "leaky_bucket capacity leak_rate cost now st =
     (let water = (case st of None \<Rightarrow> 0 | Some (v, l) \<Rightarrow> v);
          last_updated = (case st of None \<Rightarrow> now | Some (v, l) \<Rightarrow> l);
          elapsed = max 0 (now - last_updated);
          leaked = elapsed * leak_rate;
          water = max 0 (water - leaked);
          allowed = (water + cost \<le> capacity);
          water' = (if allowed then water + cost else water);
          st' = (if allowed then Some (water', now) else st);
          reset = (if leak_rate > 0
                   then (if allowed then water' / leak_rate else ((water' + cost) - capacity) / leak_rate)
                   else 0)
      in ((allowed, water', reset), st'))"

text \<open>The sliding log: admitted requests with their times in milliseconds. \<^verbatim>\<open>ZADD\<close> of a member that
  exists replaces its score.\<close>

definition zadd :: "int \<Rightarrow> string \<Rightarrow> (int \<times> string) list \<Rightarrow> (int \<times> string) list" where
  "zadd score member zs = filter (\<lambda>(s, m). m \<noteq> member) zs @ [(score, member)]"

definition zremrangebyscore :: "int \<Rightarrow> int \<Rightarrow> (int \<times> string) list \<Rightarrow> (int \<times> string) list" where
  "zremrangebyscore lo hi zs = filter (\<lambda>(s, m). \<not> (lo \<le> s \<and> s \<le> hi)) zs"

definition zoldest :: "(int \<times> string) list \<Rightarrow> int option" where
  "zoldest zs = (case zs of [] \<Rightarrow> None | z # _ \<Rightarrow> Some (fold (\<lambda>(s, m) a. min s a) zs (fst z)))"

definition sliding_log ::
  "int \<Rightarrow> int \<Rightarrow> int \<Rightarrow> string \<Rightarrow> (int \<times> string) list \<Rightarrow> (bool \<times> int) \<times> (int \<times> string) list" where
  "sliding_log limit now window member zs =
     (let zs1 = zremrangebyscore 0 (now - window) zs; cnt = int (length zs1) in
      if cnt < limit then ((True, limit - cnt - 1), zadd now member zs1)
      else
        (let reset = (case zoldest zs1 of None \<Rightarrow> window | Some oldest \<Rightarrow> window - (now - oldest))
         in ((False, max 0 reset), zs1)))"

text \<open>The sliding window counter.\<close>

definition sliding_window :: "int \<Rightarrow> int \<Rightarrow> rat \<Rightarrow> int \<Rightarrow> int \<Rightarrow> (bool \<times> int) \<times> int" where
  "sliding_window limit cost weight previous_count current_count =
     (let estimated_count = \<lceil>of_int previous_count * weight + of_int current_count\<rceil> in
      if estimated_count + cost \<le> limit then ((True, limit - (estimated_count + cost)), current_count + cost)
      else ((False, limit - estimated_count), current_count))"

definition bucket_at :: "db \<Rightarrow> string \<Rightarrow> (rat \<times> rat) option" where
  "bucket_at d k = (case d k of Some (RBucket v l) \<Rightarrow> Some (v, l) | _ \<Rightarrow> None)"

definition counter_at :: "db \<Rightarrow> string \<Rightarrow> int" where
  "counter_at d k = (case d k of Some (RCount n) \<Rightarrow> n | _ \<Rightarrow> 0)"

definition log_at :: "db \<Rightarrow> string \<Rightarrow> (int \<times> string) list" where
  "log_at d k = (case d k of Some (RLog zs) \<Rightarrow> zs | _ \<Rightarrow> [])"

definition lua_bool :: "bool \<Rightarrow> lua_value" where
  "lua_bool b = LuaInt (if b then 1 else 0)"

definition bucket_script ::
  "(rat \<Rightarrow> rat \<Rightarrow> rat \<Rightarrow> rat \<Rightarrow> (rat \<times> rat) option \<Rightarrow> (bool \<times> rat \<times> rat) \<times> (rat \<times> rat) option) \<Rightarrow>
   string \<Rightarrow> rat \<Rightarrow> rat \<Rightarrow> rat \<Rightarrow> rat \<Rightarrow> script" where
  "bucket_script body key quota rate cost now d =
     (case body quota rate cost now (bucket_at d key) of
        ((allowed, level, reset), st) \<Rightarrow>
          ([lua_bool allowed, LuaNum level, LuaInt \<lceil>reset\<rceil>],
           if allowed then (case st of Some (v, l) \<Rightarrow> d(key \<mapsto> RBucket v l) | None \<Rightarrow> d) else d))"

definition token_script :: "string \<Rightarrow> rat \<Rightarrow> rat \<Rightarrow> rat \<Rightarrow> rat \<Rightarrow> script" where
  "token_script = bucket_script token_bucket"

definition leaky_script :: "string \<Rightarrow> rat \<Rightarrow> rat \<Rightarrow> rat \<Rightarrow> rat \<Rightarrow> script" where
  "leaky_script = bucket_script leaky_bucket"

definition log_script :: "string \<Rightarrow> int \<Rightarrow> int \<Rightarrow> int \<Rightarrow> string \<Rightarrow> script" where
  "log_script key limit now window member d =
     (case sliding_log limit now window member (log_at d key) of
        ((allowed, v), zs) \<Rightarrow>
          ([lua_bool allowed, LuaInt v], if zs = [] then d(key := None) else d(key \<mapsto> RLog zs)))"

definition sliding_script :: "string \<Rightarrow> string \<Rightarrow> int \<Rightarrow> int \<Rightarrow> rat \<Rightarrow> script" where
  "sliding_script current_key previous_key limit cost weight d =
     (case sliding_window limit cost weight (counter_at d previous_key) (counter_at d current_key) of
        ((allowed, v), n) \<Rightarrow>
          ([lua_bool allowed, LuaInt v], if allowed then d(current_key \<mapsto> RCount n) else d))"

subsection \<open>Keys\<close>

definition batch_offset :: "nat \<Rightarrow> nat \<Rightarrow> nat \<Rightarrow> nat \<Rightarrow> nat" where
  "batch_offset bufsize off estimated used = (if off + estimated \<le> bufsize then off + used else off)"

definition entries_size :: "(string \<rightharpoonup> string) \<Rightarrow> DescriptorEntryDef list \<Rightarrow> nat" where
  "entries_size ext es = sum_list (map (\<lambda>e. length (de_Key e) + length (get_or_empty ext (de_Key e)) + 2) es)"

text \<open>The \<^verbatim>\<open>_key_value\<close> sections of a key.\<close>

definition key_sections :: "(string \<rightharpoonup> string) \<Rightarrow> DescriptorEntryDef list \<Rightarrow> string" where
  "key_sections ext es = concat (map (\<lambda>e. ''_'' @ de_Key e @ ''_'' @ get_or_empty ext (de_Key e)) es)"

definition fixed_key :: "string \<Rightarrow> (string \<rightharpoonup> string) \<Rightarrow> DescriptorEntryDef list \<Rightarrow> int \<Rightarrow> string" where
  "fixed_key domain ext es roundedTimestamp = domain @ key_sections ext es @ ''_'' @ show_int roundedTimestamp"

definition sliding_key :: "string \<Rightarrow> (string \<rightharpoonup> string) \<Rightarrow> DescriptorEntryDef list \<Rightarrow> int \<Rightarrow> string" where
  "sliding_key domain ext es roundedTimestamp =
     ''{'' @ domain @ key_sections ext es @ ''}'' @ ''_'' @ show_int roundedTimestamp"

text \<open>The keys with a suffix are put together differently in the batch buffer and on the heap.\<close>

definition batch_key :: "string \<Rightarrow> (string \<rightharpoonup> string) \<Rightarrow> DescriptorEntryDef list \<Rightarrow> string \<Rightarrow> string" where
  "batch_key domain ext es sfx =
     domain @ ''_'' @ concat (map (\<lambda>e. de_Key e @ ''_'' @ get_or_empty ext (de_Key e) @ ''_'') es) @ sfx"

definition heap_key :: "string \<Rightarrow> (string \<rightharpoonup> string) \<Rightarrow> DescriptorEntryDef list \<Rightarrow> string \<Rightarrow> string" where
  "heap_key domain ext es sfx = domain @ key_sections ext es @ ''_'' @ sfx"

definition suffix_key :: "string \<Rightarrow> (string \<rightharpoonup> string) \<Rightarrow> DescriptorEntryDef list \<Rightarrow> string \<Rightarrow> nat \<Rightarrow> string \<times> nat" where
  "suffix_key domain ext es sfx off =
     (let estimatedSize = length domain + Suc (length sfx) + 30 + entries_size ext es in
      if off + estimatedSize \<le> 512
      then (let k = batch_key domain ext es sfx in (k, off + length k))
      else (heap_key domain ext es sfx, off))"

lemma batch_key_heap_key: "batch_key domain ext es sfx = heap_key domain ext es sfx"
proof -
  have "''_'' @ concat (map (\<lambda>e. de_Key e @ ''_'' @ get_or_empty ext (de_Key e) @ ''_'') es) =
      key_sections ext es @ ''_''"
    by (induction es) (simp_all add: key_sections_def)
  then have "(''_'' @ concat (map (\<lambda>e. de_Key e @ ''_'' @ get_or_empty ext (de_Key e) @ ''_'') es)) @ sfx =
      (key_sections ext es @ ''_'') @ sfx"
    by simp
  then show ?thesis by (simp add: batch_key_def heap_key_def)
qed

lemma fst_suffix_key: "fst (suffix_key domain ext es sfx off) = heap_key domain ext es sfx"
  by (simp add: suffix_key_def Let_def batch_key_heap_key)

subsection \<open>Fixed window\<close>

definition blocked_decision :: "32 word \<Rightarrow> 32 word \<Rightarrow> int \<Rightarrow> Decision" where
  "blocked_decision lmt remain reset =
     \<lparr>dc_Blocked = True, dc_Limit = lmt, dc_LimitRemaining = remain, dc_ResetDuration = reset\<rparr>"

definition redis_failed :: "YamlDescriptor \<Rightarrow> string \<Rightarrow> policy_result" where
  "redis_failed p e = (if yd_FailOpen p then PolicySkip else PolicyFail e)"

definition fixed_step ::
  "('r, 'c) limiter_env \<Rightarrow> int \<Rightarrow> (string \<rightharpoonup> string) \<Rightarrow> int \<Rightarrow> YamlDescriptor \<Rightarrow> nat \<Rightarrow> ('r, 'c) limiter_world \<Rightarrow>
   policy_result \<times> nat \<times> ('r, 'c) limiter_world" where
  "fixed_step env now ext cost p off w =
     (let divider = getDivider (yd_Unit p);
          roundedTimestamp = (now div divider) * divider;
          resetSeconds = divider - now mod divider;
          domain = fo_Domain (le_options env);
          key = fixed_key domain ext (yd_Entries p) roundedTimestamp;
          off' = batch_offset 512 off (length domain + 30 + entries_size ext (yd_Entries p)) (length key) in
      if cache_hit env key w then (PolicyDeny (blocked_decision (yd_Limit p) 0 (seconds resetSeconds)), off', w)
      else
        (let (jitter, w1) = Int63n 5 w;
             (res, r) = ro_incrby_expire (le_client env) key cost (resetSeconds + jitter) (lw_redis w1);
             w2 = w1\<lparr>lw_redis := r\<rparr> in
         case res of
           Err e \<Rightarrow> (redis_failed p (''redis pipeline fail for key '' @ key @ '': '' @ e), off', w2)
         | Ok cnt \<Rightarrow>
             if cnt > ucast (yd_Limit p) then
               (if yd_ShadowMode p then (PolicyShadow (yd_Limit p) (seconds resetSeconds), off', w2)
                else
                  (PolicyDeny (blocked_decision (yd_Limit p) 0 (seconds resetSeconds)), off',
                   if cost = 1 \<or> cnt - word_of_int cost \<ge> ucast (yd_Limit p) then cache_put env key resetSeconds w2 else w2))
             else (PolicyPass (yd_Limit p - ucast cnt) (yd_Limit p) (seconds resetSeconds), off', w2)))"

definition fixed_window_Evaluate :: "('r, 'c) limiter_env \<Rightarrow> ('r, 'c) limiter_world executor" where
  "fixed_window_Evaluate env reqID ds cost w =
     (let (t, w1) = time_Now w; ext = extracted_map ds in
      policy_loop (fixed_step env (t div 1000000000) ext cost) ext [] (fo_Descriptors (le_options env)) 0
        initial_decision w1)"

subsection \<open>Token bucket and leaky bucket\<close>

text \<open>The time passed to the scripts is in seconds with six decimals.\<close>

definition lua_now :: "int \<Rightarrow> rat" where
  "lua_now ns = of_int ((ns + 500) div 1000) / 1000000"

definition reply_int :: "lua_value \<Rightarrow> int" where
  "reply_int v = (case v of LuaInt n \<Rightarrow> n | _ \<Rightarrow> 0)"

definition reply_num :: "lua_value \<Rightarrow> rat" where
  "reply_num v = (case v of LuaInt n \<Rightarrow> of_int n | LuaNum q \<Rightarrow> q | LuaNil \<Rightarrow> 0)"

definition to_uint32 :: "rat \<Rightarrow> 32 word" where
  "to_uint32 q = word_of_int \<lfloor>q\<rfloor>"

definition token_ttl :: "YamlDescriptor \<Rightarrow> int" where
  "token_ttl p = (if yd_FillRate p > 0 then max 60 \<lceil>yd_MaxTokens p / yd_FillRate p\<rceil> else 3600)"

definition leak_per_second :: "YamlDescriptor \<Rightarrow> rat" where
  "leak_per_second p = yd_LeakRate p / of_int (getDivider (yd_Unit p))"

definition leaky_ttl :: "YamlDescriptor \<Rightarrow> int" where
  "leaky_ttl p =
     (let ttl = (if leak_per_second p > 0 then \<lceil>of_int (uint (yd_BucketCapacity p)) / leak_per_second p\<rceil> else 0)
      in if ttl \<le> 0 then 60 else ttl)"

text \<open>What the two executors do with the reply of the script.\<close>

definition bucket_reply ::
  "('r, 'c) limiter_env \<Rightarrow> int \<Rightarrow> YamlDescriptor \<Rightarrow> string \<Rightarrow> 32 word \<Rightarrow> (lua_value \<Rightarrow> 32 word) \<Rightarrow> lua_value list \<Rightarrow>
   ('r, 'c) limiter_world \<Rightarrow> policy_result \<times> ('r, 'c) limiter_world" where
  "bucket_reply env cost p key quota remaining result w =
     (if length result < 3 then (redis_failed p ''invalid lua script response'', w)
      else
        (let allowed = reply_int (result ! 0);
             remain = remaining (result ! 1);
             resetDuration = reply_int (result ! 2) in
         if allowed = 0 then
           (if yd_ShadowMode p then (PolicyShadow quota (seconds resetDuration), w)
            else
              (PolicyDeny (blocked_decision quota remain (seconds resetDuration)),
               if resetDuration > 0 \<and> (remain = 0 \<or> cost = 1) then cache_put env key resetDuration w else w))
         else (PolicyPass remain quota (seconds resetDuration), w)))"

definition token_remaining :: "lua_value \<Rightarrow> 32 word" where
  "token_remaining v = to_uint32 (max 0 (reply_num v))"

definition token_step ::
  "('r, 'c) limiter_env \<Rightarrow> int \<Rightarrow> (string \<rightharpoonup> string) \<Rightarrow> int \<Rightarrow> YamlDescriptor \<Rightarrow> nat \<Rightarrow> ('r, 'c) limiter_world \<Rightarrow>
   policy_result \<times> nat \<times> ('r, 'c) limiter_world" where
  "token_step env ns ext cost p off w =
     (let (key, off') = suffix_key (fo_Domain (le_options env)) ext (yd_Entries p) ''token_bucket'' off;
          quota = to_uint32 (yd_MaxTokens p) in
      if cache_hit env key w then (PolicyDeny (blocked_decision quota 0 (seconds (token_ttl p))), off', w)
      else
        (case lua_Eval env (le_script env) (token_script key (yd_MaxTokens p) (yd_FillRate p) (of_int cost) (lua_now ns)) w of
           (Err e, w1) \<Rightarrow> (redis_failed p (''redis token bucket fail for key '' @ key @ '': '' @ e), off', w1)
         | (Ok result, w1) \<Rightarrow>
             (let (res, w2) = bucket_reply env cost p key quota token_remaining result w1 in (res, off', w2))))"

definition token_bucket_Evaluate :: "('r, 'c) limiter_env \<Rightarrow> ('r, 'c) limiter_world executor" where
  "token_bucket_Evaluate env reqID ds cost w =
     (let (ns, w1) = time_Now w; ext = extracted_map ds in
      policy_loop (token_step env ns ext cost) ext [] (fo_Descriptors (le_options env)) 0 initial_decision w1)"

definition leaky_remaining :: "32 word \<Rightarrow> lua_value \<Rightarrow> 32 word" where
  "leaky_remaining capacity v =
     (if of_int (uint capacity) > reply_num v then to_uint32 (of_int (uint capacity) - reply_num v) else 0)"

definition leaky_step ::
  "('r, 'c) limiter_env \<Rightarrow> int \<Rightarrow> (string \<rightharpoonup> string) \<Rightarrow> int \<Rightarrow> YamlDescriptor \<Rightarrow> nat \<Rightarrow> ('r, 'c) limiter_world \<Rightarrow>
   policy_result \<times> nat \<times> ('r, 'c) limiter_world" where
  "leaky_step env ns ext cost p off w =
     (let (key, off') = suffix_key (fo_Domain (le_options env)) ext (yd_Entries p) ''leaky_queue'' off;
          quota = yd_BucketCapacity p in
      if cache_hit env key w then (PolicyDeny (blocked_decision quota 0 (seconds (leaky_ttl p))), off', w)
      else
        (case lua_Eval env (le_script env)
                (leaky_script key (of_int (uint quota)) (leak_per_second p) (of_int cost) (lua_now ns)) w of
           (Err e, w1) \<Rightarrow> (redis_failed p (''redis leaky bucket fail for key '' @ key @ '': '' @ e), off', w1)
         | (Ok result, w1) \<Rightarrow>
             (let (res, w2) = bucket_reply env cost p key quota (leaky_remaining quota) result w1 in (res, off', w2))))"

definition leaky_bucket_Evaluate :: "('r, 'c) limiter_env \<Rightarrow> ('r, 'c) limiter_world executor" where
  "leaky_bucket_Evaluate env reqID ds cost w =
     (let (ns, w1) = time_Now w; ext = extracted_map ds in
      policy_loop (leaky_step env ns ext cost) ext [] (fo_Descriptors (le_options env)) 0 initial_decision w1)"

subsection \<open>Sliding window counter\<close>

text \<open>The weight passed to the script has four decimals.\<close>

definition lua_weight :: "int \<Rightarrow> int \<Rightarrow> rat" where
  "lua_weight windowSize elapsed =
     of_int \<lfloor>of_int (windowSize - elapsed) / of_int windowSize * 10000 + (1 / 2 :: rat)\<rfloor> / 10000"

definition sliding_step ::
  "('r, 'c) limiter_env \<Rightarrow> int \<Rightarrow> (string \<rightharpoonup> string) \<Rightarrow> int \<Rightarrow> YamlDescriptor \<Rightarrow> nat \<Rightarrow> ('r, 'c) limiter_world \<Rightarrow>
   policy_result \<times> nat \<times> ('r, 'c) limiter_world" where
  "sliding_step env now ext cost p off w =
     (let windowSize = getDivider (yd_Unit p);
          currentRounded = (now div windowSize) * windowSize;
          previousRounded = currentRounded - windowSize;
          domain = fo_Domain (le_options env);
          currentKey = sliding_key domain ext (yd_Entries p) currentRounded;
          previousKey = sliding_key domain ext (yd_Entries p) previousRounded;
          off' = batch_offset 1024 off ((length domain + 30) * 2 + 2 * entries_size ext (yd_Entries p))
                   (length currentKey + length previousKey);
          elapsed = now mod windowSize;
          resetSeconds = windowSize - elapsed in
      if cache_hit env currentKey w then (PolicyDeny (blocked_decision (yd_Limit p) 0 (seconds resetSeconds)), off', w)
      else
        (case lua_Eval env (le_script env)
                (sliding_script currentKey previousKey (uint (yd_Limit p)) cost (lua_weight windowSize elapsed)) w of
           (Err e, w1) \<Rightarrow>
             (redis_failed p (''redis sliding window evaluate failed for key '' @ currentKey @ '': '' @ e), off', w1)
         | (Ok result, w1) \<Rightarrow>
             if length result < 2 then (redis_failed p ''invalid lua script response length'', off', w1)
             else
               (let allowed = reply_int (result ! 0);
                    remain = to_uint32 (max 0 (of_int (reply_int (result ! 1)))) in
                if allowed = 0 then
                  (if yd_ShadowMode p then (PolicyShadow (yd_Limit p) (seconds resetSeconds), off', w1)
                   else
                     (PolicyDeny (blocked_decision (yd_Limit p) 0 (seconds resetSeconds)), off',
                      if resetSeconds > 0 then cache_put env currentKey resetSeconds w1 else w1))
                else (PolicyPass remain (yd_Limit p) (seconds resetSeconds), off', w1))))"

definition sliding_window_Evaluate :: "('r, 'c) limiter_env \<Rightarrow> ('r, 'c) limiter_world executor" where
  "sliding_window_Evaluate env reqID ds cost w =
     (let (t, w1) = time_Now w; ext = extracted_map ds in
      policy_loop (sliding_step env (t div 1000000000) ext cost) ext [] (fo_Descriptors (le_options env)) 0
        initial_decision w1)"

subsection \<open>Sliding window log\<close>

abbreviation milliseconds :: "int \<Rightarrow> int" where
  "milliseconds n \<equiv> n * 1000000"

definition member_id :: "string \<Rightarrow> ('r, 'c) limiter_world \<Rightarrow> string \<times> ('r, 'c) limiter_world" where
  "member_id reqID w =
     (let (t, w1) = time_Now w; micros = show_int (t div 1000) in
      if reqID \<noteq> [] then (micros @ ''_'' @ reqID, w1)
      else
        (let n = lw_logCounter w1 + 1
         in (micros @ ''_'' @ show_nat (unat n), w1\<lparr>lw_logCounter := n\<rparr>)))"

definition log_step ::
  "('r, 'c) limiter_env \<Rightarrow> int \<Rightarrow> string \<Rightarrow> (string \<rightharpoonup> string) \<Rightarrow> YamlDescriptor \<Rightarrow> nat \<Rightarrow> ('r, 'c) limiter_world \<Rightarrow>
   policy_result \<times> nat \<times> ('r, 'c) limiter_world" where
  "log_step env nowMs reqID ext p off w =
     (let windowMs = getDivider (yd_Unit p) * 1000;
          (key, off') = suffix_key (fo_Domain (le_options env)) ext (yd_Entries p) ''sliding_log'' off in
      if cache_hit env key w then (PolicyDeny (blocked_decision (yd_Limit p) 0 (milliseconds windowMs)), off', w)
      else
        (let (memberID, w1) = member_id reqID w in
         case lua_Eval env (le_script env) (log_script key (uint (yd_Limit p)) nowMs windowMs memberID) w1 of
           (Err e, w2) \<Rightarrow> (redis_failed p (''redis sliding log fail for key '' @ key @ '': '' @ e), off', w2)
         | (Ok result, w2) \<Rightarrow>
             if length result < 2 then (redis_failed p ''invalid sliding log script response length'', off', w2)
             else if reply_int (result ! 0) = 0 then
               (let resetMs = reply_int (result ! 1) in
                if yd_ShadowMode p then (PolicyShadow (yd_Limit p) (milliseconds resetMs), off', w2)
                else
                  (PolicyDeny (blocked_decision (yd_Limit p) 0 (milliseconds resetMs)), off',
                   if resetMs > 0 then cache_put env key (max 1 (- ((- resetMs) div 1000))) w2 else w2))
             else
               (PolicyPass (to_uint32 (max 0 (of_int (reply_int (result ! 1))))) (yd_Limit p) (milliseconds windowMs),
                off', w2)))"

definition sliding_window_log_Evaluate :: "('r, 'c) limiter_env \<Rightarrow> ('r, 'c) limiter_world executor" where
  "sliding_window_log_Evaluate env reqID ds cost w =
     (let (t, w1) = time_Now w; ext = extracted_map ds in
      policy_loop (log_step env (t div 1000000) reqID ext) ext [] (fo_Descriptors (le_options env)) 0
        initial_decision w1)"

subsection \<open>Choosing the executor\<close>

datatype executor_error = NoRedisClient | LogWithDynamicCost | UnsupportedAlgorithm string

text \<open>The constructors sort the descriptors.\<close>

definition executor_options :: "FilterOptions \<Rightarrow> FilterOptions" where
  "executor_options opts = opts\<lparr>fo_Descriptors := sort_descriptors (fo_Descriptors opts)\<rparr>"

definition new_env :: "'r redis_ops \<Rightarrow> 'c cache_ops \<Rightarrow> string \<Rightarrow> FilterOptions \<Rightarrow> ('r, 'c) limiter_env" where
  "new_env client cache body opts =
     \<lparr>le_client = client, le_options = executor_options opts, le_localCache = Some cache, le_script = body\<rparr>"

text \<open>\<open>bodies\<close> gives the text of the script of an algorithm.\<close>

definition ResolveExecutor ::
  "string \<Rightarrow> 'r redis_ops option \<Rightarrow> 'c cache_ops \<Rightarrow> (string \<Rightarrow> string) \<Rightarrow> FilterOptions \<Rightarrow>
   (executor_error, ('r, 'c) limiter_world executor) result" where
  "ResolveExecutor algorithm client cache bodies opts =
     (case client of
        None \<Rightarrow> Err NoRedisClient
      | Some cl \<Rightarrow>
          (let algo = to_lower (trim_space algorithm); env = new_env cl cache (bodies algo) opts in
           if algo = ''fixed_window'' then Ok (fixed_window_Evaluate env)
           else if algo = ''sliding_window_counter'' then Ok (sliding_window_Evaluate env)
           else if algo = ''token_bucket'' then Ok (token_bucket_Evaluate env)
           else if algo = ''sliding_window_log'' then
             (if dy_Enabled (fo_DynamicCost opts) then Err LogWithDynamicCost else Ok (sliding_window_log_Evaluate env))
           else if algo = ''leaky_bucket'' then Ok (leaky_bucket_Evaluate env)
           else Err (UnsupportedAlgorithm algorithm)))"

subsection \<open>The buckets over time\<close>

text \<open>The tokens in the bucket at a time.\<close>

definition token_level :: "rat \<Rightarrow> rat \<Rightarrow> (rat \<times> rat) option \<Rightarrow> rat \<Rightarrow> rat" where
  "token_level m f st t = (case st of None \<Rightarrow> m | Some (v, l) \<Rightarrow> max 0 (min m (v + max 0 (t - l) * f)))"

fun token_admitted :: "rat \<Rightarrow> rat \<Rightarrow> (rat \<times> rat) list \<Rightarrow> (rat \<times> rat) option \<Rightarrow> rat" where
  "token_admitted m f [] st = 0"
| "token_admitted m f ((c, t) # rs) st =
     (let ((allowed, _, _), st') = token_bucket m f c t st
      in (if allowed then c else 0) + token_admitted m f rs st')"

lemma token_bucket_level:
  assumes "0 \<le> m"
  shows "token_bucket m f c t st =
    (if c \<le> token_level m f st t
     then ((True, token_level m f st t - c, max 0 (if 0 < f then (m - (token_level m f st t - c)) / f else 0)),
           Some (token_level m f st t - c, t))
     else ((False, token_level m f st t, max 0 (if 0 < f then (c - token_level m f st t) / f else 0)), st))"
proof -
  have level: "max 0 (min m ((case st of None \<Rightarrow> m | Some (v, l) \<Rightarrow> v) +
      max 0 (t - (case st of None \<Rightarrow> t | Some (v, l) \<Rightarrow> l)) * f)) = token_level m f st t"
    using assms by (cases st) (simp_all add: token_level_def split: prod.split)
  show ?thesis
    unfolding token_bucket_def Let_def level by (cases "c \<le> token_level m f st t") simp_all
qed

lemma token_level_range: "0 \<le> m \<Longrightarrow> 0 \<le> token_level m f st t \<and> token_level m f st t \<le> m"
  by (auto simp: token_level_def split: option.splits)

lemma token_level_written: "0 \<le> v \<Longrightarrow> v \<le> m \<Longrightarrow> token_level m f (Some (v, t)) t = v"
  by (simp add: token_level_def)

lemma clamp_grows: "x \<le> y + d \<Longrightarrow> 0 \<le> d \<Longrightarrow> max 0 (min m x) \<le> max 0 (min m y) + (d :: rat)"
  by (simp add: max_def min_def)

lemma token_level_grows:
  assumes "s \<le> t" "0 \<le> f" "0 \<le> m"
  shows "token_level m f st t \<le> token_level m f st s + (t - s) * f"
proof (cases st)
  case (Some a)
  obtain v l where a: "a = (v, l)" by (cases a)
  have "max 0 (t - l) \<le> max 0 (s - l) + (t - s)" using assms(1) by (simp add: max_def)
  then have "max 0 (t - l) * f \<le> (max 0 (s - l) + (t - s)) * f" using assms(2) by (rule mult_right_mono)
  then have "v + max 0 (t - l) * f \<le> (v + max 0 (s - l) * f) + (t - s) * f" by (simp add: distrib_right)
  moreover have "0 \<le> (t - s) * f" using assms(1,2) by simp
  ultimately show ?thesis unfolding token_level_def Some a option.case prod.case by (rule clamp_grows)
qed (use assms in \<open>simp add: token_level_def\<close>)

lemma token_admitted_bound:
  assumes "sorted (map snd rs)" "\<forall>(c, t) \<in> set rs. 0 \<le> c \<and> s \<le> t \<and> t \<le> e" "s \<le> e" "0 \<le> m" "0 \<le> f"
  shows "token_admitted m f rs st \<le> token_level m f st s + (e - s) * f"
  using assms(1-3)
proof (induction rs arbitrary: s st)
  case Nil
  have "0 \<le> token_level m f st s" using assms(4) by (simp add: token_level_def split: option.splits)
  with Nil assms(5) show ?case by simp
next
  case (Cons r rs)
  obtain c t where r: "r = (c, t)" by (cases r)
  from Cons.prems r have t: "0 \<le> c" "s \<le> t" "t \<le> e" by auto
  from Cons.prems r have later: "sorted (map snd rs)" "\<forall>(c', t') \<in> set rs. 0 \<le> c' \<and> t \<le> t' \<and> t' \<le> e"
    by auto
  let ?l = "token_level m f st t"
  note grows = token_level_grows [OF t(2) assms(5,4), of st]
  have split: "(e - s) * f = (e - t) * f + (t - s) * f" by (simp add: distrib_right [symmetric])
  have bucket: "token_admitted m f (r # rs) st =
      (if c \<le> ?l then c + token_admitted m f rs (Some (?l - c, t)) else token_admitted m f rs st)"
    by (simp add: r token_bucket_level [OF assms(4)])
  show ?case
  proof (cases "c \<le> ?l")
    case True
    have "token_level m f (Some (?l - c, t)) t = ?l - c"
      using True t(1) token_level_range [OF assms(4), of f st t] by (intro token_level_written) linarith+
    with Cons.IH [OF later t(3), of "Some (?l - c, t)"] have "token_admitted m f rs (Some (?l - c, t)) \<le> ?l - c + (e - t) * f"
      by simp
    moreover have "token_admitted m f (r # rs) st = c + token_admitted m f rs (Some (?l - c, t))"
      using bucket True by simp
    ultimately show ?thesis using grows split by linarith
  next
    case False
    then have "token_admitted m f (r # rs) st = token_admitted m f rs st" using bucket by simp
    with Cons.IH [OF later t(3), of st] grows split show ?thesis by linarith
  qed
qed



text \<open>letting Redis drop an idle bucket or log changes nothing. After the time to live the
  executors set, a script sees the same thing in the old state as in no state at all: a full token
  bucket, an empty leaky bucket, an empty log.\<close>

theorem expired_state_is_fresh:
  "(0 < yd_FillRate p \<and> 0 \<le> v \<and> 0 \<le> yd_MaxTokens p \<and> l + of_int (token_ttl p) \<le> now \<longrightarrow>
     fst (token_bucket (yd_MaxTokens p) (yd_FillRate p) c now (Some (v, l))) =
     fst (token_bucket (yd_MaxTokens p) (yd_FillRate p) c now None)) \<and>
   (0 < yd_LeakRate p \<and> v \<le> of_int (uint (yd_BucketCapacity p)) \<and> l + of_int (leaky_ttl p) \<le> now \<longrightarrow>
     fst (leaky_bucket (of_int (uint (yd_BucketCapacity p))) (leak_per_second p) c now (Some (v, l))) =
     fst (leaky_bucket (of_int (uint (yd_BucketCapacity p))) (leak_per_second p) c now None)) \<and>
   (0 \<le> window \<and> (\<forall>(t, m) \<in> set zs. 0 \<le> t \<and> t + window \<le> nowMs) \<longrightarrow>
     sliding_log lmt nowMs window member zs = sliding_log lmt nowMs window member [])"
proof (intro conjI impI)
  assume a: "0 < yd_FillRate p \<and> 0 \<le> v \<and> 0 \<le> yd_MaxTokens p \<and> l + of_int (token_ttl p) \<le> now"
  let ?m = "yd_MaxTokens p" and ?f = "yd_FillRate p"
  have "?m / ?f \<le> of_int \<lceil>?m / ?f\<rceil>" by simp
  also have "\<dots> \<le> of_int (token_ttl p)" using a by (simp add: token_ttl_def)
  also have "\<dots> \<le> now - l" using a by simp
  finally have "?m \<le> (now - l) * ?f" using a by (simp add: pos_divide_le_eq)
  moreover have "(now - l) * ?f \<le> max 0 (now - l) * ?f" using a by (intro mult_right_mono) auto
  ultimately have "?m \<le> v + max 0 (now - l) * ?f" using a by linarith
  then have "token_level ?m ?f (Some (v, l)) now = token_level ?m ?f None now"
    using a by (simp add: token_level_def)
  then show "fst (token_bucket ?m ?f c now (Some (v, l))) = fst (token_bucket ?m ?f c now None)"
    using a by (simp add: token_bucket_level)
next
  assume a: "0 < yd_LeakRate p \<and> v \<le> of_int (uint (yd_BucketCapacity p)) \<and> l + of_int (leaky_ttl p) \<le> now"
  let ?m = "of_int (uint (yd_BucketCapacity p)) :: rat" and ?f = "leak_per_second p"
  have f: "0 < ?f" using a by (simp add: leak_per_second_def)
  have "?m / ?f \<le> of_int \<lceil>?m / ?f\<rceil>" by simp
  also have "\<dots> \<le> of_int (leaky_ttl p)" using f by (simp add: leaky_ttl_def Let_def)
  also have "\<dots> \<le> now - l" using a by simp
  finally have "?m \<le> (now - l) * ?f" using f by (simp add: pos_divide_le_eq)
  moreover have "(now - l) * ?f \<le> max 0 (now - l) * ?f" using f by (intro mult_right_mono) auto
  ultimately have empty: "max 0 (v - max 0 (now - l) * ?f) = 0" using a by simp
  show "fst (leaky_bucket ?m ?f c now (Some (v, l))) = fst (leaky_bucket ?m ?f c now None)"
    unfolding leaky_bucket_def Let_def option.case prod.case empty by simp
next
  assume "0 \<le> window \<and> (\<forall>(t, m) \<in> set zs. 0 \<le> t \<and> t + window \<le> nowMs)"
  then have "zremrangebyscore 0 (nowMs - window) zs = []"
    by (force simp: zremrangebyscore_def filter_empty_conv)
  then show "sliding_log lmt nowMs window member zs = sliding_log lmt nowMs window member []"
    by (simp add: sliding_log_def zremrangebyscore_def)
qed

theorem expired_state_is_fresh_witness:
  "sliding_log 2 90000 60000 ''m'' [(1000, ''a''), (2000, ''b'')] = sliding_log 2 90000 60000 ''m'' []"
  using expired_state_is_fresh [where zs = "[(1000, ''a''), (2000, ''b'')]" and nowMs = 90000 and window = 60000 and lmt = 2
      and member = "''m''"] by simp

end
