(* ===== verification/Rate_Quota.thy ===== *)
theory Rate_Quota
  imports Rate_Algorithms
begin

text \<open>
  What the rate limiting executors guarantee over many requests: the quota of the fixed window and
  of the sliding log, which requests share a counter, and what the local cache of blocked keys does.
  What is assumed of Redis is stated as laws of its operations.
\<close>

subsection \<open>What Redis promises\<close>

text \<open>The data, the expiry times and the clock (in seconds) of a Redis state.\<close>

record 'r redis_view =
  rv_db :: "'r \<Rightarrow> db"
  rv_expiry :: "'r \<Rightarrow> string \<Rightarrow> int option"
  rv_clock :: "'r \<Rightarrow> int"

definition counter_of :: "'r redis_view \<Rightarrow> 'r \<Rightarrow> string \<Rightarrow> int" where
  "counter_of v r k = counter_at (rv_db v r) k"

text \<open>
  \<^verbatim>\<open>INCRBY\<close> adds to the counter and returns the new value, \<^verbatim>\<open>EXPIRE\<close> sets the time to live. If the
  pipeline fails, each of the two may or may not have happened. Other keys are left alone.
\<close>

definition incr_law :: "'r redis_ops \<Rightarrow> 'r redis_view \<Rightarrow> bool" where
  "incr_law ops v \<longleftrightarrow>
     (\<forall>k c t r. case ro_incrby_expire ops k c t r of
        (res, r') \<Rightarrow>
          (\<forall>q. q \<noteq> k \<longrightarrow> counter_of v r' q = counter_of v r q \<and> rv_expiry v r' q = rv_expiry v r q) \<and>
          rv_clock v r' = rv_clock v r \<and>
          (case res of
             Ok n \<Rightarrow> uint n = counter_of v r k + c \<and> counter_of v r' k = counter_of v r k + c \<and>
                     rv_expiry v r' k = Some (rv_clock v r + t)
           | Err e \<Rightarrow> counter_of v r' k \<in> {counter_of v r k, counter_of v r k + c} \<and>
                      (rv_expiry v r' k = rv_expiry v r k \<or> rv_expiry v r' k = Some (rv_clock v r + t))))"

text \<open>Between the engines' commands time passes, and a key may go away once its time to live is over.\<close>

definition redis_idle :: "'r redis_view \<Rightarrow> 'r \<Rightarrow> 'r \<Rightarrow> bool" where
  "redis_idle v r r' \<longleftrightarrow> rv_clock v r \<le> rv_clock v r' \<and>
     (\<forall>k. counter_of v r' k = counter_of v r k \<and> rv_expiry v r' k = rv_expiry v r k \<or>
          (\<exists>e. rv_expiry v r k = Some e \<and> e \<le> rv_clock v r') \<and>
            counter_of v r' k = 0 \<and> rv_expiry v r' k = None)"

subsection \<open>The key of a window\<close>

lemma show_nat_no_underscore: "CHR ''_'' \<notin> set (show_nat n)"
proof
  assume "CHR ''_'' \<in> set (show_nat n)"
  then have "is_digit (CHR ''_'')" using show_nat_digits [of n] by (auto simp: all_digits_def list_all_iff)
  then show False by code_simp
qed

lemma last_section_unique:
  assumes "a @ c # s = b @ c # t" "c \<notin> set s" "c \<notin> set t"
  shows "s = t"
proof -
  have last: "takeWhile (\<lambda>x. x \<noteq> c) (rev (a @ c # s)) = rev s" if "c \<notin> set s" for a s
    using that by (simp add: takeWhile_append)
  have "rev s = rev t" using last [OF assms(2)] last [OF assms(3)] assms(1) by metis
  then show ?thesis by simp
qed

lemma fixed_key_timestamp:
  assumes "fixed_key d ext es ts = fixed_key d' ext' es' ts'" "0 \<le> ts" "0 \<le> ts'"
  shows "ts = ts'"
proof -
  have "show_nat (nat ts) = show_nat (nat ts')"
    by (rule last_section_unique [of "d @ key_sections ext es" "CHR ''_''" _ "d' @ key_sections ext' es'"])
       (use assms show_nat_no_underscore in \<open>auto simp: fixed_key_def show_int_def\<close>)
  then have "nat ts = nat ts'" by (rule show_nat_inj)
  then show ?thesis using assms(2,3) by simp
qed

subsection \<open>The quota of a fixed window\<close>

definition window_start :: "YamlDescriptor \<Rightarrow> int \<Rightarrow> int" where
  "window_start p now = now div getDivider (yd_Unit p) * getDivider (yd_Unit p)"

definition window_key :: "('r, 'c) limiter_env \<Rightarrow> (string \<rightharpoonup> string) \<Rightarrow> YamlDescriptor \<Rightarrow> int \<Rightarrow> string" where
  "window_key env ext p now = fixed_key (fo_Domain (le_options env)) ext (yd_Entries p) (window_start p now)"

text \<open>No other policy of the filter shares the counter.\<close>

definition own_key :: "('r, 'c) limiter_env \<Rightarrow> YamlDescriptor \<Rightarrow> string \<Rightarrow> bool" where
  "own_key env p k \<longleftrightarrow>
     (\<forall>q \<in> set (fo_Descriptors (le_options env)). \<forall>ext now. window_key env ext q now = k \<longrightarrow> q = p)"

definition admits :: "('r, 'c) limiter_env \<Rightarrow> YamlDescriptor \<Rightarrow> string \<Rightarrow> int \<Rightarrow> DescriptorEntry list \<Rightarrow> (string, Decision) result \<Rightarrow> bool" where
  "admits env p k now ds res \<longleftrightarrow>
     (case res of Ok d \<Rightarrow> \<not> dc_Blocked d | Err e \<Rightarrow> False) \<and>
     p \<in> set (selected (extracted_map ds) [] (fo_Descriptors (le_options env))) \<and>
     window_key env (extracted_map ds) p now = k"

text \<open>
  The requests of any number of engines that share a Redis, and the total cost they admitted on a
  key. Between two requests time passes, and anything local to an engine (cache, clock, random
  source) may be different. The engines' clocks agree with that of Redis when a request is made.
\<close>

inductive fixed_run ::
  "('r, 'c) limiter_env \<Rightarrow> 'r redis_view \<Rightarrow> YamlDescriptor \<Rightarrow> string \<Rightarrow> ('r, 'c) limiter_world \<Rightarrow> int \<Rightarrow> bool"
  for env v p k where
  fixed_start: "0 \<le> counter_of v (lw_redis w) k \<Longrightarrow> fixed_run env v p k w 0"
| fixed_idle: "fixed_run env v p k w adm \<Longrightarrow> redis_idle v (lw_redis w) (lw_redis w') \<Longrightarrow> fixed_run env v p k w' adm"
| fixed_request: "fixed_run env v p k w adm \<Longrightarrow> 1 \<le> cost \<Longrightarrow> 0 \<le> now \<Longrightarrow>
    now = rv_clock v (lw_redis w) \<Longrightarrow> now = lw_clock w 0 div 1000000000 \<Longrightarrow>
    fixed_window_Evaluate env reqID ds cost w = (res, w') \<Longrightarrow>
    fixed_run env v p k w' (adm + (if admits env p k now ds res then cost else 0))"

definition window_inv :: "'r redis_view \<Rightarrow> YamlDescriptor \<Rightarrow> string \<Rightarrow> int \<Rightarrow> int \<Rightarrow> ('r, 'c) limiter_world \<Rightarrow> bool" where
  "window_inv v p k ts adm w \<longleftrightarrow>
     0 \<le> adm \<and> adm \<le> uint (yd_Limit p) \<and> 0 \<le> counter_of v (lw_redis w) k \<and>
     (adm = 0 \<or> ts + getDivider (yd_Unit p) \<le> rv_clock v (lw_redis w) \<or>
      adm \<le> counter_of v (lw_redis w) k \<and>
        (\<exists>e. rv_expiry v (lw_redis w) k = Some e \<and> ts + getDivider (yd_Unit p) \<le> e))"

lemma window_end: "window_start p now = ts \<Longrightarrow> now + (getDivider (yd_Unit p) - now mod getDivider (yd_Unit p)) = ts + getDivider (yd_Unit p)"
  using div_mult_mod_eq [of now "getDivider (yd_Unit p)"] by (auto simp: window_start_def)

lemma window_not_over: "window_start p now = ts \<Longrightarrow> now < ts + getDivider (yd_Unit p)"
  using window_end [of p now ts] pos_mod_bound [OF getDivider_pos, of now "yd_Unit p"] by linarith

text \<open>What one policy does to a counter: a cache hit denies and touches nothing; otherwise the
  counter is incremented and the request passes only if it is then within the limit.\<close>

lemma fixed_step_effect:
  assumes "fixed_step env now ext cost q off w = (res, off', w')"
  shows "\<not> passed res \<and> lw_redis w' = lw_redis w \<or>
    (\<exists>jitter inc r. 0 \<le> jitter \<and>
       ro_incrby_expire (le_client env) (window_key env ext q now) cost
         (getDivider (yd_Unit q) - now mod getDivider (yd_Unit q) + jitter) (lw_redis w) = (inc, r) \<and>
       lw_redis w' = r \<and>
       (passed res \<longrightarrow> yd_ShadowMode q \<or> yd_FailOpen q \<or> (\<exists>n. inc = Ok n \<and> uint n \<le> uint (yd_Limit q))))"
proof -
  let ?d = "getDivider (yd_Unit q)"
  let ?key = "window_key env ext q now"
  have key: "fixed_key (fo_Domain (le_options env)) ext (yd_Entries q) (now div ?d * ?d) = ?key"
    by (simp add: window_key_def window_start_def)
  show ?thesis
  proof (cases "cache_hit env ?key w")
    case True
    with assms show ?thesis by (auto simp: fixed_step_def Let_def key passed_def)
  next
    case False
    let ?j = "lw_rand w 0 mod 5"
    obtain inc r where inc: "ro_incrby_expire (le_client env) ?key cost (?d - now mod ?d + ?j) (lw_redis w) = (inc, r)"
      by fastforce
    have le: "uint n \<le> uint (yd_Limit q)" if "\<not> ucast (yd_Limit q) < n" for n :: "64 word"
      using that by (simp add: word_less_def not_less uint_up_ucast is_up)
    have "lw_redis w' = r \<and> (passed res \<longrightarrow> yd_ShadowMode q \<or> yd_FailOpen q \<or> (\<exists>n. inc = Ok n \<and> uint n \<le> uint (yd_Limit q)))"
      using assms False inc
      by (auto simp: fixed_step_def Let_def key Int63n_def passed_def redis_failed_def cache_put_def le
          split: sum.splits if_splits option.splits)
    moreover have "0 \<le> ?j" by simp
    ultimately show ?thesis using inc by blast
  qed
qed

lemma incr_lawD:
  assumes "incr_law ops v" "ro_incrby_expire ops k c t r = (res, r')"
  shows "rv_clock v r' = rv_clock v r"
    and "q \<noteq> k \<Longrightarrow> counter_of v r' q = counter_of v r q \<and> rv_expiry v r' q = rv_expiry v r q"
    and "counter_of v r' k \<in> {counter_of v r k, counter_of v r k + c}"
    and "rv_expiry v r' k = rv_expiry v r k \<or> rv_expiry v r' k = Some (rv_clock v r + t)"
    and "res = Ok n \<Longrightarrow> uint n = counter_of v r k + c \<and> counter_of v r' k = counter_of v r k + c \<and>
       rv_expiry v r' k = Some (rv_clock v r + t)"
  using assms(1) [unfolded incr_law_def, THEN spec [of _ k], THEN spec [of _ c], THEN spec [of _ t], THEN spec [of _ r]] assms(2)
  by (auto split: sum.splits)

text \<open>Inside one evaluation the clock stands still.\<close>

definition at_time :: "'r redis_view \<Rightarrow> YamlDescriptor \<Rightarrow> string \<Rightarrow> int \<Rightarrow> int \<Rightarrow> int \<Rightarrow> ('r, 'c) limiter_world \<Rightarrow> bool" where
  "at_time v p k ts now adm w \<longleftrightarrow> window_inv v p k ts adm w \<and> rv_clock v (lw_redis w) = now"

lemma fixed_step_inv:
  assumes law: "incr_law (le_client env) v" and cost: "1 \<le> cost"
    and step: "fixed_step env now ext cost q off w = (res, off', w')"
    and own: "window_key env ext q now = k \<Longrightarrow> q = p \<and> window_start p now = ts"
    and inv: "at_time v p k ts now adm w"
  shows "at_time v p k ts now adm w'"
    and "passed res \<Longrightarrow> window_key env ext q now = k \<Longrightarrow> \<not> yd_ShadowMode p \<Longrightarrow> \<not> yd_FailOpen p \<Longrightarrow>
      at_time v p k ts now (adm + cost) w'"
proof -
  let ?r = "lw_redis w" and ?r' = "lw_redis w'" and ?key = "window_key env ext q now"
  have "at_time v p k ts now adm w' \<and>
    (passed res \<and> ?key = k \<and> \<not> yd_ShadowMode p \<and> \<not> yd_FailOpen p \<longrightarrow> at_time v p k ts now (adm + cost) w')"
    using fixed_step_effect [OF step]
  proof
    assume "\<not> passed res \<and> ?r' = ?r"
    with inv show ?thesis by (auto simp: at_time_def window_inv_def)
  next
    assume "\<exists>jitter inc r. 0 \<le> jitter \<and>
       ro_incrby_expire (le_client env) ?key cost
         (getDivider (yd_Unit q) - now mod getDivider (yd_Unit q) + jitter) ?r = (inc, r) \<and> ?r' = r \<and>
       (passed res \<longrightarrow> yd_ShadowMode q \<or> yd_FailOpen q \<or> (\<exists>n. inc = Ok n \<and> uint n \<le> uint (yd_Limit q)))"
    then obtain jitter inc where jitter: "0 \<le> jitter"
      and inc: "ro_incrby_expire (le_client env) ?key cost
         (getDivider (yd_Unit q) - now mod getDivider (yd_Unit q) + jitter) ?r = (inc, ?r')"
      and ok: "passed res \<longrightarrow> yd_ShadowMode q \<or> yd_FailOpen q \<or> (\<exists>n. inc = Ok n \<and> uint n \<le> uint (yd_Limit q))"
      by blast
    note facts = incr_lawD [OF law inc]
    have clock: "rv_clock v ?r' = now" "rv_clock v ?r = now" using facts(1) inv by (simp_all add: at_time_def)
    show ?thesis
    proof (cases "?key = k")
      case False
      with facts(2) [of k] inv clock show ?thesis by (auto simp: at_time_def window_inv_def)
    next
      case True
      with own have q: "q = p" "window_start p now = ts" by blast+
      let ?we = "ts + getDivider (yd_Unit p)"
      have fresh: "now + (getDivider (yd_Unit q) - now mod getDivider (yd_Unit q) + jitter) \<ge> ?we"
        using window_end [OF q(2)] jitter q(1) by simp
      have old: "adm = 0 \<or> adm \<le> counter_of v ?r k \<and> (\<exists>e. rv_expiry v ?r k = Some e \<and> ?we \<le> e)"
        and pos: "0 \<le> counter_of v ?r k" "0 \<le> adm" "adm \<le> uint (yd_Limit p)"
        using inv window_not_over [OF q(2)] by (auto simp: at_time_def window_inv_def)
      have count: "counter_of v ?r k \<le> counter_of v ?r' k" using facts(3) True cost by auto
      have live: "adm = 0 \<or> (\<exists>e. rv_expiry v ?r' k = Some e \<and> ?we \<le> e)"
        using facts(4) True old fresh clock(2) by auto
      have "at_time v p k ts now adm w'"
        using old pos count live clock(1) by (auto simp: at_time_def window_inv_def)
      moreover have "at_time v p k ts now (adm + cost) w'"
        if "passed res" "\<not> yd_ShadowMode p" "\<not> yd_FailOpen p"
      proof -
        from ok that q obtain n where n: "inc = Ok n" "uint n \<le> uint (yd_Limit p)" by auto
        from facts(5) [OF n(1)] True have "uint n = counter_of v ?r k + cost" "counter_of v ?r' k = counter_of v ?r k + cost"
          "rv_expiry v ?r' k = Some (now + (getDivider (yd_Unit q) - now mod getDivider (yd_Unit q) + jitter))"
          using clock(2) by auto
        with n(2) old pos fresh clock cost show ?thesis by (auto simp: at_time_def window_inv_def)
      qed
      ultimately show ?thesis by blast
    qed
  qed
  then show "at_time v p k ts now adm w'"
    and "passed res \<Longrightarrow> ?key = k \<Longrightarrow> \<not> yd_ShadowMode p \<Longrightarrow> \<not> yd_FailOpen p \<Longrightarrow> at_time v p k ts now (adm + cost) w'"
    by blast+
qed

lemma policy_loop_inv:
  assumes "policy_loop step ext evaluated ps off d w = (res, w')" "I w"
    and "\<And>q off w r off' w'. q \<in> set ps \<Longrightarrow> step q off w = (r, off', w') \<Longrightarrow> I w \<Longrightarrow> I w'"
  shows "I w'"
  using assms
proof (induction ps arbitrary: evaluated off d w)
  case (Cons q ps)
  obtain r off1 w1 where step: "step q off w = (r, off1, w1)" by (cases "step q off w")
  have I1: "I w1" by (rule Cons.prems(3) [OF _ step Cons.prems(2)]) simp
  have keep: "\<And>q off w r off' w'. q \<in> set ps \<Longrightarrow> step q off w = (r, off', w') \<Longrightarrow> I w \<Longrightarrow> I w'"
    using Cons.prems(3) by (meson list.set_intros(2))
  show ?case
  proof (cases "dimension q \<in> set evaluated \<or> \<not> policy_matched ext (yd_Entries q)")
    case True
    with Cons.prems(1) have "policy_loop step ext evaluated ps off d w = (res, w')" by simp
    from Cons.IH [OF this Cons.prems(2) keep] show ?thesis .
  next
    case False
    then consider (fin) "w' = w1" | (rest) ev o' d' where "policy_loop step ext ev ps o' d' w1 = (res, w')"
      using Cons.prems(1) step by (cases r) auto
    then show ?thesis
      by cases (use I1 Cons.IH keep in \<open>blast+\<close>)
  qed
qed simp

lemma evaluates_inv:
  assumes "evaluates step ps off w w'" "I w"
    and "\<And>q off w r off' w'. q \<in> set ps \<Longrightarrow> step q off w = (r, off', w') \<Longrightarrow> I w \<Longrightarrow> I w'"
  shows "I w'"
  using assms by (induction rule: evaluates.induct) (auto, blast)

lemma evaluates_member:
  assumes "evaluates step ps off w w'" "p \<in> set ps" "I w"
    and keep: "\<And>q off w r off' w'. q \<in> set ps \<Longrightarrow> step q off w = (r, off', w') \<Longrightarrow> I w \<Longrightarrow> I w'"
    and keepJ: "\<And>q off w r off' w'. q \<in> set ps \<Longrightarrow> step q off w = (r, off', w') \<Longrightarrow> J w \<Longrightarrow> J w'"
    and at: "\<And>off w r off' w'. step p off w = (r, off', w') \<Longrightarrow> passed r \<Longrightarrow> I w \<Longrightarrow> J w'"
  shows "J w'"
  using assms(1-5)
proof (induction rule: evaluates.induct)
  case (evaluates_Cons q off w r off' w1 ps w2)
  have keeps: "\<And>a off w r off' w'. a \<in> set ps \<Longrightarrow> step a off w = (r, off', w') \<Longrightarrow> I w \<Longrightarrow> I w'"
    "\<And>a off w r off' w'. a \<in> set ps \<Longrightarrow> step a off w = (r, off', w') \<Longrightarrow> J w \<Longrightarrow> J w'"
    using evaluates_Cons.prems(3,4) by (meson list.set_intros(2))+
  show ?case
  proof (cases "p = q")
    case True
    with at evaluates_Cons.hyps(1,2) evaluates_Cons.prems(2) have "J w1" by blast
    from evaluates_inv [where I = J, OF evaluates_Cons.hyps(3) this keeps(2)] show ?thesis .
  next
    case False
    with evaluates_Cons.prems(1) have "p \<in> set ps" by simp
    moreover have "I w1" by (rule evaluates_Cons.prems(3) [OF _ evaluates_Cons.hyps(1) evaluates_Cons.prems(2)]) simp
    ultimately show ?thesis using evaluates_Cons.IH keeps by blast
  qed
qed simp

lemma fixed_deny_blocks: "fixed_step env now ext cost q off w = (PolicyDeny d, off', w') \<Longrightarrow> dc_Blocked d"
  by (auto simp: fixed_step_def Let_def blocked_decision_def redis_failed_def Int63n_def
      split: if_splits sum.splits prod.splits)

lemma fixed_request_inv:
  assumes law: "incr_law (le_client env) v" and own: "own_key env p k" and cost: "1 \<le> cost"
    and k: "k = fixed_key dm ext0 es ts" "0 \<le> ts"
    and p: "\<not> yd_ShadowMode p" "\<not> yd_FailOpen p"
    and ev: "fixed_window_Evaluate env reqID ds cost w = (res, w')"
    and now: "0 \<le> now" "now = rv_clock v (lw_redis w)" "now = lw_clock w 0 div 1000000000"
    and inv: "window_inv v p k ts adm w"
  shows "window_inv v p k ts (adm + (if admits env p k now ds res then cost else 0)) w'"
proof -
  let ?ext = "extracted_map ds" and ?ps = "fo_Descriptors (le_options env)"
  let ?w = "w\<lparr>lw_clock := (\<lambda>n. lw_clock w (Suc n))\<rparr>"
  let ?step = "fixed_step env now ?ext cost"
  have loop: "policy_loop ?step ?ext [] ?ps 0 initial_decision ?w = (res, w')"
    using ev now(3) by (simp add: fixed_window_Evaluate_def time_Now_def Let_def)
  have start: "at_time v p k ts now adm ?w" using inv now(2) by (auto simp: at_time_def window_inv_def)
  have mine: "q = p \<and> window_start p now = ts" if "q \<in> set ?ps" "window_key env ?ext q now = k" for q
  proof -
    from that own have q: "q = p" by (auto simp: own_key_def)
    have "0 \<le> now div getDivider (yd_Unit p)" using now(1) by (intro pos_imp_zdiv_nonneg_iff [THEN iffD2]) simp_all
    then have "0 \<le> window_start p now" by (simp add: window_start_def less_imp_le)
    with fixed_key_timestamp [of _ ?ext _ "window_start p now" dm ext0 es ts] that q k show ?thesis
      by (auto simp: window_key_def)
  qed
  have keep: "at_time v p k ts now a w2"
    if "q \<in> set ?ps" "?step q off w1 = (r, off', w2)" "at_time v p k ts now a w1" for a q off w1 r off' w2
    using fixed_step_inv(1) [OF law cost that(2) _ that(3)] mine [OF that(1)] by blast
  show ?thesis
  proof (cases "admits env p k now ds res")
    case True
    then obtain d where d: "res = Ok d" "\<not> dc_Blocked d" and sel: "p \<in> set (selected ?ext [] ?ps)"
      and key: "window_key env ?ext p now = k"
      by (auto simp: admits_def split: sum.splits)
    have sub: "q \<in> set ?ps" if "q \<in> set (selected ?ext [] ?ps)" for q using selected_props [OF that] by blast
    have run: "evaluates ?step (selected ?ext [] ?ps) 0 ?w w'"
      by (rule policy_loop_passed [OF loop [unfolded d] d(2) fixed_deny_blocks])
    have "at_time v p k ts now (adm + cost) w'"
    proof (rule evaluates_member [where I = "at_time v p k ts now adm", OF run sel start])
      fix off w1 r off' w2
      assume "?step p off w1 = (r, off', w2)" "passed r" "at_time v p k ts now adm w1"
      with fixed_step_inv(2) [OF law cost, of now ?ext p off w1 r off' w2 k p ts adm] mine [OF sub [OF sel] key] key p
      show "at_time v p k ts now (adm + cost) w2" by blast
    qed (use keep sub in blast)+
    with True show ?thesis by (simp add: at_time_def)
  next
    case False
    have "at_time v p k ts now adm w'"
      by (rule policy_loop_inv [where I = "at_time v p k ts now adm", OF loop start]) (use keep in blast)
    with False show ?thesis by (simp add: at_time_def)
  qed
qed

lemma fixed_idle_inv:
  assumes "window_inv v p k ts adm w" "redis_idle v (lw_redis w) (lw_redis w')"
  shows "window_inv v p k ts adm w'"
proof -
  let ?r = "lw_redis w" and ?r' = "lw_redis w'"
  from assms(2) have clock: "rv_clock v ?r \<le> rv_clock v ?r'" and
    kept: "counter_of v ?r' k = counter_of v ?r k \<and> rv_expiry v ?r' k = rv_expiry v ?r k \<or>
       (\<exists>e. rv_expiry v ?r k = Some e \<and> e \<le> rv_clock v ?r') \<and> counter_of v ?r' k = 0 \<and> rv_expiry v ?r' k = None"
    by (auto simp: redis_idle_def)
  from kept show ?thesis
  proof
    assume "counter_of v ?r' k = counter_of v ?r k \<and> rv_expiry v ?r' k = rv_expiry v ?r k"
    with assms(1) clock show ?thesis by (auto simp: window_inv_def)
  next
    assume "(\<exists>e. rv_expiry v ?r k = Some e \<and> e \<le> rv_clock v ?r') \<and> counter_of v ?r' k = 0 \<and> rv_expiry v ?r' k = None"
    with assms(1) clock show ?thesis by (force simp: window_inv_def)
  qed
qed


text \<open>A Redis with counters, expiry times and a clock that satisfies the law.\<close>

record mem_redis =
  mr_counters :: "string \<Rightarrow> int"
  mr_expiry :: "string \<Rightarrow> int option"
  mr_clock :: int

definition mem_incr :: "string \<Rightarrow> int \<Rightarrow> int \<Rightarrow> mem_redis \<Rightarrow> (string, 64 word) result \<times> mem_redis" where
  "mem_incr k c t r =
     (let n = mr_counters r k + c in
      if 0 \<le> n \<and> n < 2 ^ 63
      then (Ok (word_of_int n),
            r\<lparr>mr_counters := (mr_counters r)(k := n), mr_expiry := (mr_expiry r)(k \<mapsto> mr_clock r + t)\<rparr>)
      else (Err ''ERR increment or decrement would overflow'', r))"

definition mem_ops :: "mem_redis redis_ops" where
  "mem_ops = \<lparr>ro_incrby_expire = mem_incr, ro_evalsha = (\<lambda>_ _ r. (Err ''NOSCRIPT'', r)), ro_script_load = (\<lambda>_ r. (Err ''down'', r))\<rparr>"

definition mem_view :: "mem_redis redis_view" where
  "mem_view = \<lparr>rv_db = (\<lambda>r k. Some (RCount (mr_counters r k))), rv_expiry = mr_expiry, rv_clock = mr_clock\<rparr>"

lemma mem_incr_law: "incr_law mem_ops mem_view"
proof -
  have "uint (word_of_int n :: 64 word) = n" if "0 \<le> n" "n < 9223372036854775808" for n
    using that by (simp add: uint_word_of_int_eq take_bit_int_eq_self)
  then show ?thesis
    by (auto simp: incr_law_def mem_ops_def mem_view_def mem_incr_def counter_of_def counter_at_def Let_def
        simp del: of_int_add)
qed

definition ex_limit :: YamlDescriptor where
  "ex_limit = ex_policy [\<lparr>de_Key = ''ip'', de_Value = []\<rparr>] 5 ''minute''"

definition ex_env :: "(mem_redis, unit) limiter_env" where
  "ex_env = \<lparr>le_client = mem_ops, le_options = ex_options [ex_limit], le_localCache = None, le_script = []\<rparr>"

definition ex_world :: "(mem_redis, unit) limiter_world" where
  "ex_world = \<lparr>lw_redis = \<lparr>mr_counters = (\<lambda>_. 0), mr_expiry = (\<lambda>_. None), mr_clock = 90\<rparr>, lw_cache = (),
     lw_clock = (\<lambda>_. 90000000000), lw_rand = (\<lambda>_. 3), lw_logCounter = 0, lw_sha = []\<rparr>"

definition ex_ds :: "DescriptorEntry list" where
  "ex_ds = [\<lparr>dn_Key = ''ip'', dn_Value = ''10.0.0.1''\<rparr>]"

definition ex_key :: string where
  "ex_key = fixed_key ''d'' (extracted_map ex_ds) (yd_Entries ex_limit) 60"

lemma ex_own_key: "own_key ex_env ex_limit ex_key"
  by (simp add: own_key_def ex_env_def ex_options_def)

lemma ex_fixed_run: "\<exists>w. fixed_run ex_env mem_view ex_limit ex_key w 1"
proof -
  obtain res w' where ev: "fixed_window_Evaluate ex_env [] ex_ds 1 ex_world = (res, w')"
    by (cases "fixed_window_Evaluate ex_env [] ex_ds 1 ex_world")
  have "case fst (fixed_window_Evaluate ex_env [] ex_ds 1 ex_world) of Inr d \<Rightarrow> \<not> dc_Blocked d | Inl e \<Rightarrow> False"
    by code_simp
  then have res: "case res of Inr d \<Rightarrow> \<not> dc_Blocked d | Inl e \<Rightarrow> False" using ev by simp
  have "admits ex_env ex_limit ex_key 90 ex_ds res"
    using res by (simp add: admits_def ex_env_def ex_options_def ex_limit_def ex_policy_def ex_ds_def
        extracted_map_def dimension_def window_key_def window_start_def getDivider_def ex_key_def to_lower_def lower_char_def
        is_upper_def char_le_def)
  moreover have "fixed_run ex_env mem_view ex_limit ex_key w'
      (0 + (if admits ex_env ex_limit ex_key 90 ex_ds res then 1 else 0))"
    by (rule fixed_request [OF fixed_start _ _ _ _ ev])
       (simp_all add: ex_world_def mem_view_def counter_of_def counter_at_def)
  ultimately show ?thesis by auto
qed


subsection \<open>Shared counters\<close>

text \<open>distinct values do not always get distinct counters as documented. Two requests with
  different values for a two-key policy use the same counter, so a client that chooses one of the
  values can use up the quota of another.\<close>

theorem counter_key_collision:
  "extracted_map [\<lparr>dn_Key = ''a'', dn_Value = ''1''\<rparr>, \<lparr>dn_Key = ''b'', dn_Value = ''2_b_3''\<rparr>] \<noteq>
     extracted_map [\<lparr>dn_Key = ''a'', dn_Value = ''1_b_2''\<rparr>, \<lparr>dn_Key = ''b'', dn_Value = ''3''\<rparr>] \<and>
   fixed_key dm (extracted_map [\<lparr>dn_Key = ''a'', dn_Value = ''1''\<rparr>, \<lparr>dn_Key = ''b'', dn_Value = ''2_b_3''\<rparr>])
       [\<lparr>de_Key = ''a'', de_Value = []\<rparr>, \<lparr>de_Key = ''b'', de_Value = []\<rparr>] ts =
     fixed_key dm (extracted_map [\<lparr>dn_Key = ''a'', dn_Value = ''1_b_2''\<rparr>, \<lparr>dn_Key = ''b'', dn_Value = ''3''\<rparr>])
       [\<lparr>de_Key = ''a'', de_Value = []\<rparr>, \<lparr>de_Key = ''b'', de_Value = []\<rparr>] ts"
  by (auto simp: extracted_map_def fixed_key_def key_sections_def get_or_empty_def fun_eq_iff)

subsection \<open>The quota of the sliding log\<close>

text \<open>The requests, as pairs of time and member, that the script admits one after the other.\<close>

fun log_admitted :: "int \<Rightarrow> int \<Rightarrow> (int \<times> string) list \<Rightarrow> (int \<times> string) list \<Rightarrow> (int \<times> string) list" where
  "log_admitted lmt window [] zs = []"
| "log_admitted lmt window ((t, m) # rs) zs =
     (let ((allowed, _), zs') = sliding_log lmt t window m zs
      in (if allowed then [(t, m)] else []) @ log_admitted lmt window rs zs')"

abbreviation newer :: "int \<Rightarrow> (int \<times> string) list \<Rightarrow> (int \<times> string) list" where
  "newer c xs \<equiv> filter (\<lambda>x. c < fst x) xs"

definition in_window :: "int \<Rightarrow> int \<Rightarrow> (int \<times> string) list \<Rightarrow> (int \<times> string) list" where
  "in_window window e xs = filter (\<lambda>x. e - window < fst x \<and> fst x \<le> e) xs"

definition log_bounded :: "int \<Rightarrow> int \<Rightarrow> (int \<times> string) list \<Rightarrow> bool" where
  "log_bounded lmt window xs \<longleftrightarrow> (\<forall>e. int (length (in_window window e xs)) \<le> lmt)"

lemma zremrange_newer: "\<forall>x \<in> set zs. 0 \<le> fst x \<Longrightarrow> zremrangebyscore 0 c zs = newer c zs"
  by (auto simp: zremrangebyscore_def intro!: filter_cong)

lemma newer_newer: "c \<le> c' \<Longrightarrow> newer c' (newer c xs) = newer c' xs"
  unfolding filter_filter by (rule filter_cong) auto

lemma length_filter_mono: "(\<And>x. P x \<Longrightarrow> Q x) \<Longrightarrow> length (filter P xs) \<le> length (filter Q xs)"
  by (induction xs) auto

lemma log_bounded_snoc:
  assumes "log_bounded lmt window xs" "\<forall>x \<in> set xs. fst x \<le> t" "int (length (newer (t - window) xs)) < lmt" "0 < window"
  shows "log_bounded lmt window (xs @ [(t, m)])"
  unfolding log_bounded_def
proof
  fix e
  show "int (length (in_window window e (xs @ [(t, m)]))) \<le> lmt"
  proof (cases "t \<le> e")
    case True
    have "length (in_window window e xs) \<le> length (newer (t - window) xs)"
      unfolding in_window_def by (rule length_filter_mono) (use True in auto)
    moreover have "length (in_window window e (xs @ [(t, m)])) \<le> Suc (length (in_window window e xs))"
      by (simp add: in_window_def)
    ultimately show ?thesis using assms(3) by linarith
  next
    case False
    then have "in_window window e (xs @ [(t, m)]) = in_window window e xs" by (simp add: in_window_def)
    with assms(1) show ?thesis by (simp add: log_bounded_def)
  qed
qed

lemma log_admitted_bounded:
  assumes "0 < window" "log_bounded lmt window xs" "zs = newer c xs" "\<forall>x \<in> set xs. 0 \<le> fst x \<and> fst x \<le> now"
    "0 \<le> now" "c \<le> now - window" "sorted (map fst rs)" "\<forall>x \<in> set rs. now \<le> fst x" "distinct (map snd (xs @ rs))"
  shows "log_bounded lmt window (xs @ log_admitted lmt window rs zs)"
  using assms(2-9)
proof (induction rs arbitrary: xs zs c now)
  case (Cons r rs)
  obtain t m where r: "r = (t, m)" by (cases r)
  let ?zs1 = "newer (t - window) xs"
  have "zremrangebyscore 0 (t - window) zs = newer (t - window) zs"
    by (rule zremrange_newer) (use Cons.prems(2,3) in auto)
  also have "\<dots> = ?zs1" unfolding Cons.prems(2) by (rule newer_newer) (use Cons.prems(5,7) r in auto)
  finally have rem: "zremrangebyscore 0 (t - window) zs = ?zs1" .
  have past: "\<forall>x \<in> set xs. 0 \<le> fst x \<and> fst x \<le> t" and rest: "sorted (map fst rs)" "\<forall>x \<in> set rs. t \<le> fst x"
    and t: "0 \<le> t"
    using Cons.prems(3,4,6,7) r by (auto intro: order_trans)
  show ?case
  proof (cases "int (length ?zs1) < lmt")
    case True
    have "filter (\<lambda>(s, m'). m' \<noteq> m) ?zs1 = ?zs1"
      using Cons.prems(8) r by (force intro!: filter_True simp: image_iff)
    then have step: "sliding_log lmt t window m zs = ((True, lmt - int (length ?zs1) - 1), ?zs1 @ [(t, m)])"
      using True by (simp add: sliding_log_def rem zadd_def Let_def)
    have "log_bounded lmt window ((xs @ [(t, m)]) @ log_admitted lmt window rs (?zs1 @ [(t, m)]))"
    proof (rule Cons.IH [where c = "t - window" and now = t])
      show "log_bounded lmt window (xs @ [(t, m)])"
        using log_bounded_snoc [OF Cons.prems(1) _ True assms(1)] past by blast
    qed (use assms(1) past rest t Cons.prems(8) r in auto)
    then show ?thesis by (simp add: r step)
  next
    case False
    then have "snd (sliding_log lmt t window m zs) = ?zs1 \<and> \<not> fst (fst (sliding_log lmt t window m zs))"
      by (simp add: sliding_log_def rem Let_def)
    moreover have "log_bounded lmt window (xs @ log_admitted lmt window rs ?zs1)"
      by (rule Cons.IH [where c = "t - window" and now = t]) (use Cons.prems(1,8) past rest t r in auto)
    ultimately show ?thesis by (auto simp: r split: prod.split)
  qed
qed simp



subsection \<open>The local cache and expensive requests\<close>

text \<open>A Redis that runs scripts and a local cache that keeps what is put into it.\<close>

definition script_ops :: "db redis_ops" where
  "script_ops = \<lparr>ro_incrby_expire = (\<lambda>_ _ _ r. (Err ''down'', r)),
     ro_evalsha = (\<lambda>_ fn r. case fn r of (v, r') \<Rightarrow> (Ok v, r')), ro_script_load = (\<lambda>_ r. (Ok [], r))\<rparr>"

definition list_cache :: "string list cache_ops" where
  "list_cache = \<lparr>co_Get = (\<lambda>k c. k \<in> set c), co_Set = (\<lambda>k ttl c. k # c)\<rparr>"

definition ex_sliding_env :: "(db, string list) limiter_env" where
  "ex_sliding_env = \<lparr>le_client = script_ops,
     le_options = ex_options [ex_policy [\<lparr>de_Key = ''ip'', de_Value = []\<rparr>] 10 ''minute''],
     le_localCache = Some list_cache, le_script = []\<rparr>"

definition ex_sliding_world :: "(db, string list) limiter_world" where
  "ex_sliding_world = \<lparr>lw_redis = Map.empty, lw_cache = [], lw_clock = (\<lambda>_. 60000000000), lw_rand = (\<lambda>_. 0),
     lw_logCounter = 0, lw_sha = []\<rparr>"

definition ex_sliding :: "int \<Rightarrow> (db, string list) limiter_world \<Rightarrow> (string, Decision) result \<times> (db, string list) limiter_world" where
  "ex_sliding cost w = sliding_window_Evaluate ex_sliding_env [] ex_ds cost w"

definition blocks :: "(string, Decision) result \<Rightarrow> bool" where
  "blocks r = (case r of Ok d \<Rightarrow> dc_Blocked d | Err e \<Rightarrow> False)"

text \<open>a denied expensive request blocks affordable ones. With the sliding window counter, nothing
  used and a limit of 10, a request of cost 11 is denied and its key is cached as blocked, so that a
  request of cost 1 is denied as well, although Redis would admit it with 9 units to spare. The fixed
  window executor avoids this: it caches a key only if the counter itself is over the limit.\<close>

theorem sliding_cost_denial_blocks_all:
  "blocks (fst (ex_sliding 11 ex_sliding_world)) \<and>
   blocks (fst (ex_sliding 1 (snd (ex_sliding 11 ex_sliding_world)))) \<and>
   \<not> blocks (fst (ex_sliding 1 ((snd (ex_sliding 11 ex_sliding_world))\<lparr>lw_cache := []\<rparr>)))"
  by code_simp

end
