(* ===== verification/Simple_Filters.thy ===== *)
theory Simple_Filters
  imports Chain_Executor "HOL-Library.AList"
begin

text \<open>
  The filters that decide from the request alone (\<^verbatim>\<open>internal/filters\<close>: \<^verbatim>\<open>deny\<close>,
  \<^verbatim>\<open>header_modifier\<close>, \<^verbatim>\<open>correlation_id\<close>, \<^verbatim>\<open>cors\<close>). Regular expressions are compiled by the parameter
  \<open>re\<close>; generated identifiers come from the parameter \<open>gen\<close>. Go maps that a filter walks through are
  association lists.
\<close>

subsection \<open>Deny\<close>

record DenyMatchConfig =
  dm_PathPrefix :: string
  dm_PathRegex :: string
  dm_CompiledPathRegex :: "(string \<Rightarrow> bool) option"
  dm_Headers :: "(string \<times> string) list"
  dm_ResponseHeaders :: "(string \<times> string) list"
  dm_NotHeaders :: "(string \<times> string) list"
  dm_NotResponseHeaders :: "(string \<times> string) list"

record DenyFilterConfig =
  dn_StatusCode :: int
  dn_Body :: string
  dn_Match :: DenyMatchConfig

record DenyFilter =
  df_config :: DenyFilterConfig
  df_hasConditions :: bool
  df_matchesResponse :: bool

definition lowercaseHeaderMapKeys :: "(string \<times> string) list \<Rightarrow> (string \<times> string) list" where
  "lowercaseHeaderMapKeys m =
     (if m = [] then m else fold (\<lambda>(k, v) out. AList.update (to_lower k) v out) m [])"

definition NewDenyFilter :: "(string \<Rightarrow> (string \<Rightarrow> bool) option) \<Rightarrow> DenyFilterConfig \<Rightarrow> (string, DenyFilter) result" where
  "NewDenyFilter re cfg =
     bind_result
       (if dm_PathRegex (dn_Match cfg) \<noteq> [] then
          (case re (dm_PathRegex (dn_Match cfg)) of
             None \<Rightarrow> Err (''deny filter: invalid path_regex '' @ dm_PathRegex (dn_Match cfg))
           | Some c \<Rightarrow> Ok ((dn_Match cfg)\<lparr>dm_CompiledPathRegex := Some c\<rparr>))
        else Ok (dn_Match cfg)) (\<lambda>m.
     let m1 = m\<lparr>dm_Headers := lowercaseHeaderMapKeys (dm_Headers m),
                dm_ResponseHeaders := lowercaseHeaderMapKeys (dm_ResponseHeaders m),
                dm_NotHeaders := lowercaseHeaderMapKeys (dm_NotHeaders m),
                dm_NotResponseHeaders := lowercaseHeaderMapKeys (dm_NotResponseHeaders m)\<rparr>
     in Ok \<lparr>df_config = \<lparr>dn_StatusCode = (if dn_StatusCode cfg = 0 then 403 else dn_StatusCode cfg),
                         dn_Body = (if dn_Body cfg = [] then ''Forbidden'' else dn_Body cfg), dn_Match = m1\<rparr>,
            df_hasConditions = (dm_PathPrefix m1 \<noteq> [] \<or> dm_PathRegex m1 \<noteq> [] \<or> dm_Headers m1 \<noteq> [] \<or>
              dm_ResponseHeaders m1 \<noteq> [] \<or> dm_NotHeaders m1 \<noteq> [] \<or> dm_NotResponseHeaders m1 \<noteq> []),
            df_matchesResponse = (dm_ResponseHeaders m1 \<noteq> [] \<or> dm_NotResponseHeaders m1 \<noteq> [])\<rparr>)"

definition deny_SupportedPhases :: "DenyFilter \<Rightarrow> Phase list" where
  "deny_SupportedPhases f = (if df_matchesResponse f then [PhaseResponseHeaders] else [PhaseRequestHeaders])"

definition applyBlock :: "DenyFilter \<Rightarrow> RequestContext \<Rightarrow> RequestContext" where
  "applyBlock f ctx =
     ctx\<lparr>ctx_Blocked := True, ctx_ResponseStatus := dn_StatusCode (df_config f), ctx_ResponseBody := dn_Body (df_config f)\<rparr>"

text \<open>The loops over the header conditions: whether one of them makes the filter return.\<close>

fun required_fails :: "(string \<Rightarrow> string) \<Rightarrow> (string \<times> string) list \<Rightarrow> bool" where
  "required_fails get [] = False"
| "required_fails get ((key, expected) # rest) =
     (let actual = get key in
      if expected = ''*'' then (if actual = [] then True else required_fails get rest)
      else if actual \<noteq> expected then True
      else required_fails get rest)"

fun excluded_fails :: "(string \<Rightarrow> string) \<Rightarrow> (string \<times> string) list \<Rightarrow> bool" where
  "excluded_fails get [] = False"
| "excluded_fails get ((key, expected) # rest) =
     (let actual = get key in
      if expected = ''*'' then (if actual \<noteq> [] then True else excluded_fails get rest)
      else if actual = expected then True
      else excluded_fails get rest)"

definition deny_Execute :: "DenyFilter \<Rightarrow> RequestContext \<Rightarrow> 'w \<Rightarrow> string option \<times> RequestContext \<times> 'w" where
  "deny_Execute f ctx w =
     (let m = dn_Match (df_config f) in
      if \<not> df_hasConditions f then (None, applyBlock f ctx, w)
      else if dm_PathPrefix m \<noteq> [] \<and> \<not> has_prefix (ctx_Path ctx) (dm_PathPrefix m) then (None, ctx, w)
      else if (case dm_CompiledPathRegex m of None \<Rightarrow> False | Some c \<Rightarrow> \<not> c (ctx_Path ctx)) then (None, ctx, w)
      else if required_fails (GetHeader ctx) (dm_Headers m) then (None, ctx, w)
      else if required_fails (GetResponseHeader ctx) (dm_ResponseHeaders m) then (None, ctx, w)
      else if excluded_fails (GetHeader ctx) (dm_NotHeaders m) then (None, ctx, w)
      else if excluded_fails (GetResponseHeader ctx) (dm_NotResponseHeaders m) then (None, ctx, w)
      else (None, applyBlock f ctx, w))"

definition deny_base :: "DenyFilter \<Rightarrow> 'w base_filter" where
  "deny_base f = \<lparr>bf_phases = Some (deny_SupportedPhases f), bf_exec = deny_Execute f\<rparr>"

lemma required_fails_iff:
  "required_fails get m \<longleftrightarrow> (\<exists>(k, v) \<in> set m. if v = ''*'' then get k = [] else get k \<noteq> v)"
  by (induction get m rule: required_fails.induct) (auto simp: Let_def)

lemma excluded_fails_iff:
  "excluded_fails get m \<longleftrightarrow> (\<exists>(k, v) \<in> set m. if v = ''*'' then get k \<noteq> [] else get k = v)"
  by (induction get m rule: excluded_fails.induct) (auto simp: Let_def)

lemma applyBlock_Block: "applyBlock f ctx = Block (dn_StatusCode (df_config f)) (dn_Body (df_config f)) ctx"
  by (simp add: applyBlock_def Block_def)

lemma deny_lawful: "lawful_exec (bf_exec (deny_base f))"
  by (rule lawful_exec_change) (auto simp: deny_base_def deny_Execute_def Let_def applyBlock_Block split: if_splits)

text \<open>What a deny filter is meant to block, read from its configuration: a request for which every
  condition holds, the header names in any letter case.\<close>

definition header_holds :: "(string \<Rightarrow> string) \<Rightarrow> string \<times> string \<Rightarrow> bool" where
  "header_holds get kv = (case kv of (k, v) \<Rightarrow> if v = ''*'' then get (to_lower k) \<noteq> [] else get (to_lower k) = v)"

definition deny_reading :: "(string \<Rightarrow> (string \<Rightarrow> bool) option) \<Rightarrow> DenyFilterConfig \<Rightarrow> RequestContext \<Rightarrow> bool" where
  "deny_reading re cfg ctx \<longleftrightarrow>
     (let m = dn_Match cfg in
      (dm_PathPrefix m = [] \<or> has_prefix (ctx_Path ctx) (dm_PathPrefix m)) \<and>
      (dm_PathRegex m = [] \<or> (\<exists>c. re (dm_PathRegex m) = Some c \<and> c (ctx_Path ctx))) \<and>
      (\<forall>kv \<in> set (dm_Headers m). header_holds (GetHeader ctx) kv) \<and>
      (\<forall>kv \<in> set (dm_ResponseHeaders m). header_holds (GetResponseHeader ctx) kv) \<and>
      (\<forall>kv \<in> set (dm_NotHeaders m). \<not> header_holds (GetHeader ctx) kv) \<and>
      (\<forall>kv \<in> set (dm_NotResponseHeaders m). \<not> header_holds (GetResponseHeader ctx) kv))"

definition lower_distinct :: "(string \<times> string) list \<Rightarrow> bool" where
  "lower_distinct m \<longleftrightarrow> distinct (map (\<lambda>(k, v). to_lower k) m)"

lemma update_new: "k \<notin> fst ` set out \<Longrightarrow> AList.update k v out = out @ [(k, v)]"
  by (induction out) auto

lemma fold_update_distinct:
  "distinct (map fst out @ map (\<lambda>(k, v). to_lower k) m) \<Longrightarrow>
   fold (\<lambda>(k, v) out. AList.update (to_lower k) v out) m out = out @ map (\<lambda>(k, v). (to_lower k, v)) m"
proof (induction m arbitrary: out)
  case (Cons kv m)
  obtain k v where kv: "kv = (k, v)" by (cases kv)
  have "AList.update (to_lower k) v out = out @ [(to_lower k, v)]"
    using Cons.prems by (intro update_new) (auto simp: kv)
  with Cons show ?case by (simp add: kv)
qed simp

lemma lowercaseHeaderMapKeys_distinct:
  "lower_distinct m \<Longrightarrow> lowercaseHeaderMapKeys m = map (\<lambda>(k, v). (to_lower k, v)) m"
  using fold_update_distinct [of "[]" m] by (simp add: lowercaseHeaderMapKeys_def lower_distinct_def)

lemma required_reading:
  "lower_distinct m \<Longrightarrow> \<not> required_fails get (lowercaseHeaderMapKeys m) \<longleftrightarrow> (\<forall>kv \<in> set m. header_holds get kv)"
  by (force simp: lowercaseHeaderMapKeys_distinct required_fails_iff header_holds_def)

lemma excluded_reading:
  "lower_distinct m \<Longrightarrow> \<not> excluded_fails get (lowercaseHeaderMapKeys m) \<longleftrightarrow> (\<forall>kv \<in> set m. \<not> header_holds get kv)"
  by (force simp: lowercaseHeaderMapKeys_distinct excluded_fails_iff header_holds_def)

lemma lowercaseHeaderMapKeys_Nil: "lower_distinct m \<Longrightarrow> lowercaseHeaderMapKeys m = [] \<longleftrightarrow> m = []"
  by (simp add: lowercaseHeaderMapKeys_distinct)

text \<open>the deny filter blocks exactly the requests its configuration describes, with the
  configured status and body, and leaves every other request as it was. The header names of each map
  differ in more than letter case.\<close>

theorem deny_as_configured:
  assumes "NewDenyFilter re cfg = Ok f" "dm_CompiledPathRegex (dn_Match cfg) = None"
    "lower_distinct (dm_Headers (dn_Match cfg))" "lower_distinct (dm_ResponseHeaders (dn_Match cfg))"
    "lower_distinct (dm_NotHeaders (dn_Match cfg))" "lower_distinct (dm_NotResponseHeaders (dn_Match cfg))"
  shows "deny_Execute f ctx w =
    (None, if deny_reading re cfg ctx
           then Block (if dn_StatusCode cfg = 0 then 403 else dn_StatusCode cfg)
                  (if dn_Body cfg = [] then ''Forbidden'' else dn_Body cfg) ctx
           else ctx, w)"
proof -
  define m where "m = dn_Match cfg"
  define m1 where "m1 = (if dm_PathRegex m \<noteq> [] then m\<lparr>dm_CompiledPathRegex := re (dm_PathRegex m)\<rparr> else m)"
  note lows = assms(3-6) [folded m_def]
  have regex: "dm_PathRegex m \<noteq> [] \<Longrightarrow> \<exists>c. re (dm_PathRegex m) = Some c"
    using assms(1) by (auto simp: NewDenyFilter_def m_def [symmetric] bind_result_eq_Ok split: if_splits option.splits)
  have same [simp]: "dm_PathPrefix m1 = dm_PathPrefix m" "dm_PathRegex m1 = dm_PathRegex m" "dm_Headers m1 = dm_Headers m"
    "dm_ResponseHeaders m1 = dm_ResponseHeaders m" "dm_NotHeaders m1 = dm_NotHeaders m"
    "dm_NotResponseHeaders m1 = dm_NotResponseHeaders m"
    by (simp_all add: m1_def)
  have f: "dn_StatusCode (df_config f) = (if dn_StatusCode cfg = 0 then 403 else dn_StatusCode cfg)"
    "dn_Body (df_config f) = (if dn_Body cfg = [] then ''Forbidden'' else dn_Body cfg)"
    "dn_Match (df_config f) = m1\<lparr>dm_Headers := lowercaseHeaderMapKeys (dm_Headers m),
                dm_ResponseHeaders := lowercaseHeaderMapKeys (dm_ResponseHeaders m),
                dm_NotHeaders := lowercaseHeaderMapKeys (dm_NotHeaders m),
                dm_NotResponseHeaders := lowercaseHeaderMapKeys (dm_NotResponseHeaders m)\<rparr>"
    "df_hasConditions f \<longleftrightarrow> dm_PathPrefix m \<noteq> [] \<or> dm_PathRegex m \<noteq> [] \<or> dm_Headers m \<noteq> [] \<or>
       dm_ResponseHeaders m \<noteq> [] \<or> dm_NotHeaders m \<noteq> [] \<or> dm_NotResponseHeaders m \<noteq> []"
    using assms(1) lows
    by (auto simp: NewDenyFilter_def m_def [symmetric] m1_def Let_def lowercaseHeaderMapKeys_Nil
        split: if_splits option.splits)
  have compiled: "dm_CompiledPathRegex m1 = (if dm_PathRegex m \<noteq> [] then re (dm_PathRegex m) else None)"
    using assms(2) by (simp add: m1_def m_def)
  have none: "\<not> df_hasConditions f \<Longrightarrow> deny_reading re cfg ctx"
    by (simp add: deny_reading_def f(4) m_def [symmetric])
  have reading: "deny_reading re cfg ctx \<longleftrightarrow>
      \<not> (dm_PathPrefix m \<noteq> [] \<and> \<not> has_prefix (ctx_Path ctx) (dm_PathPrefix m)) \<and>
      \<not> (case dm_CompiledPathRegex m1 of None \<Rightarrow> False | Some c \<Rightarrow> \<not> c (ctx_Path ctx)) \<and>
      \<not> required_fails (GetHeader ctx) (lowercaseHeaderMapKeys (dm_Headers m)) \<and>
      \<not> required_fails (GetResponseHeader ctx) (lowercaseHeaderMapKeys (dm_ResponseHeaders m)) \<and>
      \<not> excluded_fails (GetHeader ctx) (lowercaseHeaderMapKeys (dm_NotHeaders m)) \<and>
      \<not> excluded_fails (GetResponseHeader ctx) (lowercaseHeaderMapKeys (dm_NotResponseHeaders m))"
    unfolding deny_reading_def m_def [symmetric] Let_def compiled required_reading [OF lows(1)]
      required_reading [OF lows(2)] excluded_reading [OF lows(3)] excluded_reading [OF lows(4)]
    using regex by (auto split: option.splits)
  show ?thesis
  proof (cases "df_hasConditions f")
    case False
    with none show ?thesis by (simp add: deny_Execute_def applyBlock_Block f(1,2))
  next
    case True
    then show ?thesis
      unfolding reading by (simp add: deny_Execute_def applyBlock_Block f(1-3) Let_def)
  qed
qed

definition ex_deny :: DenyFilterConfig where
  "ex_deny = \<lparr>dn_StatusCode = 0, dn_Body = [], dn_Match = \<lparr>dm_PathPrefix = ''/admin'', dm_PathRegex = [],
     dm_CompiledPathRegex = None, dm_Headers = [(''X-User'', ''*'')], dm_ResponseHeaders = [], dm_NotHeaders = [],
     dm_NotResponseHeaders = []\<rparr>\<rparr>"

theorem deny_as_configured_witness:
  "\<exists>f. NewDenyFilter (\<lambda>_. None) ex_deny = Ok f \<and>
     deny_Execute f (new_context\<lparr>ctx_Path := ''/admin/x''\<rparr>) (0::nat) = (None, new_context\<lparr>ctx_Path := ''/admin/x''\<rparr>, 0)"
proof -
  let ?ctx = "new_context\<lparr>ctx_Path := ''/admin/x''\<rparr>"
  obtain f where f: "NewDenyFilter (\<lambda>_. None) ex_deny = Ok f"
    by (simp add: NewDenyFilter_def ex_deny_def Let_def)
  have no: "\<not> deny_reading (\<lambda>_. None) ex_deny ?ctx"
    by (simp add: deny_reading_def ex_deny_def header_holds_def GetHeader_def new_context_def containsKey_def get_or_empty_def)
  have "deny_Execute f ?ctx (0::nat) = (None, ?ctx, 0)"
    by (subst deny_as_configured [OF f]) (simp_all add: ex_deny_def lower_distinct_def no [unfolded ex_deny_def])
  with f show ?thesis by blast
qed

subsection \<open>Header modifier\<close>

record HeaderOptions =
  hp_Add :: "(string \<times> string) list"
  hp_Override :: "(string \<times> string) list"
  hp_Remove :: "string list"

record HeaderModifierConfig =
  hm_Upstream :: HeaderOptions
  hm_Downstream :: HeaderOptions
  hm_Add :: "(string \<times> string) list"
  hm_Override :: "(string \<times> string) list"
  hm_Remove :: "string list"

definition lowercaseMap :: "(string \<times> string) list \<Rightarrow> (string \<times> string) list" where
  "lowercaseMap m = fold (\<lambda>(k, v) res. AList.update (to_lower k) v res) m []"

definition lower_options :: "HeaderOptions \<Rightarrow> HeaderOptions" where
  "lower_options h = h\<lparr>hp_Add := lowercaseMap (hp_Add h), hp_Override := lowercaseMap (hp_Override h),
     hp_Remove := map to_lower (hp_Remove h)\<rparr>"

definition NewHeaderModifierFilter :: "HeaderModifierConfig \<Rightarrow> HeaderModifierConfig" where
  "NewHeaderModifierFilter config =
     config\<lparr>hm_Add := lowercaseMap (hm_Add config), hm_Override := lowercaseMap (hm_Override config),
            hm_Remove := map to_lower (hm_Remove config), hm_Upstream := lower_options (hm_Upstream config),
            hm_Downstream := lower_options (hm_Downstream config)\<rparr>"

definition set_all :: "(string \<Rightarrow> string \<Rightarrow> RequestContext \<Rightarrow> RequestContext) \<Rightarrow> (string \<times> string) list \<Rightarrow> RequestContext \<Rightarrow> RequestContext" where
  "set_all put kvs ctx = fold (\<lambda>(k, v). put k v) kvs ctx"

definition header_modifier_Execute :: "HeaderModifierConfig \<Rightarrow> RequestContext \<Rightarrow> 'w \<Rightarrow> string option \<times> RequestContext \<times> 'w" where
  "header_modifier_Execute f ctx w =
     (let c1 = set_all SetHeaderUpstream (hm_Add f) ctx;
          c2 = set_all SetHeaderUpstream (hm_Override f) c1;
          c3 = fold RemoveHeaderUpstream (hm_Remove f) c2;
          c4 = set_all SetHeaderUpstream (hp_Add (hm_Upstream f)) c3;
          c5 = set_all SetHeaderUpstream (hp_Override (hm_Upstream f)) c4;
          c6 = fold RemoveHeaderUpstream (hp_Remove (hm_Upstream f)) c5;
          c7 = set_all SetHeaderDownstream (hp_Add (hm_Downstream f)) c6;
          c8 = set_all SetHeaderDownstream (hp_Override (hm_Downstream f)) c7;
          c9 = fold RemoveHeaderDownstream (hp_Remove (hm_Downstream f)) c8
      in (None, c9, w))"

definition header_modifier_base :: "HeaderModifierConfig \<Rightarrow> 'w base_filter" where
  "header_modifier_base cfg = \<lparr>bf_phases = None, bf_exec = header_modifier_Execute (NewHeaderModifierFilter cfg)\<rparr>"

lemma lawful_set_all:
  assumes "lawful_change c d"
  shows "lawful_change c (set_all SetHeaderUpstream kvs d)" "lawful_change c (set_all SetHeaderDownstream kvs d)"
  unfolding set_all_def by (rule lawful_change_fold [OF assms], auto)+

lemma lawful_remove_all:
  assumes "lawful_change c d"
  shows "lawful_change c (fold RemoveHeaderUpstream ks d)" "lawful_change c (fold RemoveHeaderDownstream ks d)"
  by (rule lawful_change_fold [OF assms], auto)+

lemma header_modifier_lawful: "lawful_exec (bf_exec (header_modifier_base cfg))"
  by (rule lawful_exec_change)
     (auto simp: header_modifier_base_def header_modifier_Execute_def Let_def intro!: lawful_set_all lawful_remove_all)

text \<open>The value a header has after a section: removed, else the overriding value, else the added one.\<close>

definition section_value :: "(string \<times> string) list \<Rightarrow> (string \<times> string) list \<Rightarrow> string list \<Rightarrow> string \<Rightarrow> string \<Rightarrow> string" where
  "section_value add over rem q old =
     (if q \<in> to_lower ` set rem then []
      else (case map_of (rev (map (\<lambda>(k, v). (to_lower k, v)) over)) q of
              Some v \<Rightarrow> v
            | None \<Rightarrow> (case map_of (rev (map (\<lambda>(k, v). (to_lower k, v)) add)) q of Some v \<Rightarrow> v | None \<Rightarrow> old)))"

lemma GetHeader_downstream_edits [simp]:
  "GetHeader (SetHeaderDownstream k v c) q = GetHeader c q" "GetHeader (RemoveHeaderDownstream k c) q = GetHeader c q"
  by (simp_all add: GetHeader_def SetHeaderDownstream_def RemoveHeaderDownstream_def Let_def split: option.split)

lemma GetResponseHeader_upstream_edits [simp]:
  "GetResponseHeader (SetHeaderUpstream k v c) q = GetResponseHeader c q"
  "GetResponseHeader (RemoveHeaderUpstream k c) q = GetResponseHeader c q"
  by (simp_all add: GetResponseHeader_def SetHeaderUpstream_def RemoveHeaderUpstream_def Let_def split: option.split)

lemma get_after_other_side [simp]:
  "GetHeader (set_all SetHeaderDownstream kvs c) q = GetHeader c q"
  "GetHeader (fold RemoveHeaderDownstream ks c) q = GetHeader c q"
  "GetResponseHeader (set_all SetHeaderUpstream kvs c) q = GetResponseHeader c q"
  "GetResponseHeader (fold RemoveHeaderUpstream ks c) q = GetResponseHeader c q"
proof -
  show "GetHeader (set_all SetHeaderDownstream kvs c) q = GetHeader c q"
    unfolding set_all_def by (induction kvs arbitrary: c) auto
  show "GetHeader (fold RemoveHeaderDownstream ks c) q = GetHeader c q" by (induction ks arbitrary: c) auto
  show "GetResponseHeader (set_all SetHeaderUpstream kvs c) q = GetResponseHeader c q"
    unfolding set_all_def by (induction kvs arbitrary: c) auto
  show "GetResponseHeader (fold RemoveHeaderUpstream ks c) q = GetResponseHeader c q" by (induction ks arbitrary: c) auto
qed

text \<open>the header modifier does what its sections say. Within a section, removal wins over
  override and override over add; the top-level section is applied before the upstream one; the
  downstream section never touches request headers nor the others response headers; and the request
  is never blocked.\<close>

theorem header_modifier_effect:
  assumes "to_lower q = q" "header_modifier_Execute f ctx w = (err, c, w')"
  shows "err = None \<and>
    GetHeader c q =
      section_value (hp_Add (hm_Upstream f)) (hp_Override (hm_Upstream f)) (hp_Remove (hm_Upstream f)) q
        (section_value (hm_Add f) (hm_Override f) (hm_Remove f) q (GetHeader ctx q)) \<and>
    GetResponseHeader c q =
      section_value (hp_Add (hm_Downstream f)) (hp_Override (hm_Downstream f)) (hp_Remove (hm_Downstream f)) q
        (GetResponseHeader ctx q)"
proof -
  note get = upstream.get_puts [OF assms(1), folded set_all_def] upstream.get_dels [OF assms(1)]
    downstream.get_puts [OF assms(1), folded set_all_def] downstream.get_dels [OF assms(1)]
  have c: "err = None" "c = fold RemoveHeaderDownstream (hp_Remove (hm_Downstream f))
      (set_all SetHeaderDownstream (hp_Override (hm_Downstream f))
        (set_all SetHeaderDownstream (hp_Add (hm_Downstream f))
          (fold RemoveHeaderUpstream (hp_Remove (hm_Upstream f))
            (set_all SetHeaderUpstream (hp_Override (hm_Upstream f))
              (set_all SetHeaderUpstream (hp_Add (hm_Upstream f))
                (fold RemoveHeaderUpstream (hm_Remove f)
                  (set_all SetHeaderUpstream (hm_Override f) (set_all SetHeaderUpstream (hm_Add f) ctx))))))))"
    using assms(2) by (simp_all add: header_modifier_Execute_def)
  show ?thesis
    unfolding c(2) by (simp add: c(1) get section_value_def cong: option.case_cong)
qed

definition ex_modifier :: HeaderModifierConfig where
  "ex_modifier = \<lparr>hm_Upstream = \<lparr>hp_Add = [(''x-cost'', ''5'')], hp_Override = [], hp_Remove = []\<rparr>,
     hm_Downstream = \<lparr>hp_Add = [], hp_Override = [], hp_Remove = [''server'']\<rparr>, hm_Add = [(''x-cost'', ''1'')],
     hm_Override = [], hm_Remove = []\<rparr>"

theorem header_modifier_effect_witness:
  "case header_modifier_Execute ex_modifier new_context (0::nat) of (err, c, w') \<Rightarrow> GetHeader c ''x-cost'' = ''5''"
proof -
  obtain err c w' where ex: "header_modifier_Execute ex_modifier new_context (0::nat) = (err, c, w')"
    by (cases "header_modifier_Execute ex_modifier new_context (0::nat)")
  have lower: "to_lower ''x-cost'' = ''x-cost''" by code_simp
  show ?thesis
    using header_modifier_effect [OF lower ex] ex by (simp add: ex_modifier_def section_value_def lower)
qed

subsection \<open>Correlation identifiers\<close>

record CorrelationConfig =
  cc_HeaderName :: string
  cc_Algorithm :: string
  cc_Mode :: string
  cc_Prefix :: string
  cc_PropagateToUpstream :: bool
  cc_PropagateToDownstream :: bool
  cc_InputHeaderName :: string
  cc_ResponseHeaderName :: string
  cc_ValidationRegex :: string
  cc_CompiledValidationRegex :: "(string \<Rightarrow> bool) option"

definition default_to :: "string \<Rightarrow> string \<Rightarrow> string" where
  "default_to d s = (if s = [] then d else s)"

definition NewCorrelationFilter ::
  "(string \<Rightarrow> (string \<Rightarrow> bool) option) \<Rightarrow> CorrelationConfig \<Rightarrow> (string, CorrelationConfig) result" where
  "NewCorrelationFilter re cfg =
     (let header = default_to ''x-request-id'' (cc_HeaderName cfg);
          c1 = cfg\<lparr>cc_HeaderName := header, cc_Algorithm := default_to ''uuidv4'' (cc_Algorithm cfg),
                   cc_Mode := default_to ''if_missing'' (cc_Mode cfg),
                   cc_InputHeaderName := default_to header (cc_InputHeaderName cfg),
                   cc_ResponseHeaderName := default_to header (cc_ResponseHeaderName cfg)\<rparr> in
      if cc_ValidationRegex c1 \<noteq> [] then
        (case re (cc_ValidationRegex c1) of
           None \<Rightarrow> Err ''invalid validation_regex''
         | Some c \<Rightarrow> Ok (c1\<lparr>cc_CompiledValidationRegex := Some c\<rparr>))
      else Ok c1)"

text \<open>Which generator runs: an unknown algorithm falls back to version 4 identifiers.\<close>

definition generator :: "string \<Rightarrow> string" where
  "generator alg = (if alg \<in> {''uuidv7'', ''xid'', ''ulid''} then alg else ''uuidv4'')"

definition correlation_Execute ::
  "(string \<Rightarrow> 'w \<Rightarrow> string \<times> 'w) \<Rightarrow> CorrelationConfig \<Rightarrow> RequestContext \<Rightarrow> 'w \<Rightarrow> string option \<times> RequestContext \<times> 'w" where
  "correlation_Execute gen f ctx w =
     (let incomingID = GetHeader ctx (cc_InputHeaderName f);
          generate = (incomingID = [] \<or> cc_Mode f = ''overwrite'' \<or>
            (case cc_CompiledValidationRegex f of None \<Rightarrow> False | Some c \<Rightarrow> \<not> c incomingID));
          (finalID, w1) = (if generate then (let (i, w') = gen (generator (cc_Algorithm f)) w in (cc_Prefix f @ i, w'))
                           else (incomingID, w));
          c1 = (if cc_PropagateToUpstream f then SetHeaderUpstream (cc_HeaderName f) finalID ctx else ctx);
          c2 = (if cc_PropagateToDownstream f then SetHeaderDownstream (cc_ResponseHeaderName f) finalID c1 else c1)
      in (None, c2, w1))"

definition correlation_base :: "(string \<Rightarrow> 'w \<Rightarrow> string \<times> 'w) \<Rightarrow> CorrelationConfig \<Rightarrow> 'w base_filter" where
  "correlation_base gen f = \<lparr>bf_phases = None, bf_exec = correlation_Execute gen f\<rparr>"

lemma correlation_lawful: "lawful_exec (bf_exec (correlation_base gen f))"
  by (rule lawful_exec_change)
     (auto simp: correlation_base_def correlation_Execute_def Let_def split: if_splits prod.splits
       intro!: lawful_change_ops)

lemma map_lower_key: "\<forall>k v. m k = Some v \<longrightarrow> to_lower k = k \<Longrightarrow> to_lower q \<noteq> q \<Longrightarrow> m q = None"
  by (cases "m q") auto

text \<open>The header maps of a context only have lower-case names.\<close>

definition lower_names :: "RequestContext \<Rightarrow> bool" where
  "lower_names ctx \<longleftrightarrow> (\<forall>k v. upstream_view ctx k = Some v \<longrightarrow> to_lower k = k)"

text \<open>a correlation header configured with a capital letter is never read. Request headers are
  stored with lower-case names and the configured name is looked up as written, so an incoming
  identifier is replaced on every request although the mode is \<^verbatim>\<open>if_missing\<close>.\<close>

theorem correlation_capital_regenerates:
  assumes "lower_names ctx" "to_lower (cc_InputHeaderName f) \<noteq> cc_InputHeaderName f" "cc_PropagateToUpstream f"
    "\<not> cc_PropagateToDownstream f" "gen (generator (cc_Algorithm f)) w = (i, w')"
  shows "correlation_Execute gen f ctx w = (None, SetHeaderUpstream (cc_HeaderName f) (cc_Prefix f @ i) ctx, w')"
proof -
  have "upstream_view ctx (cc_InputHeaderName f) = None"
    by (rule map_lower_key) (use assms(1,2) in \<open>auto simp: lower_names_def\<close>)
  then have "GetHeader ctx (cc_InputHeaderName f) = []" by (simp add: GetHeader_view get_or_empty_def)
  with assms(3-5) show ?thesis by (simp add: correlation_Execute_def)
qed

definition ex_correlation :: CorrelationConfig where
  "ex_correlation = \<lparr>cc_HeaderName = ''X-Trace'', cc_Algorithm = ''xid'', cc_Mode = ''if_missing'', cc_Prefix = [],
     cc_PropagateToUpstream = True, cc_PropagateToDownstream = False, cc_InputHeaderName = ''X-Trace'',
     cc_ResponseHeaderName = ''X-Trace'', cc_ValidationRegex = [], cc_CompiledValidationRegex = None\<rparr>"

theorem correlation_capital_regenerates_witness:
  "correlation_Execute (\<lambda>_ n. (''fresh'', Suc n)) ex_correlation (new_context\<lparr>ctx_Headers := [''x-trace'' \<mapsto> ''given'']\<rparr>) 0 =
     (None, SetHeaderUpstream ''X-Trace'' ''fresh'' (new_context\<lparr>ctx_Headers := [''x-trace'' \<mapsto> ''given'']\<rparr>), 1)"
proof -
  let ?ctx = "new_context\<lparr>ctx_Headers := [''x-trace'' \<mapsto> ''given'']\<rparr>"
  have low: "to_lower ''x-trace'' = ''x-trace''" "to_lower ''X-Trace'' \<noteq> ''X-Trace''" by code_simp+
  have "lower_names ?ctx" using low(1) by (simp add: lower_names_def upstream_view_def new_context_def)
  from correlation_capital_regenerates [OF this, of ex_correlation "\<lambda>_ n. (''fresh'', Suc n)" 0] low(2)
  show ?thesis by (simp add: ex_correlation_def)
qed

subsection \<open>CORS\<close>

record cors_Config =
  co_AllowOrigins :: "string list"
  co_AllowOriginRegex :: "string list"
  co_AllowMethods :: "string list"
  co_AllowHeaders :: "string list"
  co_ExposeHeaders :: "string list"
  co_AllowCredentials :: bool
  co_MaxAge :: int
  co_BlockDisallowedOrigins :: bool

record cors_Filter =
  cf_cfg :: cors_Config
  cf_anyOrigin :: bool
  cf_origins :: "string list"
  cf_originRegexps :: "(string \<Rightarrow> bool) list"
  cf_methods :: string
  cf_anyMethod :: bool
  cf_headers :: string
  cf_anyHeader :: bool
  cf_expose :: string
  cf_maxAge :: string

datatype cors_error = BadOriginRegex string | NoOrigins | CredentialsWithAny | NegativeMaxAge

fun join_items :: "string list \<Rightarrow> (string \<Rightarrow> string) \<Rightarrow> string list \<Rightarrow> string \<times> bool" where
  "join_items [] norm out = (join '', '' out, False)"
| "join_items (it0 # items) norm out =
     (let it = trim_space it0 in
      if it = ''*'' then ([], True)
      else join_items items norm (if it \<noteq> [] then out @ [norm it] else out))"

definition joinList :: "string list \<Rightarrow> (string \<Rightarrow> string) \<Rightarrow> string \<times> bool" where
  "joinList items norm = join_items items norm []"

definition listed_origins :: "string list \<Rightarrow> string list" where
  "listed_origins os =
     [to_lower (trim_suffix o1 ''/''). o1 \<leftarrow> map trim_space os, o1 \<noteq> ''*'' \<and> o1 \<noteq> []]"

definition cors_NewFilter :: "(string \<Rightarrow> (string \<Rightarrow> bool) option) \<Rightarrow> cors_Config \<Rightarrow> (cors_error, cors_Filter) result" where
  "cors_NewFilter re cfg =
     (let anyOrigin = (''*'' \<in> set (map trim_space (co_AllowOrigins cfg)));
          origins = listed_origins (co_AllowOrigins cfg) in
      bind_result
        (map_result (\<lambda>p. case re (''^(?:'' @ p @ '')$'') of None \<Rightarrow> Err (BadOriginRegex p) | Some c \<Rightarrow> Ok c)
           (co_AllowOriginRegex cfg)) (\<lambda>regexps.
      if \<not> anyOrigin \<and> origins = [] \<and> regexps = [] then Err NoOrigins
      else if anyOrigin \<and> co_AllowCredentials cfg then Err CredentialsWithAny
      else if co_MaxAge cfg < 0 then Err NegativeMaxAge
      else
        (let methods = (if co_AllowMethods cfg = [] then [''GET'', ''HEAD'', ''POST''] else co_AllowMethods cfg);
             (ms, anyM) = joinList methods to_upper;
             (hs, anyH) = joinList (co_AllowHeaders cfg) to_lower;
             (ex, _) = joinList (co_ExposeHeaders cfg) to_lower
         in Ok \<lparr>cf_cfg = cfg, cf_anyOrigin = anyOrigin, cf_origins = origins, cf_originRegexps = regexps,
                cf_methods = ms, cf_anyMethod = anyM, cf_headers = hs, cf_anyHeader = anyH, cf_expose = ex,
                cf_maxAge = (if co_MaxAge cfg > 0 then show_int (co_MaxAge cfg) else [])\<rparr>)))"

definition originAllowed :: "cors_Filter \<Rightarrow> string \<Rightarrow> bool" where
  "originAllowed f origin \<longleftrightarrow>
     (if cf_anyOrigin f then True
      else if to_lower origin \<in> set (cf_origins f) then True
      else list_ex (\<lambda>c. c origin) (cf_originRegexps f))"

definition reflectsOrigin :: "cors_Filter \<Rightarrow> bool" where
  "reflectsOrigin f \<longleftrightarrow> \<not> cf_anyOrigin f"

definition setAllowOrigin :: "cors_Filter \<Rightarrow> string \<Rightarrow> RequestContext \<Rightarrow> RequestContext" where
  "setAllowOrigin f origin ctx =
     (let c1 = (if reflectsOrigin f
                then SetHeaderDownstream ''vary'' ''Origin'' (SetHeaderDownstream ''access-control-allow-origin'' origin ctx)
                else SetHeaderDownstream ''access-control-allow-origin'' ''*'' ctx)
      in if co_AllowCredentials (cf_cfg f) then SetHeaderDownstream ''access-control-allow-credentials'' ''true'' c1 else c1)"

definition mergeVary :: "string \<Rightarrow> string \<Rightarrow> string" where
  "mergeVary existing token =
     (if existing = [] then token
      else if list_ex (\<lambda>part. trim_space part = ''*'' \<or> equal_fold (trim_space part) token) (split_on CHR '','' existing) then existing
      else existing @ '', '' @ token)"

definition preflight_headers :: "cors_Filter \<Rightarrow> RequestContext \<Rightarrow> RequestContext" where
  "preflight_headers f ctx =
     (let methods = (if cf_anyMethod f then to_upper (GetHeader ctx ''access-control-request-method'') else cf_methods f);
          c1 = SetHeaderDownstream ''access-control-allow-methods'' methods ctx;
          headers = (if cf_anyHeader f then GetHeader c1 ''access-control-request-headers'' else cf_headers f);
          c2 = (if headers \<noteq> [] then SetHeaderDownstream ''access-control-allow-headers'' headers c1 else c1)
      in if cf_maxAge f \<noteq> [] then SetHeaderDownstream ''access-control-max-age'' (cf_maxAge f) c2 else c2)"

definition cors_Execute :: "cors_Filter \<Rightarrow> RequestContext \<Rightarrow> 'w \<Rightarrow> string option \<times> RequestContext \<times> 'w" where
  "cors_Execute f ctx w =
     (let origin = GetHeader ctx ''origin'' in
      if origin = [] then (None, ctx, w)
      else
        (let allowed = originAllowed f origin in
         if ctx_Phase ctx = PhaseResponseHeaders then
           (None, if allowed \<and> reflectsOrigin f
                  then SetHeaderDownstream ''vary'' (mergeVary (get_or_empty (ctx_ResponseHeaders ctx) ''vary'') ''Origin'') ctx
                  else ctx, w)
         else
           (let preflight = (ctx_Method ctx = ''OPTIONS'' \<and> GetHeader ctx ''access-control-request-method'' \<noteq> []) in
            if \<not> allowed then
              (None, if preflight \<or> co_BlockDisallowedOrigins (cf_cfg f) then Block 403 ''CORS origin not allowed'' ctx else ctx, w)
            else
              (let c1 = setAllowOrigin f origin ctx in
               if preflight then (None, Answer 204 [] (preflight_headers f c1), w)
               else (None, if cf_expose f \<noteq> [] then SetHeaderDownstream ''access-control-expose-headers'' (cf_expose f) c1 else c1, w)))))"

definition cors_base :: "cors_Filter \<Rightarrow> 'w base_filter" where
  "cors_base f = \<lparr>bf_phases = Some [PhaseRequestHeaders, PhaseResponseHeaders], bf_exec = cors_Execute f\<rparr>"

lemma cors_lawful: "lawful_exec (bf_exec (cors_base f))"
  by (rule lawful_exec_change)
     (auto simp: cors_base_def cors_Execute_def Let_def setAllowOrigin_def preflight_headers_def split: if_splits
       intro!: lawful_change_ops)

text \<open>An origin that the configuration allows: it is listed (in any letter case, up to a slash at the
  end of the entry), a pattern matches it as a whole, or every origin is allowed.\<close>

definition origin_listed :: "(string \<Rightarrow> (string \<Rightarrow> bool) option) \<Rightarrow> cors_Config \<Rightarrow> string \<Rightarrow> bool" where
  "origin_listed re cfg origin \<longleftrightarrow>
     (\<exists>e \<in> set (co_AllowOrigins cfg). trim_space e \<noteq> [] \<and> trim_space e \<noteq> ''*'' \<and>
        to_lower (trim_suffix (trim_space e) ''/'') = to_lower origin) \<or>
     (\<exists>p \<in> set (co_AllowOriginRegex cfg). \<exists>c. re (''^(?:'' @ p @ '')$'') = Some c \<and> c origin)"

lemma cors_NewFilter_Ok:
  assumes "cors_NewFilter re cfg = Ok f"
  shows "cf_cfg f = cfg" "cf_anyOrigin f \<longleftrightarrow> ''*'' \<in> set (map trim_space (co_AllowOrigins cfg))"
    "cf_origins f = listed_origins (co_AllowOrigins cfg)" "\<not> (cf_anyOrigin f \<and> co_AllowCredentials cfg)"
    "map_result (\<lambda>p. case re (''^(?:'' @ p @ '')$'') of None \<Rightarrow> Err (BadOriginRegex p) | Some c \<Rightarrow> Ok c)
       (co_AllowOriginRegex cfg) = Ok (cf_originRegexps f)"
  using assms by (auto simp: cors_NewFilter_def Let_def bind_result_eq_Ok split: if_splits prod.splits)

lemma originAllowed_iff:
  assumes "cors_NewFilter re cfg = Ok f" "\<not> cf_anyOrigin f" "originAllowed f origin"
  shows "origin_listed re cfg origin"
proof (cases "to_lower origin \<in> set (cf_origins f)")
  case True
  then obtain e where "e \<in> set (co_AllowOrigins cfg)" "trim_space e \<noteq> ''*''" "trim_space e \<noteq> []"
    "to_lower (trim_suffix (trim_space e) ''/'') = to_lower origin"
    by (auto simp: cors_NewFilter_Ok(3) [OF assms(1)] listed_origins_def split: if_splits)
  then show ?thesis by (auto simp: origin_listed_def)
next
  case False
  with assms(2,3) obtain c where c: "c \<in> set (cf_originRegexps f)" "c origin"
    by (auto simp: originAllowed_def list_ex_iff)
  from map_result_member [OF cors_NewFilter_Ok(5) [OF assms(1)] c(1)] c(2) show ?thesis
    by (force simp: origin_listed_def split: option.splits)
qed

lemma cors_header_names [simp]:
  "to_lower ''access-control-allow-origin'' = ''access-control-allow-origin''"
  "to_lower ''access-control-allow-credentials'' = ''access-control-allow-credentials''"
  "to_lower ''access-control-allow-methods'' = ''access-control-allow-methods''"
  "to_lower ''access-control-allow-headers'' = ''access-control-allow-headers''"
  "to_lower ''access-control-max-age'' = ''access-control-max-age''"
  "to_lower ''access-control-expose-headers'' = ''access-control-expose-headers''"
  "to_lower ''vary'' = ''vary''"
  by code_simp+

lemma GetResponseHeader_Block [simp]:
  "GetResponseHeader (Block st b c) q = GetResponseHeader c q" "GetResponseHeader (Answer st b c) q = GetResponseHeader c q"
  by (simp_all add: GetResponseHeader_def Block_def Answer_def Let_def split: option.split)

lemma blocked_Block [simp]: "ctx_Blocked (Block st b c)" "ctx_Blocked (Answer st b c)"
  by (simp_all add: Block_def Answer_def)

lemma preflight_headers_keep:
  "GetResponseHeader (preflight_headers f c) ''access-control-allow-origin'' = GetResponseHeader c ''access-control-allow-origin''"
  "GetResponseHeader (preflight_headers f c) ''access-control-allow-credentials'' = GetResponseHeader c ''access-control-allow-credentials''"
  by (simp_all add: preflight_headers_def Let_def downstream.get_put)

lemma setAllowOrigin_get:
  "GetResponseHeader (setAllowOrigin f origin c) ''access-control-allow-origin'' = (if reflectsOrigin f then origin else ''*'')"
  "GetResponseHeader (setAllowOrigin f origin c) ''access-control-allow-credentials'' =
     (if co_AllowCredentials (cf_cfg f) then ''true'' else GetResponseHeader c ''access-control-allow-credentials'')"
  by (simp_all add: setAllowOrigin_def Let_def downstream.get_put)

text \<open>C28: cross-origin access is granted only as configured. If the filter adds an
  \<^verbatim>\<open>Access-Control-Allow-Origin\<close> header, its value is the origin of the request and that origin is
  listed, or it is \<^verbatim>\<open>*\<close> and the configuration allows every origin; credentials are allowed only
  together with a listed origin, never with \<^verbatim>\<open>*\<close>; and a preflight request never goes on to the upstream.\<close>

theorem cors_grants_as_configured:
  assumes "cors_NewFilter re cfg = Ok f" "cors_Execute f ctx w = (err, c, w')" "ctx_Phase ctx = PhaseRequestHeaders"
    "GetResponseHeader ctx ''access-control-allow-origin'' = []" "GetResponseHeader ctx ''access-control-allow-credentials'' = []"
  shows "let origin = GetHeader ctx ''origin''; granted = GetResponseHeader c ''access-control-allow-origin'' in
    (granted \<noteq> [] \<longrightarrow> granted = origin \<and> origin_listed re cfg origin \<or>
       granted = ''*'' \<and> ''*'' \<in> set (map trim_space (co_AllowOrigins cfg))) \<and>
    (GetResponseHeader c ''access-control-allow-credentials'' \<noteq> [] \<longrightarrow> granted = origin \<and> origin_listed re cfg origin) \<and>
    (origin \<noteq> [] \<and> ctx_Method ctx = ''OPTIONS'' \<and> GetHeader ctx ''access-control-request-method'' \<noteq> [] \<longrightarrow> ctx_Blocked c)"
proof -
  note f = cors_NewFilter_Ok [OF assms(1)]
  let ?o = "GetHeader ctx ''origin''"
  let ?pre = "ctx_Method ctx = ''OPTIONS'' \<and> GetHeader ctx ''access-control-request-method'' \<noteq> []"
  have c: "c = (if ?o = [] then ctx
     else if \<not> originAllowed f ?o then
       if ?pre \<or> co_BlockDisallowedOrigins cfg then Block 403 ''CORS origin not allowed'' ctx else ctx
     else if ?pre then Answer 204 [] (preflight_headers f (setAllowOrigin f ?o ctx))
     else if cf_expose f \<noteq> [] then SetHeaderDownstream ''access-control-expose-headers'' (cf_expose f) (setAllowOrigin f ?o ctx)
     else setAllowOrigin f ?o ctx)" (is "_ = ?c")
    using arg_cong [OF assms(2), of "\<lambda>r. fst (snd r)"] assms(3) f(1)
    by (cases "?o = []"; cases "originAllowed f ?o"; cases ?pre) (auto simp: cors_Execute_def Let_def)
  show ?thesis
  proof (cases "?o \<noteq> [] \<and> originAllowed f ?o")
    case False
    then have get: "GetResponseHeader c q = GetResponseHeader ctx q" for q by (auto simp: c)
    from False have "?o \<noteq> [] \<and> ?pre \<longrightarrow> ctx_Blocked c" by (auto simp: c)
    with assms(4,5) show ?thesis by (simp add: Let_def get)
  next
    case True
    then have o: "cf_anyOrigin f \<or> origin_listed re cfg ?o" using originAllowed_iff [OF assms(1)] by blast
    from True have get: "GetResponseHeader c ''access-control-allow-origin'' = (if reflectsOrigin f then ?o else ''*'')"
      "GetResponseHeader c ''access-control-allow-credentials'' = (if co_AllowCredentials cfg then ''true'' else [])"
      using f(1) assms(5) by (simp_all add: c preflight_headers_keep setAllowOrigin_get downstream.get_put)
    from True have "?pre \<longrightarrow> ctx_Blocked c" by (simp add: c)
    with o f(1,2,4) show ?thesis by (simp add: Let_def get reflectsOrigin_def) blast
  qed
qed

definition ex_cors :: cors_Config where
  "ex_cors = \<lparr>co_AllowOrigins = [''https://App.example.com/''], co_AllowOriginRegex = [], co_AllowMethods = [],
     co_AllowHeaders = [''*''], co_ExposeHeaders = [], co_AllowCredentials = True, co_MaxAge = 600,
     co_BlockDisallowedOrigins = False\<rparr>"

definition ex_cors_request :: RequestContext where
  "ex_cors_request = new_context\<lparr>ctx_Method := ''OPTIONS'', ctx_Headers :=
     [''origin'' \<mapsto> ''https://app.example.com'', ''access-control-request-method'' \<mapsto> ''PUT'']\<rparr>"

theorem cors_grants_as_configured_witness:
  "\<exists>f. cors_NewFilter (\<lambda>_. None) ex_cors = Ok f \<and>
     (case cors_Execute f ex_cors_request (0::nat) of (err, c, w') \<Rightarrow> ctx_Blocked c)"
proof -
  have "is_ok (cors_NewFilter (\<lambda>_. None) ex_cors)" by code_simp
  then obtain f where f: "cors_NewFilter (\<lambda>_. None) ex_cors = Ok f" by (auto simp: is_ok_def split: sum.splits)
  obtain err c w' where ex: "cors_Execute f ex_cors_request (0::nat) = (err, c, w')"
    by (cases "cors_Execute f ex_cors_request (0::nat)")
  have req: "ctx_Phase ex_cors_request = PhaseRequestHeaders" "ctx_Method ex_cors_request = ''OPTIONS''"
    "GetHeader ex_cors_request ''origin'' \<noteq> []" "GetHeader ex_cors_request ''access-control-request-method'' \<noteq> []"
    "GetResponseHeader ex_cors_request ''access-control-allow-origin'' = []"
    "GetResponseHeader ex_cors_request ''access-control-allow-credentials'' = []"
    by (simp_all add: ex_cors_request_def new_context_def GetHeader_def GetResponseHeader_def containsKey_def get_or_empty_def)
  from cors_grants_as_configured [OF f ex req(1,5,6)] req f ex show ?thesis by (simp add: Let_def)
qed

end
