(* ===== verification/Digest.thy ===== *)
theory Digest
  imports HG_Prelude
begin

text \<open>
  The digests of Go's \<^verbatim>\<open>crypto/sha256\<close> and \<^verbatim>\<open>crypto/md5\<close> with \<^verbatim>\<open>hex.Encode\<close>, which the API key
  filter applies to a presented key, as executable functions on byte strings (FIPS 180-4 and
  RFC 1321). Words are 32 bits wide and addition wraps.
\<close>

unbundle bit_operations_syntax

definition byte_val :: "char \<Rightarrow> nat" where
  "byte_val c = of_char c"

definition hex_digit :: "nat \<Rightarrow> char" where
  "hex_digit n = (if n < 10 then digit_char n else char_of (87 + n))"

definition hex_byte :: "nat \<Rightarrow> string" where
  "hex_byte n = [hex_digit (n div 16), hex_digit (n mod 16)]"

text \<open>\<open>bytes_be k n\<close> and \<open>bytes_le k n\<close> are the \<open>k\<close> low bytes of \<open>n\<close>, the highest or the lowest first.\<close>

fun bytes_le :: "nat \<Rightarrow> nat \<Rightarrow> nat list" where
  "bytes_le 0 n = []"
| "bytes_le (Suc k) n = n mod 256 # bytes_le k (n div 256)"

definition bytes_be :: "nat \<Rightarrow> nat \<Rightarrow> nat list" where
  "bytes_be k n = rev (bytes_le k n)"

definition word_le :: "nat list \<Rightarrow> 32 word" where
  "word_le bs = of_nat (foldr (\<lambda>b n. b + 256 * n) bs 0)"

definition word_be :: "nat list \<Rightarrow> 32 word" where
  "word_be bs = word_le (rev bs)"

definition chunk :: "nat \<Rightarrow> 'a list \<Rightarrow> 'a list list" where
  "chunk k xs = map (\<lambda>i. take k (drop (i * k) xs)) [0 ..< length xs div k]"

text \<open>The padding: a one bit, zeros, and the length in bits in the last eight bytes of a block.\<close>

definition padded :: "(nat \<Rightarrow> nat list) \<Rightarrow> string \<Rightarrow> nat list" where
  "padded enc s =
     (let n = length s in
      map byte_val s @ [128] @ replicate ((119 - n mod 64) mod 64) 0 @ enc (8 * n))"

subsection \<open>SHA-256\<close>

text \<open>The constants of the standard: the first 32 bits of the fractional parts of the cube roots of the first 64 primes, and of the
  square roots of the first 8. \<open>root_bits\<close> finds the integer root bit by bit.\<close>

fun root_bits :: "nat \<Rightarrow> nat \<Rightarrow> nat \<Rightarrow> nat \<Rightarrow> nat" where
  "root_bits k m 0 r = r"
| "root_bits k m (Suc b) r = (let q = r + 2 ^ b in root_bits k m b (if q ^ k \<le> m then q else r))"

definition root_word :: "nat \<Rightarrow> nat \<Rightarrow> 32 word" where
  "root_word k p = word_of_nat (root_bits k (p * 2 ^ (32 * k)) 36 0)"

definition first_primes :: "nat list" where
  "first_primes =
    [2, 3, 5, 7, 11, 13, 17, 19, 23, 29, 31, 37, 41, 43, 47, 53,
     59, 61, 67, 71, 73, 79, 83, 89, 97, 101, 103, 107, 109, 113, 127, 131,
     137, 139, 149, 151, 157, 163, 167, 173, 179, 181, 191, 193, 197, 199, 211, 223,
     227, 229, 233, 239, 241, 251, 257, 263, 269, 271, 277, 281, 283, 293, 307, 311]"

definition sha256_k :: "32 word list" where
  "sha256_k = map (root_word 3) first_primes"

definition sha256_init :: "32 word list" where
  "sha256_init = map (root_word 2) (take 8 first_primes)"

definition small0 :: "32 word \<Rightarrow> 32 word" where
  "small0 x = word_rotr 7 x XOR word_rotr 18 x XOR drop_bit 3 x"

definition small1 :: "32 word \<Rightarrow> 32 word" where
  "small1 x = word_rotr 17 x XOR word_rotr 19 x XOR drop_bit 10 x"

definition big0 :: "32 word \<Rightarrow> 32 word" where
  "big0 x = word_rotr 2 x XOR word_rotr 13 x XOR word_rotr 22 x"

definition big1 :: "32 word \<Rightarrow> 32 word" where
  "big1 x = word_rotr 6 x XOR word_rotr 11 x XOR word_rotr 25 x"

definition next_word :: "32 word list \<Rightarrow> 32 word" where
  "next_word ws =
     (let n = length ws in small1 (ws ! (n - 2)) + ws ! (n - 7) + small0 (ws ! (n - 15)) + ws ! (n - 16))"

definition schedule :: "nat list \<Rightarrow> 32 word list" where
  "schedule block = ((\<lambda>ws. ws @ [next_word ws]) ^^ 48) (map word_be (chunk 4 block))"

fun sha256_round :: "32 word \<times> 32 word \<Rightarrow> 32 word list \<Rightarrow> 32 word list" where
  "sha256_round (k, w) [a, b, c, d, e, f, g, h] =
     (let t1 = h + big1 e + ((e AND f) XOR ((NOT e) AND g)) + k + w;
          t2 = big0 a + ((a AND b) XOR (a AND c) XOR (b AND c))
      in [t1 + t2, a, b, c, d + t1, e, f, g])"
| "sha256_round kw st = st"

definition sha256_block :: "nat list \<Rightarrow> 32 word list \<Rightarrow> 32 word list" where
  "sha256_block block st = map2 (+) st (fold sha256_round (zip sha256_k (schedule block)) st)"

definition sha256 :: "string \<Rightarrow> string" where
  "sha256 s =
     concat (map (\<lambda>w. concat (map hex_byte (bytes_be 4 (unat w))))
       (fold sha256_block (chunk 64 (padded (bytes_be 8) s)) sha256_init))"

subsection \<open>MD5\<close>

definition md5_k :: "32 word list" where
  "md5_k =
    [0xd76aa478, 0xe8c7b756, 0x242070db, 0xc1bdceee, 0xf57c0faf, 0x4787c62a, 0xa8304613, 0xfd469501,
     0x698098d8, 0x8b44f7af, 0xffff5bb1, 0x895cd7be, 0x6b901122, 0xfd987193, 0xa679438e, 0x49b40821,
     0xf61e2562, 0xc040b340, 0x265e5a51, 0xe9b6c7aa, 0xd62f105d, 0x02441453, 0xd8a1e681, 0xe7d3fbc8,
     0x21e1cde6, 0xc33707d6, 0xf4d50d87, 0x455a14ed, 0xa9e3e905, 0xfcefa3f8, 0x676f02d9, 0x8d2a4c8a,
     0xfffa3942, 0x8771f681, 0x6d9d6122, 0xfde5380c, 0xa4beea44, 0x4bdecfa9, 0xf6bb4b60, 0xbebfbc70,
     0x289b7ec6, 0xeaa127fa, 0xd4ef3085, 0x04881d05, 0xd9d4d039, 0xe6db99e5, 0x1fa27cf8, 0xc4ac5665,
     0xf4292244, 0x432aff97, 0xab9423a7, 0xfc93a039, 0x655b59c3, 0x8f0ccc92, 0xffeff47d, 0x85845dd1,
     0x6fa87e4f, 0xfe2ce6e0, 0xa3014314, 0x4e0811a1, 0xf7537e82, 0xbd3af235, 0x2ad7d2bb, 0xeb86d391]"

definition md5_shifts :: "nat list" where
  "md5_shifts = concat (map (\<lambda>r. concat (replicate 4 r)) [[7, 12, 17, 22], [5, 9, 14, 20], [4, 11, 16, 23], [6, 10, 15, 21]])"

definition md5_mix :: "nat \<Rightarrow> 32 word \<Rightarrow> 32 word \<Rightarrow> 32 word \<Rightarrow> 32 word \<times> nat" where
  "md5_mix i b c d =
     (if i < 16 then ((b AND c) OR ((NOT b) AND d), i)
      else if i < 32 then ((d AND b) OR ((NOT d) AND c), (5 * i + 1) mod 16)
      else if i < 48 then (b XOR c XOR d, (3 * i + 5) mod 16)
      else (c XOR (b OR (NOT d)), (7 * i) mod 16))"

fun md5_round :: "32 word list \<Rightarrow> nat \<Rightarrow> 32 word list \<Rightarrow> 32 word list" where
  "md5_round ws i [a, b, c, d] =
     (let (m, g) = md5_mix i b c d in
      [d, b + word_rotl (md5_shifts ! i) (m + a + md5_k ! i + ws ! g), b, c])"
| "md5_round ws i st = st"

definition md5_block :: "nat list \<Rightarrow> 32 word list \<Rightarrow> 32 word list" where
  "md5_block block st = map2 (+) st (fold (md5_round (map word_le (chunk 4 block))) [0 ..< 64] st)"

definition md5 :: "string \<Rightarrow> string" where
  "md5 s =
     concat (map (\<lambda>w. concat (map hex_byte (bytes_le 4 (unat w))))
       (fold md5_block (chunk 64 (padded (bytes_le 8) s)) [0x67452301, 0xefcdab89, 0x98badcfe, 0x10325476]))"

end
