(* ===== verification/API_Key.thy ===== *)
theory API_Key
  imports Chain_Executor Digest "HOL-Library.AList"
begin

text \<open>
  The API key filter: \<^verbatim>\<open>internal/filters/api_key/api_key.go\<close> and its configuration
  \<^verbatim>\<open>internal/config/filter_apikey.go\<close>. Redis, the in-process cache and the JSON path library are
  parameters, collected in a record of operations on the shared state; so is the order in which Go
  iterates over a map.
\<close>

subsection \<open>Configuration\<close>

record APIKeyStatusCheck =
  sc_Enabled :: bool
  sc_FieldName :: string
  sc_ExpectedValue :: string

record APIKeyOutputMapping =
  om_TargetHeader :: string
  om_RedisField :: string
  om_JSONPath :: string

record APIKeyFilterConfig =
  ak_KeyNames :: "string list"
  ak_KeyInHeader :: bool
  ak_KeyInQuery :: bool
  ak_HideCredentials :: bool
  ak_RedisService :: string
  ak_RedisKeyPrefix :: string
  ak_HashAlgorithm :: string
  ak_ValueFormat :: string
  ak_Delimiter :: string
  ak_StatusCheck :: APIKeyStatusCheck
  ak_OutputMappings :: "APIKeyOutputMapping list"

datatype key_config_error =
    BadValueFormat string
  | StatusCheckPlain
  | StatusFieldMissing
  | BadHashAlgorithm string

definition key_defaults :: "APIKeyFilterConfig \<Rightarrow> APIKeyFilterConfig" where
  "key_defaults cfg0 =
     (let cfg1 = (if ak_HashAlgorithm cfg0 = [] then cfg0\<lparr>ak_HashAlgorithm := ''sha256''\<rparr> else cfg0);
          cfg2 = (if ak_RedisKeyPrefix cfg1 = [] then cfg1\<lparr>ak_RedisKeyPrefix := ''apikey:''\<rparr> else cfg1);
          cfg3 = (if ak_ValueFormat cfg2 = [] then cfg2\<lparr>ak_ValueFormat := ''hash''\<rparr> else cfg2);
          cfg4 = (if ak_Delimiter cfg3 = [] \<and> ak_ValueFormat cfg3 = ''plain'' then cfg3\<lparr>ak_Delimiter := ''|''\<rparr> else cfg3);
          cfg5 = (if ak_KeyNames cfg4 = [] then cfg4\<lparr>ak_KeyNames := [''x-api-key'']\<rparr> else cfg4)
      in if \<not> ak_KeyInHeader cfg5 \<and> \<not> ak_KeyInQuery cfg5 then cfg5\<lparr>ak_KeyInHeader := True\<rparr> else cfg5)"

definition apikey_ApplyDefaults :: "APIKeyFilterConfig \<Rightarrow> (key_config_error, APIKeyFilterConfig) result" where
  "apikey_ApplyDefaults cfg0 =
     (let cfg = key_defaults cfg0 in
      if ak_ValueFormat cfg \<notin> {''plain'', ''hash'', ''json''} then Err (BadValueFormat (ak_ValueFormat cfg))
      else if sc_Enabled (ak_StatusCheck cfg) \<and> ak_ValueFormat cfg = ''plain'' then Err StatusCheckPlain
      else if sc_Enabled (ak_StatusCheck cfg) \<and> sc_FieldName (ak_StatusCheck cfg) = [] then Err StatusFieldMissing
      else if ak_HashAlgorithm cfg \<notin> {''sha256'', ''md5'', ''none''} then Err (BadHashAlgorithm (ak_HashAlgorithm cfg))
      else Ok cfg)"

subsection \<open>Query strings\<close>

text \<open>The parts of a query as both loops over it visit them: up to the next ampersand, until the rest is empty.\<close>

function query_parts :: "string \<Rightarrow> string list" where
  "query_parts query =
     (if query = [] then []
      else (case cut CHR ''&'' query of
              Some (part, rest) \<Rightarrow> part # query_parts rest
            | None \<Rightarrow> [query]))"
  by auto
termination
  by (relation "measure length") (auto dest!: cut_Some)

declare query_parts.simps [simp del]

definition param_key :: "string \<Rightarrow> string" where
  "param_key part = (case cut CHR ''='' part of Some (k, v) \<Rightarrow> k | None \<Rightarrow> part)"

fun find_param :: "string list \<Rightarrow> string \<Rightarrow> string" where
  "find_param [] name = []"
| "find_param (part # parts) name =
     (case cut CHR ''='' part of
        Some (k, v) \<Rightarrow> if k = name then v else find_param parts name
      | None \<Rightarrow> if part = name then [] else find_param parts name)"

definition extractQueryParam :: "string \<Rightarrow> string \<Rightarrow> string" where
  "extractQueryParam path name =
     (case cut CHR ''?'' path of None \<Rightarrow> [] | Some (base, query) \<Rightarrow> find_param (query_parts query) name)"

definition stripQueryParam :: "string \<Rightarrow> string \<Rightarrow> string" where
  "stripQueryParam path name =
     (case cut CHR ''?'' path of
        None \<Rightarrow> path
      | Some (base, query) \<Rightarrow>
          (let newQueryParts = filter (\<lambda>part. param_key part \<noteq> name) (query_parts query) in
           if newQueryParts = [] then base else base @ ''?'' @ join ''&'' newQueryParts))"

subsection \<open>Splitting at a delimiter\<close>

fun cut_str :: "string \<Rightarrow> string \<Rightarrow> (string \<times> string) option" where
  "cut_str sep [] = None"
| "cut_str sep (x # xs) =
     (if has_prefix (x # xs) sep then Some ([], drop (length sep) (x # xs))
      else (case cut_str sep xs of None \<Rightarrow> None | Some (a, b) \<Rightarrow> Some (x # a, b)))"

lemma cut_str_length: "cut_str sep s = Some (a, b) \<Longrightarrow> sep \<noteq> [] \<Longrightarrow> length b < length s"
  by (induction s arbitrary: a b) (auto split: if_splits option.splits)

function split_str :: "string \<Rightarrow> string \<Rightarrow> string list" where
  "split_str sep s =
     (if sep = [] then map (\<lambda>c. [c]) s
      else (case cut_str sep s of None \<Rightarrow> [s] | Some (a, b) \<Rightarrow> a # split_str sep b))"
  by auto
termination
  by (relation "measure (\<lambda>(sep, s). length s)") (auto dest: cut_str_length)

declare split_str.simps [simp del]

subsection \<open>The filter\<close>

record 'w key_ops =
  ko_GET :: "string \<Rightarrow> 'w \<Rightarrow> (string, string) result \<times> 'w"
  ko_EXISTS :: "string \<Rightarrow> 'w \<Rightarrow> (string, int) result \<times> 'w"
  ko_HMGET :: "string \<Rightarrow> string list \<Rightarrow> 'w \<Rightarrow> (string, string list) result \<times> 'w"
  ko_gjson :: "string \<Rightarrow> string \<Rightarrow> string option"
  ko_cached :: "string \<Rightarrow> 'w \<Rightarrow> string option"
  ko_cacheSet :: "string \<Rightarrow> string \<Rightarrow> int \<Rightarrow> 'w \<Rightarrow> 'w"
  ko_range :: "nat \<Rightarrow> 'w \<Rightarrow> (string \<times> string) list \<Rightarrow> (string \<times> string) list"

fun find_key :: "APIKeyFilterConfig \<Rightarrow> RequestContext \<Rightarrow> string list \<Rightarrow> string \<times> string" where
  "find_key cfg ctx [] = ([], [])"
| "find_key cfg ctx (name # names) =
     (let h = (if ak_KeyInHeader cfg then GetHeader ctx (to_lower name) else []);
          q = (if ak_KeyInQuery cfg then extractQueryParam (ctx_Path ctx) name else []) in
      if h \<noteq> [] then (h, name) else if q \<noteq> [] then (q, name) else find_key cfg ctx names)"

definition hash_key :: "APIKeyFilterConfig \<Rightarrow> string \<Rightarrow> string" where
  "hash_key cfg apiKey =
     (if ak_HashAlgorithm cfg = ''sha256'' then sha256 apiKey
      else if ak_HashAlgorithm cfg = ''md5'' then md5 apiKey
      else if ak_HashAlgorithm cfg = ''none'' \<or> ak_HashAlgorithm cfg = [] then apiKey
      else [])"

definition redis_key :: "APIKeyFilterConfig \<Rightarrow> string \<Rightarrow> string" where
  "redis_key cfg apiKey = ak_RedisKeyPrefix cfg @ hash_key cfg apiKey"

definition newline :: char where
  "newline = CHR 0x0A"

definition cacheBlock :: "'w key_ops \<Rightarrow> string \<Rightarrow> string \<Rightarrow> 'w \<Rightarrow> 'w" where
  "cacheBlock ops key reason w = ko_cacheSet ops key (CHR 0x00 # reason) 10 w"

definition stripCredentials :: "APIKeyFilterConfig \<Rightarrow> string \<Rightarrow> RequestContext \<Rightarrow> RequestContext" where
  "stripCredentials cfg keyName ctx =
     (if ak_HideCredentials cfg \<and> keyName \<noteq> [] then
        (let c1 = (if ak_KeyInHeader cfg then RemoveHeaderUpstream keyName ctx else ctx) in
         if ak_KeyInQuery cfg then
           (let stripped = stripQueryParam (ctx_Path c1) keyName in if stripped \<noteq> ctx_Path c1 then SetPath stripped c1 else c1)
         else c1)
      else ctx)"

text \<open>The headers of a valid key as one cache entry, and reading them back.\<close>

definition encode_headers :: "(string \<times> string) list \<Rightarrow> string" where
  "encode_headers hv = concat (map (\<lambda>(k, v). k @ ''='' @ v @ [newline]) hv)"

definition set_headers :: "(string \<times> string) list \<Rightarrow> RequestContext \<Rightarrow> RequestContext" where
  "set_headers hv ctx = fold (\<lambda>(k, v). SetHeaderUpstream k v) hv ctx"

definition set_line :: "string \<Rightarrow> RequestContext \<Rightarrow> RequestContext" where
  "set_line line ctx =
     (if line = [] then ctx
      else (case cut CHR ''='' line of None \<Rightarrow> ctx | Some (k, v) \<Rightarrow> SetHeaderUpstream k v ctx))"

definition contains_forbidden :: "string \<Rightarrow> bool" where
  "contains_forbidden s = list_ex (\<lambda>i. has_prefix (drop i s) ''Forbidden'') [0 ..< Suc (length s)]"

definition is_block_marker :: "string \<Rightarrow> bool" where
  "is_block_marker v \<longleftrightarrow> v \<noteq> [] \<and> hd v = CHR 0x00"

definition cached_answer :: "APIKeyFilterConfig \<Rightarrow> string \<Rightarrow> string \<Rightarrow> RequestContext \<Rightarrow> RequestContext" where
  "cached_answer cfg keyName v ctx =
     (if is_block_marker v then Block (if contains_forbidden (tl v) then 403 else 401) (tl v) ctx
      else stripCredentials cfg keyName (fold set_line (split_on newline v) ctx))"

text \<open>What Redis says about a key.\<close>

datatype key_lookup =
    KeyError string
  | KeyInvalid
  | KeyFound "(string \<times> string) list" string

definition header_values :: "APIKeyOutputMapping list \<Rightarrow> string list \<Rightarrow> (string \<times> string) list" where
  "header_values ms vs = fold (\<lambda>(m, v). AList.update (om_TargetHeader m) v) (zip ms vs) []"

definition lookup_plain :: "'w key_ops \<Rightarrow> APIKeyFilterConfig \<Rightarrow> string \<Rightarrow> 'w \<Rightarrow> key_lookup \<times> 'w" where
  "lookup_plain ops cfg key w =
     (case ko_GET ops key w of
        (Err e, w1) \<Rightarrow> (KeyError e, w1)
      | (Ok reply, w1) \<Rightarrow>
          if reply = [] then (KeyInvalid, w1)
          else
            (let delimiter = (if ak_Delimiter cfg = [] then ''|'' else ak_Delimiter cfg)
             in (KeyFound (header_values (ak_OutputMappings cfg) (split_str delimiter reply)) [], w1)))"

definition lookup_hash :: "'w key_ops \<Rightarrow> APIKeyFilterConfig \<Rightarrow> string \<Rightarrow> 'w \<Rightarrow> key_lookup \<times> 'w" where
  "lookup_hash ops cfg key w =
     (let ms = ak_OutputMappings cfg; sc = ak_StatusCheck cfg;
          fs = map om_RedisField ms @ (if sc_Enabled sc then [sc_FieldName sc] else []) in
      if fs = [] then
        (case ko_EXISTS ops key w of
           (Err e, w1) \<Rightarrow> (KeyError e, w1)
         | (Ok n, w1) \<Rightarrow> (if n = 0 then KeyInvalid else KeyFound [] [], w1))
      else
        (case ko_HMGET ops key fs w of
           (Err e, w1) \<Rightarrow> (KeyError e, w1)
         | (Ok reply, w1) \<Rightarrow>
             if list_all (\<lambda>v. v = []) reply then (KeyInvalid, w1)
             else
               (KeyFound (header_values ms reply)
                  (if sc_Enabled sc \<and> length ms < length reply then reply ! length ms else []), w1)))"

definition lookup_json :: "'w key_ops \<Rightarrow> APIKeyFilterConfig \<Rightarrow> string \<Rightarrow> 'w \<Rightarrow> key_lookup \<times> 'w" where
  "lookup_json ops cfg key w =
     (case ko_GET ops key w of
        (Err e, w1) \<Rightarrow> (KeyError e, w1)
      | (Ok reply, w1) \<Rightarrow>
          if reply = [] then (KeyInvalid, w1)
          else
            (let sc = ak_StatusCheck cfg;
                 hv = fold (\<lambda>m hs. case ko_gjson ops reply (om_JSONPath m) of
                                      Some v \<Rightarrow> AList.update (om_TargetHeader m) v hs | None \<Rightarrow> hs)
                        (ak_OutputMappings cfg) [];
                 status = (if sc_Enabled sc
                           then (case ko_gjson ops reply (sc_FieldName sc) of Some v \<Rightarrow> v | None \<Rightarrow> [])
                           else [])
             in (KeyFound hv status, w1)))"

definition lookup_key :: "'w key_ops \<Rightarrow> APIKeyFilterConfig \<Rightarrow> string \<Rightarrow> 'w \<Rightarrow> key_lookup \<times> 'w" where
  "lookup_key ops cfg key w =
     (if ak_ValueFormat cfg = ''plain'' then lookup_plain ops cfg key w
      else if ak_ValueFormat cfg = ''hash'' then lookup_hash ops cfg key w
      else if ak_ValueFormat cfg = ''json'' then lookup_json ops cfg key w
      else (KeyFound [] [], w))"

definition status_ok :: "APIKeyFilterConfig \<Rightarrow> string \<Rightarrow> bool" where
  "status_ok cfg status \<longleftrightarrow>
     sc_Enabled (ak_StatusCheck cfg) \<longrightarrow> status = sc_ExpectedValue (ak_StatusCheck cfg)"

definition apikey_Execute ::
  "'w key_ops \<Rightarrow> APIKeyFilterConfig \<Rightarrow> RequestContext \<Rightarrow> 'w \<Rightarrow> string option \<times> RequestContext \<times> 'w" where
  "apikey_Execute ops cfg ctx w =
     (let (apiKey, keyName) = find_key cfg ctx (ak_KeyNames cfg) in
      if apiKey = [] then (None, Block 401 ''Unauthorized: Missing API Key'' ctx, w)
      else
        (let key = redis_key cfg apiKey in
         case ko_cached ops key w of
           Some v \<Rightarrow> (None, cached_answer cfg keyName v ctx, w)
         | None \<Rightarrow>
             (case lookup_key ops cfg key w of
                (KeyError e, w1) \<Rightarrow>
                  (Some (''redis connection error: '' @ e), ctx\<lparr>ctx_Blocked := True, ctx_ResponseStatus := 500\<rparr>, w1)
              | (KeyInvalid, w1) \<Rightarrow>
                  (None, Block 401 ''Unauthorized: Invalid API Key'' ctx, cacheBlock ops key ''Unauthorized: Invalid API Key'' w1)
              | (KeyFound hv status, w1) \<Rightarrow>
                  if \<not> status_ok cfg status then
                    (let reason = ''Forbidden: Account is '' @ status
                     in (None, Block 403 reason ctx, cacheBlock ops key reason w1))
                  else
                    (None, stripCredentials cfg keyName (set_headers (ko_range ops 0 w1 hv) ctx),
                     ko_cacheSet ops key (encode_headers (ko_range ops 1 w1 hv)) 30 w1))))"

definition apikey_base :: "'w key_ops \<Rightarrow> APIKeyFilterConfig \<Rightarrow> 'w base_filter" where
  "apikey_base ops cfg = \<lparr>bf_phases = None, bf_exec = apikey_Execute ops cfg\<rparr>"

subsection \<open>Query strings\<close>

lemma query_parts_split:
  "query_parts q = (if last (split_on CHR ''&'' q) = [] then butlast (split_on CHR ''&'' q) else split_on CHR ''&'' q)"
proof (induction q rule: query_parts.induct)
  case (1 q)
  show ?case
  proof (cases "cut CHR ''&'' q")
    case None
    then have "CHR ''&'' \<notin> set q" by simp
    then have "split_on CHR ''&'' q = [q]" by (rule split_on_single)
    with None show ?thesis by (subst query_parts.simps) simp
  next
    case (Some pr)
    obtain part rest where pr: "pr = (part, rest)" by (cases pr)
    with cut_Some Some have q: "q = part @ CHR ''&'' # rest" "CHR ''&'' \<notin> set part" by blast+
    then have "split_on CHR ''&'' q = part # split_on CHR ''&'' rest"
      by (simp add: split_on_append split_on_single)
    with 1 [OF _ Some pr [symmetric]] Some pr q(1) show ?thesis by (subst query_parts.simps) simp
  qed
qed

lemma query_parts_no_amp: "part \<in> set (query_parts q) \<Longrightarrow> CHR ''&'' \<notin> set part"
  by (auto simp: query_parts_split dest: in_set_butlastD split_on_parts split: if_splits)

lemma find_param_Nil_last: "find_param (parts @ [[]]) name = find_param parts name"
  by (induction parts) (auto split: option.split)

lemma find_param_query_parts: "find_param (query_parts q) name = find_param (split_on CHR ''&'' q) name"
proof (cases "last (split_on CHR ''&'' q) = []")
  case True
  then have "split_on CHR ''&'' q = butlast (split_on CHR ''&'' q) @ [[]]"
    by (metis append_butlast_last_id split_on_not_Nil)
  with True find_param_Nil_last show ?thesis by (metis query_parts_split)
qed (simp add: query_parts_split)

lemma find_param_filter:
  "find_param (filter (\<lambda>part. param_key part \<noteq> k) parts) name = (if name = k then [] else find_param parts name)"
proof (induction parts)
  case (Cons p ps)
  show ?case
  proof (cases "cut CHR ''='' p")
    case None
    then have "param_key p = p" by (simp add: param_key_def del: cut_None)
    with None Cons show ?thesis by (auto simp del: cut_None split: if_splits)
  next
    case (Some kv)
    then have "param_key p = fst kv" by (simp add: param_key_def split_beta)
    with Some Cons show ?thesis by (auto simp: split_beta split: if_splits)
  qed
qed simp

lemma extract_strip:
  "extractQueryParam (stripQueryParam path k) name = (if name = k then [] else extractQueryParam path name)"
proof (cases "cut CHR ''?'' path")
  case None
  then show ?thesis by (simp add: extractQueryParam_def stripQueryParam_def)
next
  case (Some pr)
  obtain base query where pr: "pr = (base, query)" by (cases pr)
  with Some have base: "CHR ''?'' \<notin> set base" using cut_Some by fastforce
  let ?new = "filter (\<lambda>part. param_key part \<noteq> k) (query_parts query)"
  have new: "find_param ?new name = (if name = k then [] else extractQueryParam path name)"
    using Some pr by (simp add: find_param_filter extractQueryParam_def)
  show ?thesis
  proof (cases "?new = []")
    case True
    with new Some pr base show ?thesis by (simp add: extractQueryParam_def stripQueryParam_def)
  next
    case False
    have "split_on CHR ''&'' (join [CHR ''&''] ?new) = ?new"
      by (rule split_on_join) (use False query_parts_no_amp in auto)
    then have "find_param (query_parts (join [CHR ''&''] ?new)) name = find_param ?new name"
      by (simp add: find_param_query_parts)
    with False new Some pr base show ?thesis by (simp add: extractQueryParam_def stripQueryParam_def Let_def)
  qed
qed

subsection \<open>What passes\<close>

lemma Path_edits [simp]:
  "ctx_Path (SetHeaderUpstream k v c) = ctx_Path c" "ctx_Path (RemoveHeaderUpstream k c) = ctx_Path c"
  "ctx_Path (SetPath p c) = p"
  by (simp_all add: SetHeaderUpstream_def RemoveHeaderUpstream_def SetPath_def Let_def)

lemma Path_set_line [simp]: "ctx_Path (set_line l c) = ctx_Path c"
  by (simp add: set_line_def split: option.split)

lemma Path_folds [simp]:
  "ctx_Path (set_headers hv c) = ctx_Path c" "ctx_Path (fold set_line ls c) = ctx_Path c"
proof -
  show "ctx_Path (set_headers hv c) = ctx_Path c"
    unfolding set_headers_def by (induction hv arbitrary: c) auto
  show "ctx_Path (fold set_line ls c) = ctx_Path c"
    by (induction ls arbitrary: c) auto
qed

lemma lawful_set_line: "lawful_change c d \<Longrightarrow> lawful_change c (set_line l d)"
  by (auto simp: set_line_def split: option.split)

lemma lawful_set_headers: "lawful_change c d \<Longrightarrow> lawful_change c (set_headers hv d)"
  unfolding set_headers_def by (rule lawful_change_fold) auto

lemma lawful_stripCredentials: "lawful_change c d \<Longrightarrow> lawful_change c (stripCredentials cfg nm d)"
  by (auto simp: stripCredentials_def Let_def)

lemma lawful_cached_answer: "lawful_change c (cached_answer cfg nm v c)"
  unfolding cached_answer_def
  by (auto intro!: lawful_stripCredentials lawful_change_fold lawful_set_line)

lemma apikey_Execute_cases:
  assumes "apikey_Execute ops cfg ctx w = (err, c, w')"
  obtains (blocked) "ctx_Blocked c" "lawful_change ctx c"
  | (cached) key nm v where "find_key cfg ctx (ak_KeyNames cfg) = (key, nm)" "key \<noteq> []"
      "ko_cached ops (redis_key cfg key) w = Some v" "\<not> is_block_marker v" "err = None" "w' = w"
      "c = stripCredentials cfg nm (fold set_line (split_on newline v) ctx)"
  | (found) key nm hv status w1 where "find_key cfg ctx (ak_KeyNames cfg) = (key, nm)" "key \<noteq> []"
      "ko_cached ops (redis_key cfg key) w = None"
      "lookup_key ops cfg (redis_key cfg key) w = (KeyFound hv status, w1)" "status_ok cfg status" "err = None"
      "c = stripCredentials cfg nm (set_headers (ko_range ops 0 w1 hv) ctx)"
      "w' = ko_cacheSet ops (redis_key cfg key) (encode_headers (ko_range ops 1 w1 hv)) 30 w1"
proof -
  obtain key nm where k: "find_key cfg ctx (ak_KeyNames cfg) = (key, nm)" by fastforce
  have blk: "lawful_change ctx (Block st b ctx)" for st b by auto
  have err: "lawful_change ctx (ctx\<lparr>ctx_Blocked := True, ctx_ResponseStatus := 500\<rparr>)"
    by (simp add: lawful_change_def keeps_bookkeeping_def context_wf_def)
  note ex = assms [unfolded apikey_Execute_def k prod.case Let_def]
  show ?thesis
  proof (cases "key = []")
    case True
    with ex blk blocked show ?thesis by (auto simp: Block_def)
  next
    case False
    show ?thesis
    proof (cases "ko_cached ops (redis_key cfg key) w")
      case (Some v)
      show ?thesis
      proof (cases "is_block_marker v")
        case True
        with ex False Some blk blocked show ?thesis by (auto simp: cached_answer_def Block_def)
      next
        case live: False
        with ex False Some cached [OF k False Some] show ?thesis by (auto simp: cached_answer_def)
      qed
    next
      case None
      obtain res w1 where look: "lookup_key ops cfg (redis_key cfg key) w = (res, w1)" by fastforce
      show ?thesis
      proof (cases res)
        case (KeyError e)
        with ex False None look err blocked show ?thesis by auto
      next
        case KeyInvalid
        with ex False None look blk blocked show ?thesis by (auto simp: Block_def)
      next
        case (KeyFound hv status)
        show ?thesis
        proof (cases "status_ok cfg status")
          case True
          with ex False None look KeyFound found [OF k False None] show ?thesis by auto
        next
          case bad: False
          with ex False None look KeyFound blk blocked show ?thesis by (auto simp: Block_def)
        qed
      qed
    qed
  qed
qed

lemma apikey_lawful: "lawful_exec (bf_exec (apikey_base ops cfg))"
proof (rule lawful_exec_change)
  fix ctx w err c w'
  assume "bf_exec (apikey_base ops cfg) ctx w = (err, c, w')"
  then have "apikey_Execute ops cfg ctx w = (err, c, w')" by (simp add: apikey_base_def)
  then show "lawful_change ctx c"
    by (cases rule: apikey_Execute_cases)
       (auto intro!: lawful_stripCredentials lawful_set_headers lawful_change_fold lawful_set_line)
qed

subsection \<open>Only confirmed keys pass\<close>

text \<open>
  What the filter relies on: the cache may lose entries at any time but never makes one up, and
  Redis commands do not write it.
\<close>

definition cache_keeps :: "'w key_ops \<Rightarrow> 'w \<Rightarrow> 'w \<Rightarrow> bool" where
  "cache_keeps ops w w' \<longleftrightarrow> (\<forall>k v. ko_cached ops k w' = Some v \<longrightarrow> ko_cached ops k w = Some v)"

definition cache_law :: "'w key_ops \<Rightarrow> bool" where
  "cache_law ops \<longleftrightarrow>
     (\<forall>key v ttl w k u. ko_cached ops k (ko_cacheSet ops key v ttl w) = Some u \<longrightarrow>
        ko_cached ops k w = Some u \<or> k = key \<and> u = v) \<and>
     (\<forall>key w. cache_keeps ops w (snd (ko_GET ops key w))) \<and>
     (\<forall>key w. cache_keeps ops w (snd (ko_EXISTS ops key w))) \<and>
     (\<forall>key fs w. cache_keeps ops w (snd (ko_HMGET ops key fs w)))"

text \<open>The Redis keys that a request confirms: Redis has a record for the presented key, with the
  expected status if one is configured.\<close>

definition confirmed :: "'w key_ops \<Rightarrow> APIKeyFilterConfig \<Rightarrow> RequestContext \<Rightarrow> 'w \<Rightarrow> string set" where
  "confirmed ops cfg ctx w =
     (let key = redis_key cfg (fst (find_key cfg ctx (ak_KeyNames cfg))) in
      case fst (lookup_key ops cfg key w) of KeyFound hv status \<Rightarrow> if status_ok cfg status then {key} else {} | _ \<Rightarrow> {})"

text \<open>A run of the filter: requests, with anything happening in Redis and entries lost from the cache
  in between. The set collects what the requests confirmed.\<close>

inductive key_run :: "'w key_ops \<Rightarrow> APIKeyFilterConfig \<Rightarrow> 'w \<Rightarrow> string set \<Rightarrow> bool" for ops cfg where
  key_start: "(\<And>k. ko_cached ops k w = None) \<Longrightarrow> key_run ops cfg w {}"
| key_idle: "key_run ops cfg w S \<Longrightarrow> cache_keeps ops w w' \<Longrightarrow> key_run ops cfg w' S"
| key_request: "key_run ops cfg w S \<Longrightarrow> apikey_Execute ops cfg ctx w = (err, c, w') \<Longrightarrow>
    key_run ops cfg w' (S \<union> confirmed ops cfg ctx w)"

lemma cache_keeps_refl [simp]: "cache_keeps ops w w"
  by (simp add: cache_keeps_def)

lemma lookup_key_keeps:
  assumes "cache_law ops" "lookup_key ops cfg key w = (r, w1)"
  shows "cache_keeps ops w w1"
proof -
  have law: "ko_GET ops key w = (a, w2) \<Longrightarrow> cache_keeps ops w w2" "ko_EXISTS ops key w = (b, w2) \<Longrightarrow> cache_keeps ops w w2"
    "ko_HMGET ops key fs w = (d, w2) \<Longrightarrow> cache_keeps ops w w2" for a b d w2 fs
    using assms(1) unfolding cache_law_def by (metis snd_conv)+
  show ?thesis
    using assms(2) law
    by (auto simp: lookup_key_def lookup_plain_def lookup_hash_def lookup_json_def Let_def
        split: if_splits prod.splits sum.splits)
qed

lemma cacheSet_law:
  "cache_law ops \<Longrightarrow> ko_cached ops k (ko_cacheSet ops key v ttl w) = Some u \<Longrightarrow>
   ko_cached ops k w = Some u \<or> k = key \<and> u = v"
  unfolding cache_law_def by blast

lemma key_run_confirmed:
  assumes "cache_law ops" "key_run ops cfg w S"
  shows "ko_cached ops k w = Some v \<Longrightarrow> \<not> is_block_marker v \<Longrightarrow> k \<in> S"
  using assms(2)
proof (induction arbitrary: k v)
  case (key_start w)
  then show ?case by simp
next
  case (key_idle w S w')
  then show ?case by (auto simp: cache_keeps_def)
next
  case (key_request w S ctx err c w')
  obtain key nm where k: "find_key cfg ctx (ak_KeyNames cfg) = (key, nm)" by fastforce
  let ?key = "redis_key cfg key"
  obtain r w1 where look: "lookup_key ops cfg ?key w = (r, w1)" by fastforce
  have marker: "is_block_marker (CHR 0x00 # reason)" for reason by (simp add: is_block_marker_def)
  consider (same) "w' = w" | (err) "w' = w1"
    | (block) reason where "w' = cacheBlock ops ?key reason w1"
    | (set) hv status u where "r = KeyFound hv status" "status_ok cfg status" "w' = ko_cacheSet ops ?key u 30 w1"
    using key_request.hyps(2) k look
    by (auto simp: apikey_Execute_def Let_def split: if_splits option.splits key_lookup.splits)
  then have "ko_cached ops k w = Some v \<or> k \<in> confirmed ops cfg ctx w"
  proof cases
    case same
    with key_request.prems show ?thesis by simp
  next
    case err
    with key_request.prems lookup_key_keeps [OF assms(1) look] show ?thesis by (simp add: cache_keeps_def)
  next
    case block
    with key_request.prems cacheSet_law [OF assms(1)] have "ko_cached ops k w1 = Some v"
      unfolding cacheBlock_def using marker by blast
    with lookup_key_keeps [OF assms(1) look] show ?thesis by (simp add: cache_keeps_def)
  next
    case set
    then have "confirmed ops cfg ctx w = {?key}" by (simp add: confirmed_def k look Let_def)
    moreover have "ko_cached ops k w1 = Some v \<or> k = ?key"
      using set(3) key_request.prems(1) cacheSet_law [OF assms(1)] by blast
    ultimately show ?thesis using lookup_key_keeps [OF assms(1) look] by (auto simp: cache_keeps_def)
  qed
  with key_request.IH key_request.prems(2) show ?case by blast
qed


text \<open>A store with hashes and a cache that keeps everything, to run the filter on.\<close>

type_synonym key_store = "(string \<times> (string \<times> string) list) list \<times> (string \<times> string) list"

definition store_HMGET :: "string \<Rightarrow> string list \<Rightarrow> key_store \<Rightarrow> (string, string list) result \<times> key_store" where
  "store_HMGET key fs w =
     (Ok (map (\<lambda>f. case map_of (fst w) key of None \<Rightarrow> [] | Some h \<Rightarrow> (case map_of h f of None \<Rightarrow> [] | Some v \<Rightarrow> v)) fs), w)"

definition ex_key_ops :: "key_store key_ops" where
  "ex_key_ops =
     \<lparr>ko_GET = (\<lambda>key w. (Err ''WRONGTYPE'', w)),
      ko_EXISTS = (\<lambda>key w. (Ok (if map_of (fst w) key = None then 0 else 1), w)),
      ko_HMGET = store_HMGET, ko_gjson = (\<lambda>doc path. None),
      ko_cached = (\<lambda>key w. map_of (snd w) key), ko_cacheSet = (\<lambda>key v ttl w. (fst w, (key, v) # snd w)),
      ko_range = (\<lambda>i w hv. hv)\<rparr>"

definition ex_key_config :: APIKeyFilterConfig where
  "ex_key_config =
     \<lparr>ak_KeyNames = [''X-Api-Key'', ''key''], ak_KeyInHeader = True, ak_KeyInQuery = True, ak_HideCredentials = True,
      ak_RedisService = ''main'', ak_RedisKeyPrefix = ''k:'', ak_HashAlgorithm = ''none'', ak_ValueFormat = ''hash'',
      ak_Delimiter = [], ak_StatusCheck = \<lparr>sc_Enabled = True, sc_FieldName = ''status'', sc_ExpectedValue = ''on''\<rparr>,
      ak_OutputMappings = [\<lparr>om_TargetHeader = ''X-User'', om_RedisField = ''user'', om_JSONPath = []\<rparr>]\<rparr>"

definition ex_key_store :: key_store where
  "ex_key_store = ([(''k:s3'', [(''user'', ''ann''), (''status'', ''on'')])], [])"

definition ex_key_request :: RequestContext where
  "ex_key_request = new_context\<lparr>ctx_Path := ''/a?x=1&key=s3&y=2''\<rparr>"

lemma ex_key_law: "cache_law ex_key_ops"
  by (auto simp: cache_law_def cache_keeps_def ex_key_ops_def store_HMGET_def split: if_splits)

lemma ex_key_passes:
  "\<not> ctx_Blocked (fst (snd (apikey_Execute ex_key_ops ex_key_config ex_key_request ex_key_store)))"
  "confirmed ex_key_ops ex_key_config ex_key_request ex_key_store = {''k:s3''}"
  "find_key ex_key_config ex_key_request (ak_KeyNames ex_key_config) = (''s3'', ''key'')"
  by code_simp+


subsection \<open>Credentials are hidden\<close>

lemma GetHeader_SetPath:
  "to_lower q = q \<Longrightarrow> GetHeader (SetPath p c) q = (if q = '':path'' then p else GetHeader c q)"
proof -
  assume "to_lower q = q"
  moreover have "to_lower '':path'' = '':path''" by code_simp
  moreover have "GetHeader (c\<lparr>ctx_Path := p\<rparr>) q = GetHeader c q"
    by (simp add: GetHeader_def split: option.split)
  ultimately show ?thesis by (simp add: SetPath_def upstream.get_put)
qed

lemma stripCredentials_effect:
  assumes "ak_HideCredentials cfg" "nm \<noteq> []" "to_lower nm \<noteq> '':path''"
  shows "(ak_KeyInHeader cfg \<longrightarrow> GetHeader (stripCredentials cfg nm c) (to_lower nm) = []) \<and>
    (ak_KeyInQuery cfg \<longrightarrow> ctx_Path (stripCredentials cfg nm c) = stripQueryParam (ctx_Path c) nm \<and>
       (ctx_Path (stripCredentials cfg nm c) \<noteq> ctx_Path c \<longrightarrow>
          GetHeader (stripCredentials cfg nm c) '':path'' = ctx_Path (stripCredentials cfg nm c)))"
proof -
  have "to_lower '':path'' = '':path''" by code_simp
  with assms show ?thesis
    by (auto simp: stripCredentials_def Let_def GetHeader_SetPath upstream.get_del)
qed

text \<open>a hidden credential does not reach the upstream. If the filter lets a request continue and
  hides credentials, the header that carried the key is gone, the query has no parameter of that
  name any more while every other parameter reads as before, and a changed path is what is sent.\<close>

theorem hidden_credentials_not_forwarded:
  assumes "apikey_Execute ops cfg ctx w = (err, c, w')" "\<not> ctx_Blocked c" "ak_HideCredentials cfg"
    "find_key cfg ctx (ak_KeyNames cfg) = (key, nm)" "nm \<noteq> []" "to_lower nm \<noteq> '':path''"
  shows "(ak_KeyInHeader cfg \<longrightarrow> GetHeader c (to_lower nm) = []) \<and>
    (ak_KeyInQuery cfg \<longrightarrow>
       (\<forall>n. extractQueryParam (ctx_Path c) n = (if n = nm then [] else extractQueryParam (ctx_Path ctx) n)) \<and>
       (ctx_Path c \<noteq> ctx_Path ctx \<longrightarrow> GetHeader c '':path'' = ctx_Path c))"
proof -
  obtain d where "c = stripCredentials cfg nm d" "ctx_Path d = ctx_Path ctx"
    using assms(1)
  proof (cases rule: apikey_Execute_cases)
    case blocked
    with assms(2) show ?thesis by simp
  next
    case (cached key' nm' v)
    with assms(4) that [of "fold set_line (split_on newline v) ctx"] show ?thesis by simp
  next
    case (found key' nm' hv status w1)
    with assms(4) that [of "set_headers (ko_range ops 0 w1 hv) ctx"] show ?thesis by simp
  qed
  with stripCredentials_effect [OF assms(3,5,6)] extract_strip show ?thesis by metis
qed

theorem hidden_credentials_not_forwarded_witness:
  "\<exists>c w'. apikey_Execute ex_key_ops ex_key_config ex_key_request ex_key_store = (None, c, w') \<and>
     extractQueryParam (ctx_Path c) ''key'' = [] \<and> extractQueryParam (ctx_Path c) ''y'' = ''2''"
proof -
  obtain err c w' where ex: "apikey_Execute ex_key_ops ex_key_config ex_key_request ex_key_store = (err, c, w')"
    by (cases "apikey_Execute ex_key_ops ex_key_config ex_key_request ex_key_store")
  with ex_key_passes(1) have open_c: "\<not> ctx_Blocked c" by simp
  have "fst (apikey_Execute ex_key_ops ex_key_config ex_key_request ex_key_store) = None" by code_simp
  with ex have err: "err = None" by simp
  have cfg: "ak_HideCredentials ex_key_config" "ak_KeyInQuery ex_key_config" "to_lower ''key'' \<noteq> '':path''"
    "extractQueryParam (ctx_Path ex_key_request) ''y'' = ''2''"
    by code_simp+
  from hidden_credentials_not_forwarded [OF ex open_c cfg(1) ex_key_passes(3)] cfg(2-4) ex err show ?thesis by simp
qed

subsection \<open>Answers from the cache\<close>

definition cacheable :: "(string \<times> string) list \<Rightarrow> bool" where
  "cacheable hv \<longleftrightarrow> (\<forall>(k, v) \<in> set hv. CHR ''='' \<notin> set k \<and> newline \<notin> set k \<and> CHR 0x00 \<notin> set k \<and> newline \<notin> set v)"

lemma decode_encode:
  "cacheable hv \<Longrightarrow> fold set_line (split_on newline (encode_headers hv)) ctx = set_headers hv ctx"
proof (induction hv arbitrary: ctx)
  case Nil
  then show ?case by (simp add: encode_headers_def set_headers_def set_line_def)
next
  case (Cons kv hv)
  obtain k v where kv: "kv = (k, v)" by (cases kv)
  with Cons.prems have ok: "CHR ''='' \<notin> set k" "newline \<notin> set (k @ ''='' @ v)" "cacheable hv"
    by (auto simp: cacheable_def newline_def)
  have "encode_headers (kv # hv) = (k @ ''='' @ v) @ newline # encode_headers hv"
    by (simp add: encode_headers_def kv)
  then have "split_on newline (encode_headers (kv # hv)) = (k @ ''='' @ v) # split_on newline (encode_headers hv)"
    using split_on_single [OF ok(2)] by (simp only: split_on_append) simp
  moreover have "set_line (k @ ''='' @ v) ctx = SetHeaderUpstream k v ctx" using ok(1) by (simp add: set_line_def)
  ultimately show ?case using Cons.IH [OF ok(3)] by (simp add: set_headers_def kv)
qed

lemma encode_no_marker: "cacheable hv \<Longrightarrow> \<not> is_block_marker (encode_headers hv)"
proof (cases hv)
  case (Cons kv rest)
  moreover assume "cacheable hv"
  ultimately show ?thesis
    by (cases kv; cases "fst kv") (auto simp: cacheable_def is_block_marker_def encode_headers_def)
qed (simp add: encode_headers_def is_block_marker_def)

lemma set_headers_order:
  assumes "mset hv = mset hv'" "distinct (map (\<lambda>(k, v). to_lower k) hv)" "to_lower q = q"
  shows "GetHeader (set_headers hv c) q = GetHeader (set_headers hv' c) q"
proof -
  let ?l = "map (\<lambda>(k, v). (to_lower k, v))"
  have d: "distinct (map fst (rev (?l xs)))" if "mset hv = mset xs" for xs
  proof -
    have "mset (map (\<lambda>(k, v). to_lower k) hv) = mset (map (\<lambda>(k, v). to_lower k) xs)" using that by simp
    with assms(2) have "distinct (map (\<lambda>(k, v). to_lower k) xs)" using mset_eq_imp_distinct_iff by blast
    moreover have "map fst (rev (?l xs)) = rev (map (\<lambda>(k, v). to_lower k) xs)" by (induction xs) auto
    ultimately show ?thesis by simp
  qed
  have "map_of (rev (?l hv)) = map_of (rev (?l hv'))"
    using map_of_inject_set [OF d [OF refl] d [OF assms(1)]] mset_eq_setD [OF assms(1)] by simp
  then show ?thesis by (simp add: set_headers_def upstream.get_puts [OF assms(3)])
qed


definition ex_key_first :: "string option \<times> RequestContext \<times> key_store" where
  "ex_key_first = apikey_Execute ex_key_ops ex_key_config ex_key_request ex_key_store"

definition ex_key_second :: "string option \<times> RequestContext \<times> key_store" where
  "ex_key_second = apikey_Execute ex_key_ops ex_key_config ex_key_request (snd (snd ex_key_first))"

lemma ex_key_cached:
  "lookup_key ex_key_ops ex_key_config (redis_key ex_key_config ''s3'') ex_key_store = (KeyFound [(''X-User'', ''ann'')] ''on'', ex_key_store)"
  "ko_cached ex_key_ops (redis_key ex_key_config ''s3'') ex_key_store = None"
  "ko_cached ex_key_ops (redis_key ex_key_config ''s3'') (snd (snd ex_key_first)) = Some (encode_headers [(''X-User'', ''ann'')])"
  "fst ex_key_first = None" "GetHeader (fst (snd ex_key_first)) ''x-user'' = ''ann''" "to_lower ''x-user'' = ''x-user''"
  by code_simp+


text \<open>A value with a line break, however, is read back from the cache as another header: the second
  answer for the same key sets a header the record does not have.\<close>

theorem cache_line_break_injects:
  "let hv = [(''x-user'', ''ann'' @ [newline] @ ''x-role=admin'')] in
   GetHeader (set_headers hv new_context) ''x-role'' = [] \<and>
   GetHeader (cached_answer ex_key_config ''key'' (encode_headers hv) new_context) ''x-role'' = ''admin''"
  by code_simp

end
