(* ===== verification/Netip_Text.thy ===== *)
theory Netip_Text
  imports Netip
begin

text \<open>
  The text of an address reads back: \<^verbatim>\<open>netip.ParseAddr\<close> of \<^verbatim>\<open>Addr.String\<close> is the address, for IPv4 and for IPv6
  with its compressed run of zeros. Addresses travel between the operator and the engines as text.
\<close>

subsection \<open>Hexadecimal numbers\<close>

lemma hex_char_cases: "d < 16 \<Longrightarrow> is_hex (hex_char d) \<and> hex_val (hex_char d) = Some d \<and> hex_char d \<noteq> CHR 0x00"
proof -
  have "\<forall>d \<in> set [0..<16]. is_hex (hex_char d) \<and> hex_val (hex_char d) = Some d \<and> hex_char d \<noteq> CHR 0x00" by code_simp
  then show "d < 16 \<Longrightarrow> is_hex (hex_char d) \<and> hex_val (hex_char d) = Some d \<and> hex_char d \<noteq> CHR 0x00" by auto
qed

lemma show_hex_ne [simp]: "show_hex n \<noteq> []"
  by (subst show_hex.simps) simp

lemma show_hex_chars: "ch \<in> set (show_hex n) \<Longrightarrow> is_hex ch \<and> ch \<noteq> CHR 0x00"
proof (induction n rule: show_hex.induct)
  case (1 n)
  show ?case
  proof (cases "n < 16")
    case True
    with 1 hex_char_cases [of n] show ?thesis by (simp add: show_hex.simps [of n])
  next
    case False
    with 1 hex_char_cases [of "n mod 16"] show ?thesis by (auto simp: show_hex.simps [of n])
  qed
qed

lemma hex_digits_val_snoc: "hex_digits_val (s @ [c]) = 16 * hex_digits_val s + the (hex_val c)"
  by (simp add: hex_digits_val_def)

lemma hex_digits_val_show [simp]: "hex_digits_val (show_hex n) = n"
proof (induction n rule: show_hex.induct)
  case (1 n)
  show ?case
  proof (cases "n < 16")
    case True
    with hex_char_cases [of n] show ?thesis by (simp add: show_hex.simps [of n] hex_digits_val_def)
  next
    case False
    with 1 hex_char_cases [of "n mod 16"] show ?thesis by (simp add: show_hex.simps [of n] hex_digits_val_snoc)
  qed
qed

lemma show_hex_inj: "show_hex n = show_hex k \<Longrightarrow> n = k"
  by (metis hex_digits_val_show)

lemma show_hex_length: "n < 16 ^ Suc k \<Longrightarrow> length (show_hex n) \<le> Suc k"
proof (induction k arbitrary: n)
  case 0
  then show ?case by (simp add: show_hex.simps [of n])
next
  case (Suc k)
  have "n div 16 < 16 ^ Suc k" using Suc.prems by (simp add: less_mult_imp_div_less)
  from Suc.IH [OF this] show ?case by (simp add: show_hex.simps [of n])
qed

subsection \<open>IPv4\<close>

lemma show_nat_ne [simp]: "show_nat n \<noteq> []"
  by (subst show_nat.simps) simp

lemma show_nat_hd: "0 < n \<Longrightarrow> hd (show_nat n) \<noteq> CHR ''0''"
proof (induction n rule: show_nat.induct)
  case (1 n)
  show ?case
  proof (cases "n < 10")
    case True
    have "digit_char n \<noteq> CHR ''0''" using digit_char_props [OF True] 1 by (auto simp: digit_val_def)
    with True show ?thesis by (simp add: show_nat.simps [of n])
  next
    case False
    then have "hd (show_nat n) = hd (show_nat (n div 10))" by (simp add: show_nat.simps [of n])
    with 1 False show ?thesis by simp
  qed
qed

lemma show_nat_length: "n < 10 ^ Suc k \<Longrightarrow> length (show_nat n) \<le> Suc k"
proof (induction k arbitrary: n)
  case 0
  then show ?case by (simp add: show_nat.simps [of n])
next
  case (Suc k)
  have "n div 10 < 10 ^ Suc k" using Suc.prems by (simp add: less_mult_imp_div_less)
  from Suc.IH [OF this] show ?case by (simp add: show_nat.simps [of n])
qed

lemma parse_octet_show:
  assumes "n \<le> 255"
  shows "parse_octet (show_nat n) = Some n"
proof -
  have "length (show_nat n) \<le> 3" using show_nat_length [of n 2] assms by (simp add: numeral_3_eq_3 power2_eq_square)
  moreover have "length (show_nat n) = 1 \<or> hd (show_nat n) \<noteq> CHR ''0''"
    using show_nat_hd [of n] by (cases "n = 0") (simp_all add: show_nat.simps [of 0])
  ultimately show ?thesis using assms show_nat_digits by (simp add: parse_octet_def)
qed

lemma unat_field:
  fixes w :: "'a::len word"
  shows "unat (drop_bit i w AND mask k) = unat w div 2 ^ i mod 2 ^ k"
proof -
  have "drop_bit i w AND mask k = take_bit k (drop_bit i w)" by (simp add: take_bit_eq_mask)
  moreover have "take_bit LENGTH('a) (unat w) = unat w" by (simp add: take_bit_nat_eq_self_iff)
  then have "unat (take_bit k (drop_bit i w)) = take_bit k (drop_bit i (unat w))"
    by (simp add: unsigned_take_bit_eq unsigned_drop_bit_eq)
  ultimately show ?thesis by (simp add: take_bit_eq_mod drop_bit_eq_div)
qed

lemma mask_numerals: "(255 :: 32 word) = mask 8" "(0xffff :: 128 word) = mask 16"
  by (simp_all add: mask_eq_exp_minus_1)

lemma bytes_val_Cons: "bytes_val b (d # ds) = d * b ^ length ds + bytes_val b ds"
proof -
  have "foldl (\<lambda>acc n. acc * b + n) a ds = a * b ^ length ds + foldl (\<lambda>acc n. acc * b + n) 0 ds" for a
  proof (induction ds arbitrary: a)
    case (Cons x xs)
    show ?case using Cons [of "a * b + x"] Cons [of x] by (simp add: algebra_simps)
  qed simp
  from this [of d] show ?thesis by (simp add: bytes_val_def)
qed

lemma fields_value: "bytes_val b (map (\<lambda>i. n div b ^ i mod b) (rev [0..<k])) = n mod b ^ k"
proof (induction k)
  case 0
  then show ?case by (simp add: bytes_val_def)
next
  case (Suc k)
  have "n mod b ^ Suc k = b ^ k * (n div b ^ k mod b) + n mod b ^ k"
    using mod_mult2_eq [of n "b ^ k" b] by (simp only: power_Suc2)
  with Suc show ?case by (simp add: bytes_val_Cons mult.commute)
qed

lemma show_ipv4_octets: "show_ipv4 w = join ''.'' (map (\<lambda>i. show_nat (unat w div 256 ^ i mod 256)) (rev [0..<4]))"
proof -
  have "unat (drop_bit (8 * i) w AND 255) = unat w div 256 ^ i mod 256" for i
    using unat_field [of "8 * i" w 8] by (simp add: mask_numerals power_mult)
  note f = this [of 3, simplified] this [of 2, simplified] this [of 1, simplified] this [of 0, simplified]
  have "rev [0..<4] = [3, 2, 1, 0 :: nat]" by code_simp
  then show ?thesis by (simp add: show_ipv4_def f)
qed

lemma show_nat_no_dot: "CHR ''.'' \<notin> set (show_nat n)"
proof -
  have "list_all is_digit (show_nat n)" using show_nat_digits [of n] by (simp add: all_digits_def)
  moreover have "\<not> is_digit CHR ''.''" by code_simp
  ultimately show ?thesis by (auto simp: list_all_iff)
qed

lemma parse_octets_show: "\<forall>n \<in> set ns. n \<le> 255 \<Longrightarrow> parse_octets (map show_nat ns) = Some ns"
  by (induction ns) (simp_all add: parse_octet_show)

lemma parse_show_ipv4: "parse_ipv4 (show_ipv4 w) = Some (AddrV4 w)"
proof -
  let ?ns = "map (\<lambda>i. unat w div 256 ^ i mod 256) (rev [0..<4])"
  have j: "show_ipv4 w = join [CHR ''.''] (map show_nat ?ns)" by (simp add: show_ipv4_octets o_def)
  have "split_on CHR ''.'' (show_ipv4 w) = map show_nat ?ns"
    unfolding j by (rule split_on_join) (auto simp: show_nat_no_dot)
  moreover have "parse_octets (map show_nat ?ns) = Some ?ns"
    by (rule parse_octets_show) (auto simp: less_Suc_eq_le [symmetric] simp del: less_Suc_eq_le)
  moreover have "bytes_val 256 ?ns = unat w"
  proof -
    have "unat w < 2 ^ LENGTH(32)" by (rule unsigned_less)
    then have "unat w < 256 ^ 4" by simp
    then show ?thesis unfolding fields_value by (rule mod_less)
  qed
  ultimately show ?thesis by (simp add: parse_ipv4_def parse_ipv4_fields_def)
qed

subsection \<open>IPv6\<close>

abbreviation show_groups :: "nat list \<Rightarrow> string" where
  "show_groups gs \<equiv> join '':'' (map show_hex gs)"

abbreviation group_list :: "nat list \<Rightarrow> bool" where
  "group_list gs \<equiv> \<forall>g \<in> set gs. g < 65536"

lemma colon_not_hex: "\<not> is_hex CHR '':''" "\<not> is_hex CHR ''.''" "\<not> is_hex CHR ''%''"
  by code_simp+

lemma hex_prefix:
  assumes "rest = [] \<or> \<not> is_hex (hd rest)"
  shows "takeWhile is_hex (show_hex g @ rest) = show_hex g" "dropWhile is_hex (show_hex g @ rest) = rest"
proof -
  have "\<forall>c \<in> set (show_hex g). is_hex c" using show_hex_chars by blast
  with assms show "takeWhile is_hex (show_hex g @ rest) = show_hex g" "dropWhile is_hex (show_hex g @ rest) = rest"
    by (cases rest; simp add: takeWhile_append2 dropWhile_append2)+
qed

lemma group_length: "g < 65536 \<Longrightarrow> length (show_hex g) \<le> 4"
  using show_hex_length [of g 3] by simp

text \<open>One group, at the end of the text, before another group, or before the ellipsis.\<close>

lemma groups_end:
  assumes "g < 65536"
  shows "parse_ipv6_groups (Suc left) (show_hex g) gs ell = Some (gs @ [g], ell)"
proof -
  have "takeWhile is_hex (show_hex g) = show_hex g" "dropWhile is_hex (show_hex g) = []"
    using hex_prefix [of "[]" g] by (simp_all only: append_Nil2 simp_thms)
  then show ?thesis using group_length [OF assms] by (simp add: Let_def del: takeWhile_eq_all_conv dropWhile_eq_Nil_conv)
qed

lemma groups_step:
  assumes "g < 65536" "rest \<noteq> []" "hd rest \<noteq> CHR '':''"
  shows "parse_ipv6_groups (Suc left) (show_hex g @ CHR '':'' # rest) gs ell = parse_ipv6_groups left rest (gs @ [g]) ell"
proof -
  have c: "CHR '':'' # rest = [] \<or> \<not> is_hex (hd (CHR '':'' # rest))" using colon_not_hex by simp
  note t = hex_prefix [OF c, of g]
  show ?thesis using group_length [OF assms(1)] assms(2,3) by (simp add: Let_def t)
qed

lemma groups_ellipsis:
  assumes "g < 65536"
  shows "parse_ipv6_groups (Suc left) (show_hex g @ CHR '':'' # CHR '':'' # rest) gs None =
    (if rest = [] then Some (gs @ [g], Some (Suc (length gs)))
     else parse_ipv6_groups left rest (gs @ [g]) (Some (Suc (length gs))))"
proof -
  have c: "CHR '':'' # CHR '':'' # rest = [] \<or> \<not> is_hex (hd (CHR '':'' # CHR '':'' # rest))" using colon_not_hex by simp
  note t = hex_prefix [OF c, of g]
  show ?thesis using group_length [OF assms] by (simp add: Let_def t)
qed

lemma show_groups_hd: "gs \<noteq> [] \<Longrightarrow> show_groups gs @ r \<noteq> [] \<and> hd (show_groups gs @ r) \<noteq> CHR '':'' \<and> is_hex (hd (show_groups gs @ r))"
proof (cases gs)
  case (Cons g gs')
  have "hd (show_hex g) \<in> set (show_hex g)" by simp
  with show_hex_chars have "is_hex (hd (show_hex g))" by blast
  moreover have "show_groups gs = show_hex g @ (if gs' = [] then [] else CHR '':'' # show_groups gs')"
    using Cons by (cases gs') simp_all
  ultimately show ?thesis using colon_not_hex by (auto simp: hd_append)
qed simp

lemma groups_all:
  "gs \<noteq> [] \<Longrightarrow> group_list gs \<Longrightarrow> length gs \<le> left \<Longrightarrow> parse_ipv6_groups left (show_groups gs) acc ell = Some (acc @ gs, ell)"
proof (induction gs arbitrary: left acc)
  case (Cons g gs)
  obtain left' where l: "left = Suc left'" using Cons.prems(3) by (cases left) auto
  show ?case
  proof (cases "gs = []")
    case True
    with l groups_end [of g left' acc ell] Cons.prems show ?thesis by simp
  next
    case False
    have "show_groups (g # gs) = show_hex g @ CHR '':'' # show_groups gs" using False by (simp add: join_Cons)
    with False l Cons groups_step [of g "show_groups gs" left' acc ell] show_groups_hd [OF False, of "[]"] show ?thesis by simp
  qed
qed simp

lemma groups_compressed:
  "as \<noteq> [] \<Longrightarrow> group_list as \<Longrightarrow> group_list bs \<Longrightarrow> length as + length bs \<le> left \<Longrightarrow>
   parse_ipv6_groups left (show_groups as @ ''::'' @ show_groups bs) acc None = Some (acc @ as @ bs, Some (length acc + length as))"
proof (induction as arbitrary: left acc)
  case (Cons g as)
  obtain left' where l: "left = Suc left'" using Cons.prems(4) by (cases left) auto
  show ?case
  proof (cases "as = []")
    case True
    show ?thesis
    proof (cases "bs = []")
      case True
      with \<open>as = []\<close> l groups_ellipsis [of g left' "[]" acc] Cons.prems show ?thesis by simp
    next
      case False
      from groups_all [OF False, of left' "acc @ [g]"] Cons.prems l \<open>as = []\<close>
        groups_ellipsis [of g left' "show_groups bs" acc] show_groups_hd [OF False, of "[]"] show ?thesis by simp
    qed
  next
    case False
    have "show_groups (g # as) = show_hex g @ CHR '':'' # show_groups as" using False by (simp add: join_Cons)
    with False l Cons groups_step [of g "show_groups as @ ''::'' @ show_groups bs" left' acc None] show_groups_hd [OF False, of "''::'' @ show_groups bs"]
    show ?thesis by simp
  qed
qed simp

subsection \<open>The run of zeros\<close>

lemma zero_run_zeros: "take (zero_run gs i) (drop i gs) = replicate (zero_run gs i) 0" "i + zero_run gs i \<le> length gs \<or> length gs < i"
proof -
  have t: "take (length (takeWhile P xs)) xs = takeWhile P xs" for P and xs :: "nat list" by (metis takeWhile_eq_take)
  have "takeWhile (\<lambda>g. g = 0) xs = replicate (length (takeWhile (\<lambda>g. g = 0) xs)) 0" for xs :: "nat list"
    by (intro replicate_eqI) (auto dest: set_takeWhileD)
  with t show "take (zero_run gs i) (drop i gs) = replicate (zero_run gs i) 0" unfolding zero_run_def by metis
  show "i + zero_run gs i \<le> length gs \<or> length gs < i"
    using length_takeWhile_le [of "\<lambda>g. g = 0" "drop i gs"] by (auto simp: zero_run_def)
qed

lemma best_zero_run_ok:
  assumes "best_zero_run gs = Some (i, l)"
  shows "i < length gs \<and> l = zero_run gs i \<and> 2 \<le> l"
proof -
  have "case foldl (\<lambda>best i. let l = zero_run gs i in
            if l \<ge> 2 \<and> (case best of None \<Rightarrow> True | Some (_, bl) \<Rightarrow> bl < l) then Some (i, l) else best) best is of
          None \<Rightarrow> True | Some (i, l) \<Rightarrow> i < length gs \<and> l = zero_run gs i \<and> 2 \<le> l"
    if "case best of None \<Rightarrow> True | Some (i, l) \<Rightarrow> i < length gs \<and> l = zero_run gs i \<and> 2 \<le> l" "\<forall>i \<in> set is. i < length gs" for best "is"
    using that
  proof (induction "is" arbitrary: best)
    case (Cons j "is")
    show ?case unfolding foldl.simps by (rule Cons.IH) (use Cons.prems in \<open>auto simp: Let_def split: option.splits\<close>)
  qed simp
  from this [of None "[0..<length gs]"] assms show ?thesis by (simp add: best_zero_run_def)
qed

subsection \<open>Round trip\<close>

lemma ipv6_groups_fields: "ipv6_groups w = map (\<lambda>i. unat w div 65536 ^ i mod 65536) (rev [0..<8])"
proof -
  have "unat (drop_bit (16 * i) w AND 0xffff) = unat w div 65536 ^ i mod 65536" for i
    using unat_field [of "16 * i" w 16] by (simp add: mask_numerals power_mult)
  moreover have "rev [0..<8] = [7, 6, 5, 4, 3, 2, 1, 0 :: nat]" by code_simp
  ultimately show ?thesis unfolding ipv6_groups_def by (simp only:)
qed

lemma ipv6_groups_props: "length (ipv6_groups w) = 8" "group_list (ipv6_groups w)" "bytes_val 65536 (ipv6_groups w) = unat w"
proof -
  have "unat w < 2 ^ LENGTH(128)" by (rule unsigned_less)
  then have "unat w < 65536 ^ 8" by simp
  then show "bytes_val 65536 (ipv6_groups w) = unat w" unfolding ipv6_groups_fields fields_value by (rule mod_less)
qed (auto simp: ipv6_groups_fields)

lemma show_groups_chars: "ch \<in> set (show_groups gs) \<Longrightarrow> is_hex ch \<or> ch = CHR '':''"
proof (induction gs)
  case (Cons g gs)
  then show ?case using show_hex_chars by (cases "gs = []") (auto simp: join_Cons)
qed simp

lemma show_ipv6_chars: "ch \<in> set (show_ipv6 w) \<Longrightarrow> is_hex ch \<or> ch = CHR '':''"
  using show_groups_chars by (auto simp: show_ipv6_def Let_def split: option.splits)

lemma show_ipv6_colon: "CHR '':'' \<in> set (show_ipv6 w)"
proof -
  have "CHR '':'' \<in> set (show_groups gs)" if "length gs = 8" for gs
  proof -
    from that obtain a b bs where "gs = a # b # bs" by (cases gs; cases "tl gs") auto
    then show ?thesis by simp
  qed
  with ipv6_groups_props(1) show ?thesis by (auto simp: show_ipv6_def Let_def split: option.split)
qed

lemma parse_ipv6_text:
  assumes "CHR ''%'' \<notin> set s"
  shows "parse_ipv6 (s @ (if z = [] then [] else ''%'' @ z)) =
    (let lead = has_prefix s ''::''; body = (if lead then drop 2 s else s) in
     if lead \<and> body = [] then Some (AddrV6 0 z)
     else (case parse_ipv6_groups 8 body [] (if lead then Some 0 else None) of
             None \<Rightarrow> None
           | Some (gs, ell) \<Rightarrow> map_option (\<lambda>ns. AddrV6 (word_of_nat (bytes_val 65536 ns)) z) (expand_groups gs ell)))"
  using assms by (induction z) (simp_all add: parse_ipv6_def)

lemma not_lead: "gs \<noteq> [] \<Longrightarrow> \<not> has_prefix (show_groups gs @ r) ''::''"
  using show_groups_hd [of gs r] by (cases "show_groups gs @ r") (auto simp: has_prefix_def)

lemma parse_show_ipv6: "parse_ipv6 (show_ipv6 w @ (if z = [] then [] else ''%'' @ z)) = Some (AddrV6 w z)"
proof -
  let ?gs = "ipv6_groups w"
  have val: "(word_of_nat (bytes_val 65536 ?gs) :: 128 word) = w" by (simp add: ipv6_groups_props)
  have nopct: "CHR ''%'' \<notin> set (show_ipv6 w)" using show_ipv6_chars colon_not_hex by fastforce
  have ne: "?gs \<noteq> []" using ipv6_groups_props(1) [of w] by auto
  show ?thesis
  proof (cases "best_zero_run ?gs")
    case None
    then have "show_ipv6 w = show_groups ?gs" by (simp add: show_ipv6_def)
    moreover have "parse_ipv6_groups 8 (show_groups ?gs) [] None = Some (?gs, None)"
      using groups_all [OF ne, of 8 "[]" None] ipv6_groups_props [of w] by simp
    moreover have "\<not> has_prefix (show_groups ?gs) ''::''" using not_lead [OF ne, of "[]"] by simp
    ultimately show ?thesis
      using parse_ipv6_text [OF nopct, of z] val by (simp add: expand_groups_def ipv6_groups_props)
  next
    case (Some il)
    obtain i l where il: "il = (i, l)" by (cases il)
    let ?a = "take i ?gs" and ?b = "drop (i + l) ?gs"
    have r: "i < 8" "l = zero_run ?gs i" "2 \<le> l" using best_zero_run_ok Some il ipv6_groups_props(1) [of w] by fastforce+
    have fits: "i + l \<le> 8" using zero_run_zeros(2) [of i ?gs] r ipv6_groups_props(1) [of w] by auto
    have "take l (drop i ?gs) = replicate l 0" using zero_run_zeros(1) [of ?gs i] r by simp
    then have gs: "?gs = ?a @ replicate l 0 @ ?b" by (metis append_take_drop_id drop_drop add.commute)
    have g: "group_list ?a" "group_list ?b" using ipv6_groups_props(2) [of w] by (auto dest: in_set_takeD in_set_dropD)
    have len: "length ?a = i" "length ?b = 8 - (i + l)" using fits ipv6_groups_props(1) [of w] by auto
    have txt_eq: "show_ipv6 w = show_groups ?a @ ''::'' @ show_groups ?b" using Some il by (simp add: show_ipv6_def Let_def)
    show ?thesis
    proof (cases "?a = []")
      case True
      have t: "show_ipv6 w = ''::'' @ show_groups ?b" unfolding txt_eq True by simp
      have gs0: "?gs = replicate l 0 @ ?b" using gs unfolding True by simp
      have i0: "i = 0" using True ne by simp
      show ?thesis
      proof (cases "?b = []")
        case True
        have "bytes_val 65536 (replicate n 0) = 0" for n by (induction n) (simp_all add: bytes_val_Cons, simp add: bytes_val_def)
        then have "bytes_val 65536 ?gs = 0" using gs0 unfolding True by simp
        then have "w = 0" using val by simp
        moreover have "show_ipv6 w = ''::''" unfolding t True by simp
        ultimately show ?thesis using parse_ipv6_text [OF nopct, of z] by (simp add: has_prefix_def)
      next
        case False
        have "parse_ipv6_groups 8 (show_groups ?b) [] (Some 0) = Some (?b, Some 0)"
          using groups_all [OF False g(2), of 8 "[]" "Some 0"] len by simp
        moreover have "expand_groups ?b (Some 0) = Some ?gs"
        proof -
          have "8 - length ?b = l" "length ?b < 8" using len fits r i0 by auto
          with gs0 show ?thesis by (simp add: expand_groups_def)
        qed
        ultimately show ?thesis
          using t False val parse_ipv6_text [OF nopct, of z] show_groups_hd [OF False, of "[]"] by (simp add: has_prefix_def)
      qed
    next
      case False
      have "parse_ipv6_groups 8 (show_ipv6 w) [] None = Some (?a @ ?b, Some i)"
        using groups_compressed [OF False g, of 8 "[]"] len fits unfolding txt_eq by simp
      moreover have "expand_groups (?a @ ?b) (Some i) = Some ?gs"
      proof -
        have "8 - length (?a @ ?b) = l" "length (?a @ ?b) < 8" using len fits r by auto
        with len gs show ?thesis by (simp add: expand_groups_def)
      qed
      moreover have "\<not> has_prefix (show_ipv6 w) ''::''" using not_lead [OF False] unfolding txt_eq by simp
      ultimately show ?thesis using parse_ipv6_text [OF nopct, of z] val by simp
    qed
  qed
qed

lemma first_separator:
  assumes "\<And>ch. ch \<in> set s \<Longrightarrow> is_hex ch \<or> ch = CHR '':''" "CHR '':'' \<in> set s"
  shows "\<exists>r. dropWhile (\<lambda>c. c \<notin> {CHR ''.'', CHR '':'', CHR ''%''}) (s @ t) = CHR '':'' # r"
  using assms
proof (induction s)
  case (Cons c s)
  show ?case
  proof (cases "c = CHR '':''")
    case False
    with Cons.prems(1) [of c] have "is_hex c" by simp
    with colon_not_hex have "c \<notin> {CHR ''.'', CHR '':'', CHR ''%''}" by auto
    with Cons False show ?thesis by simp
  qed simp
qed simp

text \<open>the text of an address parses to that address. This holds for every valid address, IPv4 or IPv6, with or
  without a zone, except for IPv4-mapped ones, which the engine and the operator always unmap first.\<close>

theorem parse_show_addr:
  assumes "addr_is_valid a" "\<not> addr_is4in6 a"
  shows "parse_addr (show_addr a) = Some a"
proof (cases a)
  case AddrInvalid
  with assms show ?thesis by (simp add: addr_is_valid_def)
next
  case (AddrV4 w)
  have "\<exists>r. dropWhile (\<lambda>c. c \<notin> {CHR ''.'', CHR '':'', CHR ''%''}) (show_ipv4 w) = CHR ''.'' # r"
  proof -
    have d: "\<forall>c \<in> set (show_nat n). c \<notin> {CHR ''.'', CHR '':'', CHR ''%''}" for n
    proof -
      have "list_all is_digit (show_nat n)" using show_nat_digits [of n] by (simp add: all_digits_def)
      moreover have "\<not> is_digit CHR ''.''" "\<not> is_digit CHR '':''" "\<not> is_digit CHR ''%''" by code_simp+
      ultimately show ?thesis by (auto simp: list_all_iff)
    qed
    have "show_ipv4 w = show_nat (unat (drop_bit 24 w AND 255)) @ CHR ''.'' #
        join ''.'' (map (\<lambda>i. show_nat (unat (drop_bit i w AND 255))) [16, 8, 0])" by (simp add: show_ipv4_def)
    moreover have "dropWhile (\<lambda>c. c \<notin> {CHR ''.'', CHR '':'', CHR ''%''}) (show_nat n @ CHR ''.'' # r) = CHR ''.'' # r" for n r
      using d [of n] by (subst dropWhile_append2) auto
    ultimately show ?thesis by auto
  qed
  with AddrV4 parse_show_ipv4 show ?thesis by (auto simp: parse_addr_def)
next
  case (AddrV6 w z)
  then have t: "show_addr a = show_ipv6 w @ (if z = [] then [] else ''%'' @ z)" using assms(2) by simp
  obtain r where r: "dropWhile (\<lambda>c. c \<notin> {CHR ''.'', CHR '':'', CHR ''%''})
      (show_ipv6 w @ (if z = [] then [] else ''%'' @ z)) = CHR '':'' # r"
    using first_separator [of "show_ipv6 w" "if z = [] then [] else ''%'' @ z"] show_ipv6_chars show_ipv6_colon by blast
  have "parse_addr (show_addr a) = parse_ipv6 (show_ipv6 w @ (if z = [] then [] else ''%'' @ z))"
    unfolding t parse_addr_def r by simp
  with AddrV6 parse_show_ipv6 show ?thesis by simp
qed

theorem parse_show_addr_witness:
  "parse_addr (show_addr (AddrV6 0x20010db8000000000000000000000001 [])) = Some (AddrV6 0x20010db8000000000000000000000001 [])"
  by (rule parse_show_addr) (simp_all add: addr_is_valid_def)

end
