(* ===== verification/Policy_Manager.thy ===== *)
theory Policy_Manager
  imports Chain_Registry Netip_Text Digest "HOL-Library.AList" "HOL-Library.Multiset"
begin

text \<open>
  The policy manager (\<^verbatim>\<open>internal/policy/manager.go\<close>): it turns a loaded configuration into a
  snapshot and owns the Redis clients and filter instances snapshots use. Creating a Redis client, compiling a
  filter and serialising options are parameters. Pointers are numbers handed out in order. Opening and closing
  resources is recorded in a log, so that their lifetimes can be followed over reloads.
\<close>

subsection \<open>State\<close>

record redisEntry =
  re_ptr :: nat
  re_cfg :: RedisServiceConfig
  re_client :: nat
  re_stopHealth :: bool \<comment> \<open>whether the cancel function is set\<close>

text \<open>A compiled filter. The last field records what it was created from: its type, its options and
  the clients it could look up.\<close>

record 'w filter_instance =
  fi_ptr :: nat
  fi_closer :: bool \<comment> \<open>whether it implements \<^verbatim>\<open>io.Closer\<close>\<close>
  fi_filter :: "'w base_filter"
  fi_origin :: "string \<times> (string \<times> yaml) list \<times> (string \<rightharpoonup> nat)"

datatype event =
    OpenClient nat
  | CloseClient nat
  | OpenFilter nat
  | CloseFilter nat
  | StartHealth nat
  | StopHealth nat

record ('w, 'x) manager =
  mg_redis :: "(string \<times> redisEntry) list"
  mg_filters :: "(string \<times> 'w filter_instance) list"
  mg_ready :: bool
  mg_ReloadDialTimeout :: int
  mg_next :: nat
  mg_log :: "event list"
  mg_world :: 'x

record ('w, 'x) manager_ops =
  mo_newRedis :: "bool \<Rightarrow> string \<Rightarrow> RedisServiceConfig \<Rightarrow> 'x \<Rightarrow> (string, unit) result \<times> 'x"
  mo_newFilter :: "string \<Rightarrow> (string \<times> yaml) list \<Rightarrow> (string \<rightharpoonup> nat) \<Rightarrow> 'x \<Rightarrow>
     (string, 'w base_filter \<times> bool) result \<times> 'x"
  mo_Marshal :: "(string \<times> yaml) list \<Rightarrow> (string, string) result"

definition NewManager :: "'x \<Rightarrow> ('w, 'x) manager" where
  "NewManager x = \<lparr>mg_redis = [], mg_filters = [], mg_ready = False, mg_ReloadDialTimeout = 30000000000,
     mg_next = 0, mg_log = [], mg_world = x\<rparr>"

definition Ready :: "('w, 'x) manager \<Rightarrow> bool" where
  "Ready m = mg_ready m"

subsection \<open>Building a policy\<close>

text \<open>What an \<^verbatim>\<open>Apply\<close> has put together so far: the next maps, and the clients and filters it created.\<close>

record ('w, 'x) build =
  bd_redis :: "(string \<times> redisEntry) list"
  bd_filters :: "(string \<times> 'w filter_instance) list"
  bd_clients :: "nat list"
  bd_created :: "'w filter_instance list"
  bd_next :: nat
  bd_log :: "event list"
  bd_world :: 'x

datatype apply_error =
    RedisFailed string string
  | FilterFailed string nat string string

definition new_entry :: "RedisServiceConfig \<Rightarrow> nat \<Rightarrow> redisEntry" where
  "new_entry svcCfg n = \<lparr>re_ptr = Suc n, re_cfg = svcCfg, re_client = n, re_stopHealth = False\<rparr>"

text \<open>A service that is new or has changed is dialled; a reload bounds the wait for a service without
  a time budget of its own.\<close>

definition dial_new ::
  "('w, 'x) manager_ops \<Rightarrow> ('w, 'x) manager \<Rightarrow> string \<Rightarrow> RedisServiceConfig \<Rightarrow> ('w, 'x) build \<Rightarrow>
   apply_error option \<times> ('w, 'x) build" where
  "dial_new ops m name svcCfg b =
     (let bounded = (mg_ready m \<and> rd_StartupMaxElapsedTimeDuration svcCfg \<le> 0 \<and> mg_ReloadDialTimeout m > 0);
          (r, x) = mo_newRedis ops bounded name svcCfg (bd_world b);
          n = bd_next b in
      case r of
        Err e \<Rightarrow> (Some (RedisFailed name e), b\<lparr>bd_world := x\<rparr>)
      | Ok _ \<Rightarrow>
          (None, b\<lparr>bd_redis := AList.update name (new_entry svcCfg n) (bd_redis b), bd_clients := bd_clients b @ [n],
                   bd_next := n + 2, bd_log := bd_log b @ [OpenClient n], bd_world := x\<rparr>))"

definition dial_service ::
  "('w, 'x) manager_ops \<Rightarrow> ('w, 'x) manager \<Rightarrow> string \<Rightarrow> RedisServiceConfig \<Rightarrow> ('w, 'x) build \<Rightarrow>
   apply_error option \<times> ('w, 'x) build" where
  "dial_service ops m name svcCfg b =
     (case map_of (mg_redis m) name of
        Some old \<Rightarrow>
          if re_cfg old = svcCfg then (None, b\<lparr>bd_redis := AList.update name old (bd_redis b)\<rparr>)
          else dial_new ops m name svcCfg b
      | None \<Rightarrow> dial_new ops m name svcCfg b)"

fun dial_services ::
  "('w, 'x) manager_ops \<Rightarrow> ('w, 'x) manager \<Rightarrow> (string \<times> RedisServiceConfig) list \<Rightarrow> ('w, 'x) build \<Rightarrow>
   apply_error option \<times> ('w, 'x) build" where
  "dial_services ops m [] b = (None, b)"
| "dial_services ops m ((name, svcCfg) # rest) b =
     (case dial_service ops m name svcCfg b of
        (Some e, b') \<Rightarrow> (Some e, b')
      | (None, b') \<Rightarrow> dial_services ops m rest b')"

definition lookup_client :: "(string \<times> redisEntry) list \<Rightarrow> string \<rightharpoonup> nat" where
  "lookup_client entries svc = map_option re_client (map_of entries svc)"

text \<open>The Redis entry a filter definition binds to.\<close>

definition bound_entry :: "FilterConfig \<Rightarrow> (string \<times> redisEntry) list \<Rightarrow> redisEntry option" where
  "bound_entry fc nextRedis =
     (case map_of (fc_Options fc) ''redis_service'' of Some (YStr svc) \<Rightarrow> map_of nextRedis svc | _ \<Rightarrow> None)"

definition filterKey ::
  "('w, 'x) manager_ops \<Rightarrow> FilterConfig \<Rightarrow> (string \<times> redisEntry) list \<Rightarrow> (string, string) result" where
  "filterKey ops fc nextRedis =
     (case mo_Marshal ops (fc_Options fc) of
        Err e \<Rightarrow> Err (''invalid options: '' @ e)
      | Ok opts \<Rightarrow>
          (let key = fc_Type fc @ [CHR 0x00] @ opts in
           case bound_entry fc nextRedis of
             Some e \<Rightarrow> Ok (key @ [CHR 0x00] @ ''0x'' @ show_hex (re_ptr e))
           | None \<Rightarrow> Ok key))"

definition compile_filter ::
  "('w, 'x) manager_ops \<Rightarrow> ('w, 'x) manager \<Rightarrow> FilterConfig \<Rightarrow> ('w, 'x) build \<Rightarrow>
   (string, 'w filter_instance) result \<times> ('w, 'x) build" where
  "compile_filter ops m fc b =
     (case filterKey ops fc (bd_redis b) of
        Err e \<Rightarrow> (Err e, b)
      | Ok key \<Rightarrow>
          (case (case map_of (bd_filters b) key of Some f \<Rightarrow> Some f | None \<Rightarrow> map_of (mg_filters m) key) of
             Some f \<Rightarrow> (Ok f, b\<lparr>bd_filters := AList.update key f (bd_filters b)\<rparr>)
           | None \<Rightarrow>
               (let lookup = lookup_client (bd_redis b);
                    (r, x) = mo_newFilter ops (fc_Type fc) (fc_Options fc) lookup (bd_world b);
                    n = bd_next b in
                case r of
                  Err e \<Rightarrow> (Err e, b\<lparr>bd_world := x\<rparr>)
                | Ok (bf, closer) \<Rightarrow>
                    (let f = \<lparr>fi_ptr = n, fi_closer = closer, fi_filter = bf, fi_origin = (fc_Type fc, fc_Options fc, lookup)\<rparr>
                     in (Ok f, b\<lparr>bd_filters := AList.update key f (bd_filters b), bd_created := bd_created b @ [f],
                                 bd_next := Suc n, bd_log := bd_log b @ (if closer then [OpenFilter n] else []),
                                 bd_world := x\<rparr>)))))"

text \<open>The filters of one chain, with the audit flag of each position.\<close>

fun compile_chain ::
  "('w, 'x) manager_ops \<Rightarrow> ('w, 'x) manager \<Rightarrow> string \<Rightarrow> nat \<Rightarrow> FilterConfig list \<Rightarrow> ('w, 'x) build \<Rightarrow>
   (apply_error, ('w filter_instance \<times> bool) list) result \<times> ('w, 'x) build" where
  "compile_chain ops m chainName i [] b = (Ok [], b)"
| "compile_chain ops m chainName i (fc # fcs) b =
     (case compile_filter ops m fc b of
        (Err e, b1) \<Rightarrow> (Err (FilterFailed chainName i (fc_Type fc) e), b1)
      | (Ok f, b1) \<Rightarrow>
          (case compile_chain ops m chainName (Suc i) fcs b1 of
             (Err e, b2) \<Rightarrow> (Err e, b2)
           | (Ok ps, b2) \<Rightarrow> (Ok ((f, fc_Audit fc) # ps), b2)))"

fun compile_chains ::
  "('w, 'x) manager_ops \<Rightarrow> ('w, 'x) manager \<Rightarrow> (string \<times> FilterConfig list) list \<Rightarrow> ('w, 'x) build \<Rightarrow>
   (apply_error, (string \<times> ('w filter_instance \<times> bool) list) list) result \<times> ('w, 'x) build" where
  "compile_chains ops m [] b = (Ok [], b)"
| "compile_chains ops m ((chainName, fcs) # rest) b =
     (case compile_chain ops m chainName 0 fcs b of
        (Err e, b1) \<Rightarrow> (Err e, b1)
      | (Ok ps, b1) \<Rightarrow>
          (case compile_chains ops m rest b1 of
             (Err e, b2) \<Rightarrow> (Err e, b2)
           | (Ok chs, b2) \<Rightarrow> (Ok ((chainName, ps) # chs), b2)))"

definition chain_of :: "('w filter_instance \<times> bool) list \<Rightarrow> 'w Chain" where
  "chain_of ps = map (\<lambda>(f, audit). if audit then Audit (Base (fi_filter f)) else Base (fi_filter f)) ps"

subsection \<open>Applying a configuration\<close>

definition closeFilters :: "'w filter_instance list \<Rightarrow> event list" where
  "closeFilters fs = map (\<lambda>f. CloseFilter (fi_ptr f)) (filter fi_closer fs)"

definition abort :: "('w, 'x) manager \<Rightarrow> ('w, 'x) build \<Rightarrow> ('w, 'x) manager" where
  "abort m b =
     m\<lparr>mg_next := bd_next b, mg_world := bd_world b,
       mg_log := bd_log b @ closeFilters (bd_created b) @ map CloseClient (bd_clients b)\<rparr>"

text \<open>What is handed to the registry: the snapshot, made of the chains, and what its publication retires.\<close>

record 'w publication =
  pub_snapshot :: "'w snapshot_data"
  pub_chains :: "(string \<times> ('w filter_instance \<times> bool) list) list"
  pub_retiredFilters :: "'w filter_instance list"
  pub_retiredRedis :: "redisEntry list"

definition cleanup :: "'w publication \<Rightarrow> event list" where
  "cleanup p = closeFilters (pub_retiredFilters p) @ map (\<lambda>e. CloseClient (re_client e)) (pub_retiredRedis p)"

definition retired_filters :: "(string \<times> 'w filter_instance) list \<Rightarrow> (string \<times> 'w filter_instance) list \<Rightarrow> 'w filter_instance list" where
  "retired_filters old next_fs = map snd (filter (\<lambda>(key, f). map_of next_fs key = None) old)"

definition retired_redis :: "(string \<times> redisEntry) list \<Rightarrow> (string \<times> redisEntry) list \<Rightarrow> redisEntry list" where
  "retired_redis old next_redis =
     map snd (filter (\<lambda>(name, e). map_option re_ptr (map_of next_redis name) \<noteq> Some (re_ptr e)) old)"

definition start_health :: "redisEntry \<Rightarrow> redisEntry" where
  "start_health e = (if rd_ActiveConnHealthCheck (re_cfg e) \<and> \<not> re_stopHealth e then e\<lparr>re_stopHealth := True\<rparr> else e)"

definition health_events :: "redisEntry list \<Rightarrow> (string \<times> redisEntry) list \<Rightarrow> event list" where
  "health_events retired next_redis =
     map (\<lambda>e. StopHealth (re_client e)) (filter re_stopHealth retired) @
     map (\<lambda>(name, e). StartHealth (re_client e))
       (filter (\<lambda>(name, e). rd_ActiveConnHealthCheck (re_cfg e) \<and> \<not> re_stopHealth e) next_redis)"

text \<open>\<open>rs\<close> and \<open>cs\<close> are the entries of the two maps of the configuration in the order Go iterates over them.\<close>

definition start_build :: "('w, 'x) manager \<Rightarrow> ('w, 'x) build" where
  "start_build m = \<lparr>bd_redis = [], bd_filters = [], bd_clients = [], bd_created = [], bd_next = mg_next m,
     bd_log = mg_log m, bd_world = mg_world m\<rparr>"

definition publish ::
  "Config \<Rightarrow> ('w, 'x) manager \<Rightarrow> (string \<times> ('w filter_instance \<times> bool) list) list \<Rightarrow> ('w, 'x) build \<Rightarrow>
   'w publication \<times> ('w, 'x) manager" where
  "publish cfg m chs b =
     (let retiredFilters = retired_filters (mg_filters m) (bd_filters b);
          retiredRedis = retired_redis (mg_redis m) (bd_redis b)
      in (\<lparr>pub_snapshot = NewSnapshot (Some cfg) (map_of (map (\<lambda>(n, ps). (n, chain_of ps)) chs)), pub_chains = chs,
           pub_retiredFilters = retiredFilters, pub_retiredRedis = retiredRedis\<rparr>,
          m\<lparr>mg_redis := map (\<lambda>(n, e). (n, start_health e)) (bd_redis b), mg_filters := bd_filters b, mg_ready := True,
            mg_next := bd_next b, mg_world := bd_world b, mg_log := bd_log b @ health_events retiredRedis (bd_redis b)\<rparr>))"

definition Apply ::
  "('w, 'x) manager_ops \<Rightarrow> (string \<times> RedisServiceConfig) list \<Rightarrow> (string \<times> FilterConfig list) list \<Rightarrow> Config \<Rightarrow>
   ('w, 'x) manager \<Rightarrow> (apply_error, 'w publication) result \<times> ('w, 'x) manager" where
  "Apply ops rs cs cfg m =
     (case dial_services ops m rs (start_build m) of
        (Some e, b) \<Rightarrow> (Err e, abort m b)
      | (None, b) \<Rightarrow>
          (case compile_chains ops m cs b of
             (Err e, b') \<Rightarrow> (Err e, abort m b')
           | (Ok chs, b') \<Rightarrow> (let (p, m') = publish cfg m chs b' in (Ok p, m'))))"

definition manager_Close :: "('w, 'x) manager \<Rightarrow> ('w, 'x) manager" where
  "manager_Close m =
     m\<lparr>mg_filters := [], mg_redis := [],
       mg_log := mg_log m @ closeFilters (map snd (mg_filters m)) @
         concat (map (\<lambda>(n, e). (if re_stopHealth e then [StopHealth (re_client e)] else []) @ [CloseClient (re_client e)])
           (mg_redis m))\<rparr>"

subsection \<open>What a log says\<close>

definition clients_opened :: "event list \<Rightarrow> nat multiset" where
  "clients_opened es = mset (concat (map (\<lambda>e. case e of OpenClient n \<Rightarrow> [n] | _ \<Rightarrow> []) es))"

definition clients_closed :: "event list \<Rightarrow> nat multiset" where
  "clients_closed es = mset (concat (map (\<lambda>e. case e of CloseClient n \<Rightarrow> [n] | _ \<Rightarrow> []) es))"

definition filters_opened :: "event list \<Rightarrow> nat multiset" where
  "filters_opened es = mset (concat (map (\<lambda>e. case e of OpenFilter n \<Rightarrow> [n] | _ \<Rightarrow> []) es))"

definition filters_closed :: "event list \<Rightarrow> nat multiset" where
  "filters_closed es = mset (concat (map (\<lambda>e. case e of CloseFilter n \<Rightarrow> [n] | _ \<Rightarrow> []) es))"

definition closers :: "'w filter_instance list \<Rightarrow> nat multiset" where
  "closers fs = mset (map fi_ptr (filter fi_closer fs))"

lemmas log_defs = clients_opened_def clients_closed_def filters_opened_def filters_closed_def

lemma log_append [simp]:
  "clients_opened (a @ b) = clients_opened a + clients_opened b" "clients_closed (a @ b) = clients_closed a + clients_closed b"
  "filters_opened (a @ b) = filters_opened a + filters_opened b" "filters_closed (a @ b) = filters_closed a + filters_closed b"
  by (simp_all add: log_defs)

lemma log_single [simp]:
  "clients_opened [] = {#}" "clients_closed [] = {#}" "filters_opened [] = {#}" "filters_closed [] = {#}"
  "clients_opened [OpenClient n] = {#n#}" "clients_closed [OpenClient n] = {#}" "filters_opened [OpenClient n] = {#}"
  "filters_closed [OpenClient n] = {#}"
  "clients_opened [OpenFilter n] = {#}" "clients_closed [OpenFilter n] = {#}" "filters_opened [OpenFilter n] = {#n#}"
  "filters_closed [OpenFilter n] = {#}"
  by (simp_all add: log_defs)

lemma log_closeFilters [simp]:
  "clients_opened (closeFilters fs) = {#}" "clients_closed (closeFilters fs) = {#}" "filters_opened (closeFilters fs) = {#}"
  "filters_closed (closeFilters fs) = closers fs"
  unfolding log_defs closeFilters_def closers_def by (induction fs) auto

lemma log_CloseClient [simp]:
  "clients_opened (map (\<lambda>x. CloseClient (g x)) xs) = {#}" "clients_closed (map (\<lambda>x. CloseClient (g x)) xs) = mset (map g xs)"
  "filters_opened (map (\<lambda>x. CloseClient (g x)) xs) = {#}" "filters_closed (map (\<lambda>x. CloseClient (g x)) xs) = {#}"
  unfolding log_defs by (induction xs) auto

lemma log_CloseClient_eta [simp]:
  "clients_opened (map CloseClient ns) = {#}" "clients_closed (map CloseClient ns) = mset ns"
  "filters_opened (map CloseClient ns) = {#}" "filters_closed (map CloseClient ns) = {#}"
  using log_CloseClient [of "\<lambda>n. n" ns] by simp_all

lemma log_health [simp]:
  "clients_opened (health_events r x) = {#}" "clients_closed (health_events r x) = {#}"
  "filters_opened (health_events r x) = {#}" "filters_closed (health_events r x) = {#}"
proof -
  have "concat (map h (map StopHealth' xs)) = []" if "\<And>y. h (StopHealth' y) = []" for h StopHealth' and xs :: "'z list"
    using that by (induction xs) auto
  then show "clients_opened (health_events r x) = {#}" "clients_closed (health_events r x) = {#}"
    "filters_opened (health_events r x) = {#}" "filters_closed (health_events r x) = {#}"
    by (auto simp: log_defs health_events_def)
qed

lemma closers_simps [simp]: "closers [] = {#}" "closers (a @ b) = closers a + closers b"
  by (simp_all add: closers_def)

lemma closers_single: "closers [f] = (if fi_closer f then {#fi_ptr f#} else {#})"
  by (simp add: closers_def)

subsection \<open>A failed reload\<close>

definition log_extends :: "('w, 'x) manager \<Rightarrow> ('w, 'x) build \<Rightarrow> bool" where
  "log_extends m b \<longleftrightarrow>
     clients_opened (bd_log b) = clients_opened (mg_log m) + mset (bd_clients b) \<and>
     clients_closed (bd_log b) = clients_closed (mg_log m) \<and>
     filters_opened (bd_log b) = filters_opened (mg_log m) + closers (bd_created b) \<and>
     filters_closed (bd_log b) = filters_closed (mg_log m)"

lemma dial_service_log: "log_extends m b \<Longrightarrow> log_extends m (snd (dial_service ops m name svc b))"
  by (auto simp: log_extends_def dial_service_def dial_new_def Let_def split: prod.splits sum.splits option.splits)

lemma dial_services_log:
  "log_extends m b \<Longrightarrow> dial_services ops m rs b = (e, b') \<Longrightarrow> log_extends m b'"
proof (induction rs arbitrary: b)
  case (Cons r rs)
  obtain name svc where r: "r = (name, svc)" by (cases r)
  obtain e1 b1 where d: "dial_service ops m name svc b = (e1, b1)" by fastforce
  with dial_service_log [OF Cons.prems(1), of ops name svc] have "log_extends m b1" by simp
  with Cons r d show ?case by (cases e1) auto
qed simp

lemma compile_filter_log: "log_extends m b \<Longrightarrow> log_extends m (snd (compile_filter ops m fc b))"
  by (auto simp: log_extends_def compile_filter_def Let_def closers_single split: prod.splits sum.splits option.splits)

lemma compile_chain_log:
  "log_extends m b \<Longrightarrow> compile_chain ops m nm i fcs b = (r, b') \<Longrightarrow> log_extends m b'"
proof (induction fcs arbitrary: b b' i r)
  case (Cons fc fcs)
  obtain r1 b1 where c: "compile_filter ops m fc b = (r1, b1)" by fastforce
  with compile_filter_log [OF Cons.prems(1), of ops fc] have "log_extends m b1" by simp
  with Cons c show ?case by (fastforce split: sum.splits prod.splits)
qed simp

lemma compile_chains_log:
  "log_extends m b \<Longrightarrow> compile_chains ops m cs b = (r, b') \<Longrightarrow> log_extends m b'"
proof (induction cs arbitrary: b b' r)
  case (Cons c cs)
  obtain nm fcs where c: "c = (nm, fcs)" by (cases c)
  obtain r1 b1 where d: "compile_chain ops m nm 0 fcs b = (r1, b1)" by fastforce
  with compile_chain_log [OF Cons.prems(1)] have "log_extends m b1" by blast
  with Cons c d show ?case by (fastforce split: sum.splits prod.splits)
qed simp

lemma Apply_cases:
  assumes "Apply ops rs cs cfg m = (r, m')"
  obtains (failed) e b where "r = Err e" "m' = abort m b" "log_extends m b"
  | (published) b1 chs b p where "r = Ok p" "dial_services ops m rs (start_build m) = (None, b1)"
      "compile_chains ops m cs b1 = (Ok chs, b)" "publish cfg m chs b = (p, m')" "log_extends m b"
proof -
  obtain e1 b1 where d: "dial_services ops m rs (start_build m) = (e1, b1)" by fastforce
  have "log_extends m (start_build m)" by (simp add: log_extends_def start_build_def)
  from dial_services_log [OF this d] have l1: "log_extends m b1" .
  obtain r2 b2 where c: "compile_chains ops m cs b1 = (r2, b2)" by fastforce
  from compile_chains_log [OF l1 c] have l2: "log_extends m b2" .
  show ?thesis
    using assms d c l1 l2 failed published
    by (cases e1; cases r2) (auto simp: Apply_def split: prod.splits)
qed

text \<open>C32: a reload is transactional. If \<^verbatim>\<open>Apply\<close> fails, at whatever step, the active policy is
  untouched and every client and every closable filter the attempt opened has been closed again,
  each exactly once, and nothing else has been closed.\<close>

theorem failed_apply_keeps_policy:
  assumes "Apply ops rs cs cfg m = (Err e, m')"
  shows "mg_redis m' = mg_redis m \<and> mg_filters m' = mg_filters m \<and> mg_ready m' = mg_ready m \<and>
    (\<exists>N K. clients_opened (mg_log m') = clients_opened (mg_log m) + N \<and> clients_closed (mg_log m') = clients_closed (mg_log m) + N \<and>
       filters_opened (mg_log m') = filters_opened (mg_log m) + K \<and> filters_closed (mg_log m') = filters_closed (mg_log m) + K)"
  using assms
proof (cases rule: Apply_cases)
  case (failed e' b)
  then show ?thesis
    by (intro conjI exI [of _ "mset (bd_clients b)"] exI [of _ "closers (bd_created b)"])
       (simp_all add: abort_def log_extends_def)
next
  case published
  then show ?thesis by simp
qed

subsection \<open>Resources over reloads\<close>

text \<open>The manager together with the registry's view of its publications. Publication \<open>i\<close> retires
  snapshot \<open>i\<close> and makes snapshot \<open>i + 1\<close> current; snapshot 0 is the empty one of a fresh
  registry. Streams hold snapshots, and the cleanup that comes with publication \<open>i\<close> runs once, when nobody holds
  snapshot \<open>i\<close>.\<close>

record ('w, 'x) policy_sys =
  ps_manager :: "('w, 'x) manager"
  ps_pubs :: "'w publication list"
  ps_ran :: "nat set"
  ps_held :: "nat \<Rightarrow> nat"

definition policy_init :: "'x \<Rightarrow> ('w, 'x) policy_sys" where
  "policy_init x = \<lparr>ps_manager = NewManager x, ps_pubs = [], ps_ran = {}, ps_held = (\<lambda>_. 0)\<rparr>"

definition iterates :: "Config \<Rightarrow> (string \<times> RedisServiceConfig) list \<Rightarrow> (string \<times> FilterConfig list) list \<Rightarrow> bool" where
  "iterates cfg rs cs \<longleftrightarrow> distinct (map fst rs) \<and> distinct (map fst cs) \<and> map_of rs = cfg_Redis cfg \<and> map_of cs = cfg_Chains cfg"

inductive policy_step :: "('w, 'x) manager_ops \<Rightarrow> ('w, 'x) policy_sys \<Rightarrow> ('w, 'x) policy_sys \<Rightarrow> bool" for ops where
  applied: "iterates cfg rs cs \<Longrightarrow> Apply ops rs cs cfg (ps_manager s) = (Ok p, m') \<Longrightarrow>
    policy_step ops s (s\<lparr>ps_manager := m', ps_pubs := ps_pubs s @ [p]\<rparr>)"
| rejected: "iterates cfg rs cs \<Longrightarrow> Apply ops rs cs cfg (ps_manager s) = (Err e, m') \<Longrightarrow>
    policy_step ops s (s\<lparr>ps_manager := m'\<rparr>)"
| acquired: "policy_step ops s (s\<lparr>ps_held := (ps_held s)(length (ps_pubs s) := Suc (ps_held s (length (ps_pubs s))))\<rparr>)"
| released: "ps_held s i > 0 \<Longrightarrow> policy_step ops s (s\<lparr>ps_held := (ps_held s)(i := ps_held s i - 1)\<rparr>)"
| cleaned: "i < length (ps_pubs s) \<Longrightarrow> i \<notin> ps_ran s \<Longrightarrow> ps_held s i = 0 \<Longrightarrow>
    policy_step ops s (s\<lparr>ps_ran := insert i (ps_ran s),
      ps_manager := (ps_manager s)\<lparr>mg_log := mg_log (ps_manager s) @ cleanup (ps_pubs s ! i)\<rparr>\<rparr>)"
| closed: "policy_step ops s (s\<lparr>ps_manager := manager_Close (ps_manager s)\<rparr>)"

inductive policy_reachable :: "('w, 'x) manager_ops \<Rightarrow> ('w, 'x) policy_sys \<Rightarrow> bool" for ops where
  init: "policy_reachable ops (policy_init x)"
| step: "policy_reachable ops s \<Longrightarrow> policy_step ops s s' \<Longrightarrow> policy_reachable ops s'"

text \<open>The resources of the active policy and those retired whose cleanup is still to run.\<close>

definition active_clients :: "('w, 'x) manager \<Rightarrow> nat multiset" where
  "active_clients m = mset (map (re_client \<circ> snd) (mg_redis m))"

definition active_filters :: "('w, 'x) manager \<Rightarrow> nat multiset" where
  "active_filters m = closers (map snd (mg_filters m))"

definition pending_clients :: "('w, 'x) policy_sys \<Rightarrow> nat multiset" where
  "pending_clients s = (\<Sum>i \<in> {..<length (ps_pubs s)} - ps_ran s. mset (map re_client (pub_retiredRedis (ps_pubs s ! i))))"

definition pending_filters :: "('w, 'x) policy_sys \<Rightarrow> nat multiset" where
  "pending_filters s = (\<Sum>i \<in> {..<length (ps_pubs s)} - ps_ran s. closers (pub_retiredFilters (ps_pubs s ! i)))"

lemma mset_filter_gain:
  assumes "distinct (map fst xs)" "map_of xs k = Some v" "\<not> P (k, v)" "P' (k, v)" "\<And>j u. j \<noteq> k \<Longrightarrow> P' (j, u) = P (j, u)"
  shows "mset (filter P' xs) = add_mset (k, v) (mset (filter P xs))"
  using assms(1,2)
proof (induction xs)
  case (Cons x xs)
  obtain j u where x: "x = (j, u)" by (cases x)
  show ?case
  proof (cases "j = k")
    case True
    then have "k \<notin> fst ` set xs" "u = v" using Cons.prems x by auto
    moreover from this have "filter P' xs = filter P xs"
      by (intro filter_cong refl) (metis assms(5) image_eqI prod.collapse)
    ultimately show ?thesis using x True assms(3,4) by simp
  next
    case False
    then show ?thesis using Cons x assms(5) by auto
  qed
qed simp

lemma mset_filter_same:
  assumes "\<And>v. map_of xs k = Some v \<Longrightarrow> P' (k, v) = P (k, v)" "\<And>j u. j \<noteq> k \<Longrightarrow> P' (j, u) = P (j, u)" "distinct (map fst xs)"
  shows "filter P' xs = filter P xs"
proof (intro filter_cong refl)
  fix x assume "x \<in> set xs"
  moreover obtain j u where "x = (j, u)" by (cases x)
  ultimately show "P' x = P x" using assms by (cases "j = k") auto
qed

lemma mset_update_new: "k \<notin> fst ` set xs \<Longrightarrow> mset (AList.update k v xs) = add_mset (k, v) (mset xs)"
  by (induction xs) auto

lemma update_present: "map_of xs k = Some v \<Longrightarrow> AList.update k v xs = xs"
  by (induction xs) (auto split: if_splits)

definition kept_redis :: "(string \<times> redisEntry) list \<Rightarrow> (string \<times> redisEntry) list \<Rightarrow> (string \<times> redisEntry) list" where
  "kept_redis old next_redis = filter (\<lambda>(name, e). map_option re_ptr (map_of next_redis name) = Some (re_ptr e)) old"

definition kept_filters :: "(string \<times> 'w filter_instance) list \<Rightarrow> (string \<times> 'w filter_instance) list \<Rightarrow> (string \<times> 'w filter_instance) list" where
  "kept_filters old next_fs = filter (\<lambda>(key, f). map_of next_fs key \<noteq> None) old"

text \<open>What is well-formed about a manager.\<close>

definition manager_ok :: "('w, 'x) manager \<Rightarrow> bool" where
  "manager_ok m \<longleftrightarrow> distinct (map fst (mg_redis m)) \<and> distinct (map fst (mg_filters m)) \<and>
     (\<forall>(n, e) \<in> set (mg_redis m). re_ptr e < mg_next m \<and> re_ptr e = Suc (re_client e))"

definition build_ok :: "('w, 'x) manager \<Rightarrow> ('w, 'x) build \<Rightarrow> bool" where
  "build_ok m b \<longleftrightarrow> mg_next m \<le> bd_next b \<and> distinct (map fst (bd_redis b)) \<and> distinct (map fst (bd_filters b)) \<and>
     (\<forall>(n, e) \<in> set (bd_redis b). re_ptr e < bd_next b \<and> re_ptr e = Suc (re_client e)) \<and>
     mset (map (re_client \<circ> snd) (bd_redis b)) = mset (map (re_client \<circ> snd) (kept_redis (mg_redis m) (bd_redis b))) + mset (bd_clients b) \<and>
     mset (map snd (bd_filters b)) = mset (map snd (kept_filters (mg_filters m) (bd_filters b))) + mset (bd_created b)"

lemma start_build_ok: "build_ok m (start_build m)"
  by (simp add: build_ok_def start_build_def kept_redis_def kept_filters_def case_prod_unfold)

lemma dial_new_ok:
  assumes "build_ok m b" "manager_ok m" "name \<notin> fst ` set (bd_redis b)"
  shows "build_ok m (snd (dial_new ops m name svc b))"
proof -
  obtain r x where r: "mo_newRedis ops (mg_ready m \<and> rd_StartupMaxElapsedTimeDuration svc \<le> 0 \<and> mg_ReloadDialTimeout m > 0) name svc (bd_world b) = (r, x)"
    by fastforce
  show ?thesis
  proof (cases r)
    case (Inl e)
    with assms r show ?thesis by (simp add: dial_new_def build_ok_def)
  next
    case (Inr u)
    let ?e = "new_entry svc (bd_next b)"
    let ?xs = "AList.update name ?e (bd_redis b)"
    have k: "kept_redis (mg_redis m) ?xs = kept_redis (mg_redis m) (bd_redis b)"
      unfolding kept_redis_def
    proof (rule mset_filter_same [of _ name])
      fix v assume "map_of (mg_redis m) name = Some v"
      with assms(1,2) have "re_ptr v < bd_next b" by (fastforce simp: build_ok_def manager_ok_def dest: map_of_SomeD)
      moreover have "map_of (bd_redis b) name = None" using assms(3) by (simp add: map_of_eq_None_iff)
      ultimately show "(case (name, v) of (n, e) \<Rightarrow> map_option re_ptr (map_of ?xs n) = Some (re_ptr e)) =
          (case (name, v) of (n, e) \<Rightarrow> map_option re_ptr (map_of (bd_redis b) n) = Some (re_ptr e))"
        by (simp add: update_conv' new_entry_def)
    qed (use assms(2) in \<open>simp_all add: update_conv' manager_ok_def\<close>)
    have xs: "\<forall>(n, e) \<in> set ?xs. re_ptr e < bd_next b + 2 \<and> re_ptr e = Suc (re_client e)"
    proof clarify
      fix n e assume "(n, e) \<in> set ?xs"
      moreover have "set_mset (mset ?xs) = insert (name, ?e) (set (bd_redis b))"
        using mset_update_new [OF assms(3)] by simp
      ultimately consider "e = ?e" | "(n, e) \<in> set (bd_redis b)" by auto
      then show "re_ptr e < bd_next b + 2 \<and> re_ptr e = Suc (re_client e)"
        using assms(1) by cases (auto simp: new_entry_def build_ok_def)
    qed
    have "mset (map (re_client \<circ> snd) ?xs) = add_mset (bd_next b) (mset (map (re_client \<circ> snd) (bd_redis b)))"
      using arg_cong [OF mset_update_new [OF assms(3)], of "image_mset (re_client \<circ> snd)"] by (simp add: new_entry_def)
    with assms Inr r k xs show ?thesis
      by (simp add: dial_new_def build_ok_def Let_def AList.distinct_update)
  qed
qed

lemma dial_service_ok:
  assumes "build_ok m b" "manager_ok m" "name \<notin> fst ` set (bd_redis b)"
  shows "build_ok m (snd (dial_service ops m name svc b))"
proof (cases "\<exists>old. map_of (mg_redis m) name = Some old \<and> re_cfg old = svc")
  case True
  then obtain old where o: "map_of (mg_redis m) name = Some old" "re_cfg old = svc" by blast
  let ?xs = "AList.update name old (bd_redis b)"
  have n: "map_of (bd_redis b) name = None" using assms(3) by (simp add: map_of_eq_None_iff)
  have "mset (kept_redis (mg_redis m) ?xs) = add_mset (name, old) (mset (kept_redis (mg_redis m) (bd_redis b)))"
    unfolding kept_redis_def
    by (rule mset_filter_gain) (use assms(2) o n in \<open>simp_all add: update_conv' manager_ok_def\<close>)
  from arg_cong [OF this, of "image_mset (re_client \<circ> snd)"]
  have "mset (map (re_client \<circ> snd) (kept_redis (mg_redis m) ?xs)) =
      add_mset (re_client old) (mset (map (re_client \<circ> snd) (kept_redis (mg_redis m) (bd_redis b))))" by simp
  moreover have u: "mset ?xs = add_mset (name, old) (mset (bd_redis b))"
    by (rule mset_update_new [OF assms(3)])
  from arg_cong [OF u, of "image_mset (re_client \<circ> snd)"]
  have "mset (map (re_client \<circ> snd) ?xs) = add_mset (re_client old) (mset (map (re_client \<circ> snd) (bd_redis b)))" by simp
  moreover have "\<forall>(n, e) \<in> set ?xs. re_ptr e < bd_next b \<and> re_ptr e = Suc (re_client e)"
    using assms(1,2) o(1) arg_cong [OF u, of set_mset]
    by (fastforce simp: build_ok_def manager_ok_def dest: map_of_SomeD)
  ultimately show ?thesis
    using assms(1) o by (simp add: dial_service_def build_ok_def AList.distinct_update)
next
  case False
  then have "dial_service ops m name svc b = dial_new ops m name svc b"
    by (auto simp: dial_service_def split: option.splits)
  with dial_new_ok [OF assms] show ?thesis by simp
qed

lemma dial_service_keys:
  assumes "dial_service ops m name svc b = (e, b')"
  shows "fst ` set (bd_redis b') \<subseteq> insert name (fst ` set (bd_redis b))"
proof -
  have "bd_redis b' = bd_redis b \<or> (\<exists>v. bd_redis b' = AList.update name v (bd_redis b))"
    using assms by (auto simp: dial_service_def dial_new_def Let_def split: option.splits sum.splits prod.splits if_splits)
  then show ?thesis by (elim disjE exE) (simp_all add: AList.dom_update subset_insertI)
qed

lemma dial_services_ok:
  "build_ok m b \<Longrightarrow> manager_ok m \<Longrightarrow> distinct (map fst rs) \<Longrightarrow> fst ` set rs \<inter> fst ` set (bd_redis b) = {} \<Longrightarrow>
   dial_services ops m rs b = (e, b') \<Longrightarrow> build_ok m b'"
proof (induction rs arbitrary: b)
  case (Cons r rs)
  obtain name svc where r: "r = (name, svc)" by (cases r)
  obtain e1 b1 where d: "dial_service ops m name svc b = (e1, b1)" by fastforce
  have "build_ok m b1" using dial_service_ok [OF Cons.prems(1,2), of name ops svc] Cons.prems(4) r d by auto
  moreover have "fst ` set rs \<inter> fst ` set (bd_redis b1) = {}"
  proof -
    have "name \<notin> fst ` set rs" "fst ` set rs \<inter> fst ` set (bd_redis b) = {}" using Cons.prems(3,4) r by auto
    with dial_service_keys [OF d] show ?thesis by blast
  qed
  moreover have "distinct (map fst rs)" using Cons.prems(3) by simp
  ultimately show ?case
    using Cons.IH [of b1] Cons.prems(2,5) r d by (cases e1) simp_all
qed simp

lemma compile_filter_ok:
  assumes "build_ok m b" "manager_ok m"
  shows "build_ok m (snd (compile_filter ops m fc b))"
proof (cases "filterKey ops fc (bd_redis b)")
  case (Inl e)
  with assms show ?thesis by (simp add: compile_filter_def)
next
  case (Inr key)
  show ?thesis
  proof (cases "map_of (bd_filters b) key")
    case (Some f)
    with assms Inr show ?thesis by (simp add: compile_filter_def update_present)
  next
    case None
    then have k: "key \<notin> fst ` set (bd_filters b)" by (simp add: map_of_eq_None_iff)
    have u: "mset (map snd (AList.update key f (bd_filters b))) = add_mset f (mset (map snd (bd_filters b)))" for f
      using arg_cong [OF mset_update_new [OF k], of "image_mset snd"] by simp
    show ?thesis
    proof (cases "map_of (mg_filters m) key")
      case (Some f)
      have "mset (kept_filters (mg_filters m) (AList.update key f (bd_filters b))) =
          add_mset (key, f) (mset (kept_filters (mg_filters m) (bd_filters b)))"
        unfolding kept_filters_def
        by (rule mset_filter_gain) (use assms(2) Some None in \<open>simp_all add: update_conv' manager_ok_def\<close>)
      from arg_cong [OF this, of "image_mset snd"] assms(1) Inr None Some u show ?thesis
        by (simp add: compile_filter_def build_ok_def AList.distinct_update)
    next
      case old: None
      have "kept_filters (mg_filters m) (AList.update key f (bd_filters b)) = kept_filters (mg_filters m) (bd_filters b)" for f
        unfolding kept_filters_def
        by (rule mset_filter_same [of _ key]) (use assms(2) old in \<open>simp_all add: update_conv' manager_ok_def\<close>)
      with assms(1) Inr None old u show ?thesis
        by (auto simp: compile_filter_def build_ok_def AList.distinct_update Let_def split: sum.splits prod.splits)
    qed
  qed
qed

lemma compile_chain_ok:
  "build_ok m b \<Longrightarrow> manager_ok m \<Longrightarrow> compile_chain ops m nm i fcs b = (r, b') \<Longrightarrow> build_ok m b'"
proof (induction fcs arbitrary: b b' i r)
  case (Cons fc fcs)
  obtain r1 b1 where c: "compile_filter ops m fc b = (r1, b1)" by fastforce
  with compile_filter_ok [OF Cons.prems(1,2), of ops fc] have "build_ok m b1" by simp
  with Cons c show ?case by (fastforce split: sum.splits prod.splits)
qed simp

lemma compile_chains_ok:
  "build_ok m b \<Longrightarrow> manager_ok m \<Longrightarrow> compile_chains ops m cs b = (r, b') \<Longrightarrow> build_ok m b'"
proof (induction cs arbitrary: b b' r)
  case (Cons c cs)
  obtain nm fcs where c: "c = (nm, fcs)" by (cases c)
  obtain r1 b1 where d: "compile_chain ops m nm 0 fcs b = (r1, b1)" by fastforce
  with compile_chain_ok [OF Cons.prems(1,2)] have "build_ok m b1" by blast
  with Cons c d show ?case by (fastforce split: sum.splits prod.splits)
qed simp

lemma retired_or_kept:
  "mset (map (re_client \<circ> snd) (kept_redis old nr)) + mset (map re_client (retired_redis old nr)) = mset (map (re_client \<circ> snd) old)"
  "closers (map snd (kept_filters fs nf)) + closers (retired_filters fs nf) = closers (map snd fs)"
proof -
  show "mset (map (re_client \<circ> snd) (kept_redis old nr)) + mset (map re_client (retired_redis old nr)) = mset (map (re_client \<circ> snd) old)"
    unfolding retired_redis_def kept_redis_def by (induction old) auto
  show "closers (map snd (kept_filters fs nf)) + closers (retired_filters fs nf) = closers (map snd fs)"
    unfolding closers_def retired_filters_def kept_filters_def by (induction fs) auto
qed

lemma closers_mset: "mset a = mset b + mset c \<Longrightarrow> closers a = closers b + closers c"
proof -
  assume "mset a = mset b + mset c"
  then have "mset (filter fi_closer a) = mset (filter fi_closer b) + mset (filter fi_closer c)" by simp
  then show ?thesis by (simp add: closers_def)
qed

text \<open>Every pointer is handed out once.\<close>

definition log_fresh :: "event list \<Rightarrow> nat \<Rightarrow> bool" where
  "log_fresh es n \<longleftrightarrow>
     (\<forall>i. count (clients_opened es) i \<le> 1 \<and> count (filters_opened es) i \<le> 1) \<and>
     (\<forall>i. i \<ge> n \<longrightarrow> count (clients_opened es) i = 0 \<and> count (filters_opened es) i = 0)"

definition build_fresh :: "('w, 'x) build \<Rightarrow> bool" where
  "build_fresh b \<longleftrightarrow> log_fresh (bd_log b) (bd_next b)"

lemma dial_service_fresh: "build_fresh b \<Longrightarrow> dial_service ops m name svc b = (e, b') \<Longrightarrow> build_fresh b'"
  by (auto simp: build_fresh_def log_fresh_def dial_service_def dial_new_def Let_def
      split: option.splits sum.splits prod.splits if_splits)

lemma dial_services_fresh: "build_fresh b \<Longrightarrow> dial_services ops m rs b = (e, b') \<Longrightarrow> build_fresh b'"
proof (induction rs arbitrary: b)
  case (Cons r rs)
  obtain name svc where r: "r = (name, svc)" by (cases r)
  obtain e1 b1 where d: "dial_service ops m name svc b = (e1, b1)" by fastforce
  from dial_service_fresh [OF Cons.prems(1) d] Cons.IH [of b1] Cons.prems(2) r d show ?case
    by (cases e1) simp_all
qed simp

lemma compile_filter_fresh: "build_fresh b \<Longrightarrow> compile_filter ops m fc b = (r, b') \<Longrightarrow> build_fresh b'"
  by (auto simp: build_fresh_def log_fresh_def compile_filter_def Let_def split: option.splits sum.splits prod.splits if_splits)

lemma compile_chain_fresh: "build_fresh b \<Longrightarrow> compile_chain ops m nm i fcs b = (r, b') \<Longrightarrow> build_fresh b'"
proof (induction fcs arbitrary: b b' i r)
  case (Cons fc fcs)
  obtain r1 b1 where c: "compile_filter ops m fc b = (r1, b1)" by fastforce
  have "build_fresh b1" by (rule compile_filter_fresh [OF Cons.prems(1) c])
  with Cons c show ?case by (fastforce split: sum.splits prod.splits)
qed simp

lemma compile_chains_fresh: "build_fresh b \<Longrightarrow> compile_chains ops m cs b = (r, b') \<Longrightarrow> build_fresh b'"
proof (induction cs arbitrary: b b' r)
  case (Cons c cs)
  obtain nm fcs where c: "c = (nm, fcs)" by (cases c)
  obtain r1 b1 where d: "compile_chain ops m nm 0 fcs b = (r1, b1)" by fastforce
  have "build_fresh b1" by (rule compile_chain_fresh [OF Cons.prems(1) d])
  with Cons c d show ?case by (fastforce split: sum.splits prod.splits)
qed simp

text \<open>The ledger: whatever was opened is in the active policy, is waiting for its snapshot to be
  unused, or has been closed.\<close>

definition ledger :: "('w, 'x) policy_sys \<Rightarrow> bool" where
  "ledger s \<longleftrightarrow> (let m = ps_manager s in
     clients_opened (mg_log m) = active_clients m + pending_clients s + clients_closed (mg_log m) \<and>
     filters_opened (mg_log m) = active_filters m + pending_filters s + filters_closed (mg_log m))"

definition policy_inv :: "('w, 'x) policy_sys \<Rightarrow> bool" where
  "policy_inv s \<longleftrightarrow> manager_ok (ps_manager s) \<and> log_fresh (mg_log (ps_manager s)) (mg_next (ps_manager s)) \<and>
     ps_ran s \<subseteq> {..<length (ps_pubs s)} \<and> ledger s"

lemma pending_publish:
  assumes "ps_ran s \<subseteq> {..<length (ps_pubs s)}"
  shows "pending_clients (s\<lparr>ps_manager := m', ps_pubs := ps_pubs s @ [p]\<rparr>) = pending_clients s + mset (map re_client (pub_retiredRedis p))"
    "pending_filters (s\<lparr>ps_manager := m', ps_pubs := ps_pubs s @ [p]\<rparr>) = pending_filters s + closers (pub_retiredFilters p)"
proof -
  let ?n = "length (ps_pubs s)"
  have "{..<Suc ?n} - ps_ran s = insert ?n ({..<?n} - ps_ran s)" using assms by auto
  then have "(\<Sum>i \<in> {..<Suc ?n} - ps_ran s. g ((ps_pubs s @ [p]) ! i)) = (\<Sum>i \<in> {..<?n} - ps_ran s. g (ps_pubs s ! i)) + g p"
    for g :: "'a publication \<Rightarrow> nat multiset"
    by (simp add: nth_append add.commute)
  from this [of "\<lambda>p. mset (map re_client (pub_retiredRedis p))"] this [of "\<lambda>p. closers (pub_retiredFilters p)"]
  show "pending_clients (s\<lparr>ps_manager := m', ps_pubs := ps_pubs s @ [p]\<rparr>) = pending_clients s + mset (map re_client (pub_retiredRedis p))"
    "pending_filters (s\<lparr>ps_manager := m', ps_pubs := ps_pubs s @ [p]\<rparr>) = pending_filters s + closers (pub_retiredFilters p)"
    by (simp_all add: pending_clients_def pending_filters_def)
qed

lemma pending_clean:
  assumes "i < length (ps_pubs s)" "i \<notin> ps_ran s"
  shows "pending_clients s = pending_clients (s\<lparr>ps_ran := insert i (ps_ran s), ps_manager := m'\<rparr>) + mset (map re_client (pub_retiredRedis (ps_pubs s ! i)))"
    "pending_filters s = pending_filters (s\<lparr>ps_ran := insert i (ps_ran s), ps_manager := m'\<rparr>) + closers (pub_retiredFilters (ps_pubs s ! i))"
proof -
  let ?A = "{..<length (ps_pubs s)}"
  have "?A - ps_ran s = insert i (?A - insert i (ps_ran s))" using assms by auto
  then have "(\<Sum>j \<in> ?A - ps_ran s. g j) = (\<Sum>j \<in> insert i (?A - insert i (ps_ran s)). g j)" for g :: "nat \<Rightarrow> nat multiset"
    by (rule arg_cong)
  also have "\<dots> g = (\<Sum>j \<in> ?A - insert i (ps_ran s). g j) + g i" for g :: "nat \<Rightarrow> nat multiset"
    by (subst sum.insert) (auto simp: add.commute)
  finally show "pending_clients s = pending_clients (s\<lparr>ps_ran := insert i (ps_ran s), ps_manager := m'\<rparr>) + mset (map re_client (pub_retiredRedis (ps_pubs s ! i)))"
    "pending_filters s = pending_filters (s\<lparr>ps_ran := insert i (ps_ran s), ps_manager := m'\<rparr>) + closers (pub_retiredFilters (ps_pubs s ! i))"
    by (simp_all add: pending_clients_def pending_filters_def)
qed

lemma ledger_move:
  fixes a :: "nat multiset"
  assumes "o1 = a + p + c" "a' + r = a + n"
  shows "o1 + n = a' + (p + r) + c"
proof -
  have "o1 + n = (a + n) + p + c" using assms(1) by (simp add: ac_simps)
  then show ?thesis using assms(2) by (metis add.assoc add.commute)
qed

lemma Apply_build:
  assumes "iterates cfg rs cs" "manager_ok m" "log_fresh (mg_log m) (mg_next m)"
    "dial_services ops m rs (start_build m) = (e, b1)"
  shows "build_ok m b1 \<and> build_fresh b1"
proof -
  have "fst ` set rs \<inter> fst ` set (bd_redis (start_build m)) = {}" "build_fresh (start_build m)"
    using assms(3) by (simp_all add: start_build_def build_fresh_def)
  with assms dial_services_ok [OF start_build_ok] dial_services_fresh show ?thesis
    unfolding iterates_def by blast
qed

lemma policy_inv_applied:
  assumes inv: "policy_inv s" and it: "iterates cfg rs cs" and ap: "Apply ops rs cs cfg (ps_manager s) = (Ok p, m')"
  shows "policy_inv (s\<lparr>ps_manager := m', ps_pubs := ps_pubs s @ [p]\<rparr>)"
  using ap
proof (cases rule: Apply_cases)
  case (published b1 chs b p')
  let ?m = "ps_manager s"
  have m: "manager_ok ?m" "log_fresh (mg_log ?m) (mg_next ?m)" using inv by (simp_all add: policy_inv_def)
  from Apply_build [OF it m published(2)] have "build_ok ?m b1" "build_fresh b1" by simp_all
  with published(3) m compile_chains_ok compile_chains_fresh have b: "build_ok ?m b" "build_fresh b" by blast+
  from published(1,4) have p: "pub_retiredRedis p = retired_redis (mg_redis ?m) (bd_redis b)"
    "pub_retiredFilters p = retired_filters (mg_filters ?m) (bd_filters b)"
    and m': "mg_redis m' = map (\<lambda>(n, e). (n, start_health e)) (bd_redis b)" "mg_filters m' = bd_filters b" "mg_next m' = bd_next b"
    "mg_log m' = bd_log b @ health_events (retired_redis (mg_redis ?m) (bd_redis b)) (bd_redis b)"
    by (auto simp: publish_def Let_def)
  have hc: "re_client (start_health e) = re_client e" "re_ptr (start_health e) = re_ptr e" for e
    by (simp_all add: start_health_def)
  have keys: "map fst (mg_redis m') = map fst (bd_redis b)" by (simp add: m' case_prod_unfold)
  have "\<forall>(n, e) \<in> set (mg_redis m'). re_ptr e < mg_next m' \<and> re_ptr e = Suc (re_client e)"
    using b(1) by (auto simp: build_ok_def m' hc)
  with keys b(1) have ok: "manager_ok m'" unfolding manager_ok_def build_ok_def m'(2) by simp
  have "active_clients m' = mset (map (re_client \<circ> snd) (bd_redis b))"
    by (simp add: active_clients_def m' case_prod_unfold hc o_def)
  also have "\<dots> = mset (map (re_client \<circ> snd) (kept_redis (mg_redis ?m) (bd_redis b))) + mset (bd_clients b)"
    using b(1) by (simp add: build_ok_def)
  finally have "active_clients m' + mset (map re_client (pub_retiredRedis p)) =
      (mset (map (re_client \<circ> snd) (kept_redis (mg_redis ?m) (bd_redis b))) + mset (map re_client (pub_retiredRedis p))) + mset (bd_clients b)"
    by (simp add: ac_simps)
  with retired_or_kept(1) [of "mg_redis ?m" "bd_redis b"]
  have c: "active_clients m' + mset (map re_client (pub_retiredRedis p)) = active_clients ?m + mset (bd_clients b)"
    by (simp only: active_clients_def p)
  have "closers (map snd (bd_filters b)) = closers (map snd (kept_filters (mg_filters ?m) (bd_filters b))) + closers (bd_created b)"
    using b(1) by (intro closers_mset) (simp add: build_ok_def)
  then have "active_filters m' + closers (pub_retiredFilters p) =
      (closers (map snd (kept_filters (mg_filters ?m) (bd_filters b))) + closers (pub_retiredFilters p)) + closers (bd_created b)"
    by (simp add: active_filters_def m' ac_simps)
  with retired_or_kept(2) [of "mg_filters ?m" "bd_filters b"]
  have f: "active_filters m' + closers (pub_retiredFilters p) = active_filters ?m + closers (bd_created b)"
    by (simp only: active_filters_def p)
  have "ps_ran s \<subseteq> {..<length (ps_pubs s)}" "ledger s" using inv by (simp_all add: policy_inv_def)
  with pending_publish [of s p m'] published(5) ledger_move [OF _ c] ledger_move [OF _ f]
  have "ledger (s\<lparr>ps_manager := m', ps_pubs := ps_pubs s @ [p]\<rparr>)"
    by (simp add: ledger_def Let_def log_extends_def m')
  with ok inv b(2) show ?thesis
    by (auto simp: policy_inv_def build_fresh_def log_fresh_def m')
qed simp

lemma policy_inv_rejected:
  assumes "policy_inv s" "iterates cfg rs cs" "Apply ops rs cs cfg (ps_manager s) = (Err e, m')"
  shows "policy_inv (s\<lparr>ps_manager := m'\<rparr>)"
proof -
  let ?m = "ps_manager s"
  have m: "manager_ok ?m" "log_fresh (mg_log ?m) (mg_next ?m)" using assms(1) by (simp_all add: policy_inv_def)
  obtain e1 b1 where d: "dial_services ops ?m rs (start_build ?m) = (e1, b1)" by fastforce
  from Apply_build [OF assms(2) m d] have b1: "build_ok ?m b1" "build_fresh b1" by simp_all
  obtain r2 b2 where c: "compile_chains ops ?m cs b1 = (r2, b2)" by fastforce
  from b1 m c compile_chains_ok compile_chains_fresh have b2: "build_ok ?m b2" "build_fresh b2" by blast+
  have "log_extends ?m (start_build ?m)" by (simp add: log_extends_def start_build_def)
  from dial_services_log [OF this d] compile_chains_log [OF _ c] have l: "log_extends ?m b1" "log_extends ?m b2" by blast+
  obtain b where b: "m' = abort ?m b" "build_ok ?m b" "build_fresh b" "log_extends ?m b"
    using assms(3) d c b1 b2 l by (cases e1; cases r2) (auto simp: Apply_def split: prod.splits)
  have "ledger (s\<lparr>ps_manager := m'\<rparr>)"
    using assms(1) b(4) unfolding b(1)
    by (simp add: policy_inv_def ledger_def Let_def abort_def log_extends_def active_clients_def active_filters_def
        pending_clients_def pending_filters_def)
  moreover have "mg_next ?m \<le> bd_next b" using b(2) by (simp add: build_ok_def)
  then have "manager_ok m'" using m(1) unfolding b(1) by (fastforce simp: manager_ok_def abort_def)
  moreover have "log_fresh (mg_log m') (mg_next m')"
    using b(3) unfolding b(1) by (simp add: build_fresh_def log_fresh_def abort_def)
  ultimately show ?thesis using assms(1) by (simp add: policy_inv_def)
qed

lemma policy_inv_cleaned:
  assumes "policy_inv s" "i < length (ps_pubs s)" "i \<notin> ps_ran s"
  shows "policy_inv (s\<lparr>ps_ran := insert i (ps_ran s),
    ps_manager := (ps_manager s)\<lparr>mg_log := mg_log (ps_manager s) @ cleanup (ps_pubs s ! i)\<rparr>\<rparr>)"
proof -
  let ?m = "(ps_manager s)\<lparr>mg_log := mg_log (ps_manager s) @ cleanup (ps_pubs s ! i)\<rparr>"
  have "ledger (s\<lparr>ps_ran := insert i (ps_ran s), ps_manager := ?m\<rparr>)"
    using assms(1) pending_clean [OF assms(2,3), of ?m]
    by (simp add: policy_inv_def ledger_def Let_def cleanup_def active_clients_def active_filters_def add.assoc)
  then show ?thesis
    using assms by (simp add: policy_inv_def manager_ok_def log_fresh_def cleanup_def)
qed

lemma log_Close [simp]:
  fixes m :: "('w, 'x) manager"
  defines "es \<equiv> concat (map (\<lambda>(n, e). (if re_stopHealth e then [StopHealth (re_client e)] else []) @ [CloseClient (re_client e)]) (mg_redis m))"
  shows "clients_opened es = {#}" "clients_closed es = active_clients m" "filters_opened es = {#}" "filters_closed es = {#}"
proof -
  have "clients_opened (concat (map h rs)) = {#} \<and> clients_closed (concat (map h rs)) = mset (map (re_client \<circ> snd) rs) \<and>
      filters_opened (concat (map h rs)) = {#} \<and> filters_closed (concat (map h rs)) = {#}"
    if "h = (\<lambda>(n, e). (if re_stopHealth e then [StopHealth (re_client e)] else []) @ [CloseClient (re_client e)])"
    for rs :: "(string \<times> redisEntry) list" and h
    unfolding that log_defs by (induction rs) auto
  from this [OF refl, of "mg_redis m"]
  show "clients_opened es = {#}" "clients_closed es = active_clients m" "filters_opened es = {#}" "filters_closed es = {#}"
    by (simp_all add: es_def active_clients_def)
qed

lemma policy_inv_closed:
  assumes "policy_inv s"
  shows "policy_inv (s\<lparr>ps_manager := manager_Close (ps_manager s)\<rparr>)"
proof -
  let ?m = "ps_manager s"
  have "clients_opened (mg_log (manager_Close ?m)) = clients_opened (mg_log ?m)"
    "filters_opened (mg_log (manager_Close ?m)) = filters_opened (mg_log ?m)"
    "clients_closed (mg_log (manager_Close ?m)) = clients_closed (mg_log ?m) + active_clients ?m"
    "filters_closed (mg_log (manager_Close ?m)) = filters_closed (mg_log ?m) + active_filters ?m"
    by (simp_all add: manager_Close_def active_filters_def)
  moreover have "active_clients (manager_Close ?m) = {#}" "active_filters (manager_Close ?m) = {#}"
    "manager_ok (manager_Close ?m)" "mg_next (manager_Close ?m) = mg_next ?m"
    by (simp_all add: manager_Close_def active_clients_def active_filters_def manager_ok_def)
  moreover from calculation assms have "ledger (s\<lparr>ps_manager := manager_Close ?m\<rparr>)"
    by (simp add: policy_inv_def ledger_def Let_def pending_clients_def pending_filters_def ac_simps)
  ultimately show ?thesis
    using assms by (simp add: policy_inv_def log_fresh_def)
qed

lemma policy_inv_held: "policy_inv s \<Longrightarrow> policy_inv (s\<lparr>ps_held := h\<rparr>)"
  by (simp add: policy_inv_def ledger_def Let_def pending_clients_def pending_filters_def)

lemma policy_reachable_inv: "policy_reachable ops s \<Longrightarrow> policy_inv s"
proof (induction rule: policy_reachable.induct)
  case (init x)
  show ?case
    by (simp add: policy_init_def NewManager_def policy_inv_def manager_ok_def log_fresh_def ledger_def
        active_clients_def active_filters_def pending_clients_def pending_filters_def)
next
  case (step s s')
  from step.hyps(2) step.IH show ?case
    by cases (blast intro: policy_inv_applied policy_inv_rejected policy_inv_cleaned policy_inv_closed policy_inv_held)+
qed

text \<open>C31: over any sequence of reloads, successful or not, streams that come and go, cleanups and a
  final shutdown, no Redis client and no closable filter is leaked or closed twice. Each was opened once and is at any time in
  exactly one of three places: in use by the active policy, waiting for the cleanup of a snapshot
  that retired it, or closed. In particular nothing the active policy uses is closed.\<close>

theorem resources_accounted_for:
  assumes "policy_reachable ops s"
  shows "ledger s \<and> (\<forall>n. count (clients_opened (mg_log (ps_manager s))) n \<le> 1 \<and> count (filters_opened (mg_log (ps_manager s))) n \<le> 1) \<and>
    active_clients (ps_manager s) \<inter># clients_closed (mg_log (ps_manager s)) = {#} \<and>
    active_filters (ps_manager s) \<inter># filters_closed (mg_log (ps_manager s)) = {#}"
proof -
  have inv: "policy_inv s" by (rule policy_reachable_inv [OF assms])
  then have o: "count (clients_opened (mg_log (ps_manager s))) n \<le> 1" "count (filters_opened (mg_log (ps_manager s))) n \<le> 1" for n
    by (simp_all add: policy_inv_def log_fresh_def)
  have "a \<inter># c = {#}" if "u = a + p + c" "\<And>n. count u n \<le> 1" for a p c u :: "nat multiset"
  proof (rule multiset_eqI)
    fix n
    have "count a n + count p n + count c n \<le> 1" using that(2) [of n] unfolding that(1) by simp
    then show "count (a \<inter># c) n = count {#} n" by (simp add: min_def)
  qed
  with inv o show ?thesis unfolding policy_inv_def ledger_def Let_def by blast
qed

subsection \<open>Which instance stands where\<close>

lemma show_hex_plain: "CHR 0x00 \<notin> set (show_hex n)"
  using show_hex_chars by blast

text \<open>The client a filter with these options binds to, and the key of an instance, from what it was created from.\<close>

definition bound_client :: "(string \<times> yaml) list \<Rightarrow> (string \<rightharpoonup> nat) \<Rightarrow> nat option" where
  "bound_client opts lk = (case map_of opts ''redis_service'' of Some (YStr svc) \<Rightarrow> lk svc | _ \<Rightarrow> None)"

definition make_key :: "string \<Rightarrow> string \<Rightarrow> nat option \<Rightarrow> string" where
  "make_key ty opts c = ty @ [CHR 0x00] @ opts @ (case c of Some n \<Rightarrow> [CHR 0x00] @ ''0x'' @ show_hex (Suc n) | None \<Rightarrow> [])"

definition has_key :: "('w, 'x) manager_ops \<Rightarrow> string \<Rightarrow> 'w filter_instance \<Rightarrow> bool" where
  "has_key ops key f \<longleftrightarrow> (case fi_origin f of (ty, opts, lk) \<Rightarrow>
     \<exists>y. mo_Marshal ops opts = Ok y \<and> key = make_key ty y (bound_client opts lk) \<and> CHR 0x00 \<notin> set ty)"

lemma filterKey_make:
  assumes "\<forall>(n, e) \<in> set entries. re_ptr e = Suc (re_client e)" "filterKey ops fc entries = Ok key"
  shows "\<exists>y. mo_Marshal ops (fc_Options fc) = Ok y \<and> key = make_key (fc_Type fc) y (bound_client (fc_Options fc) (lookup_client entries))"
proof -
  have "bound_client (fc_Options fc) (lookup_client entries) = map_option re_client (bound_entry fc entries)"
    by (simp add: bound_client_def bound_entry_def lookup_client_def split: option.split yaml.split)
  moreover have "re_ptr e = Suc (re_client e)" if "bound_entry fc entries = Some e" for e
    using that assms(1) by (fastforce simp: bound_entry_def split: option.splits yaml.splits dest: map_of_SomeD)
  ultimately show ?thesis
    using assms(2) by (auto simp: filterKey_def make_key_def Let_def split: sum.splits option.splits)
qed

lemma plain_split:
  "CHR 0x00 \<notin> set a \<Longrightarrow> CHR 0x00 \<notin> set b \<Longrightarrow> a @ CHR 0x00 # x = b @ CHR 0x00 # y \<Longrightarrow> a = b \<and> x = y"
  by (auto simp: append_eq_append_conv2 append_eq_Cons_conv Cons_eq_append_conv)

lemma make_key_inj:
  assumes "make_key ty y c = make_key ty' y' c'" "CHR 0x00 \<notin> set ty" "CHR 0x00 \<notin> set ty'" "CHR 0x00 \<notin> set y" "CHR 0x00 \<notin> set y'"
  shows "ty = ty' \<and> y = y' \<and> c = c'"
proof -
  let ?t = "\<lambda>c. case c of Some n \<Rightarrow> [CHR 0x00] @ ''0x'' @ show_hex (Suc n) | None \<Rightarrow> []"
  from plain_split [OF assms(2,3), of "y @ ?t c" "y' @ ?t c'"] assms(1)
  have 1: "ty = ty'" "y @ ?t c = y' @ ?t c'" by (simp_all add: make_key_def)
  show ?thesis
  proof (cases c; cases c')
    fix n n' assume "c = Some n" "c' = Some n'"
    with 1 plain_split [OF assms(4,5)] show ?thesis by (auto dest: show_hex_inj)
  next
    fix n assume c: "c = None" "c' = Some n"
    then have "y = y' @ CHR 0x00 # ''0x'' @ show_hex (Suc n)" using 1 by simp
    then have "CHR 0x00 \<in> set y" by simp
    with assms(4) show ?thesis by simp
  next
    fix n assume c: "c = Some n" "c' = None"
    then have "y' = y @ CHR 0x00 # ''0x'' @ show_hex (Suc n)" using 1 by simp
    then have "CHR 0x00 \<in> set y'" by simp
    with assms(5) show ?thesis by simp
  qed (use 1 in simp)
qed

text \<open>What is relied on: serialised options contain no NUL, and no filter type with a NUL is known.\<close>

definition policy_laws :: "('w, 'x) manager_ops \<Rightarrow> bool" where
  "policy_laws ops \<longleftrightarrow> (\<forall>opts y. mo_Marshal ops opts = Ok y \<longrightarrow> CHR 0x00 \<notin> set y) \<and>
     (\<forall>ty opts lk x r x'. mo_newFilter ops ty opts lk x = (Ok r, x') \<longrightarrow> CHR 0x00 \<notin> set ty)"

definition plain_types :: "Config \<Rightarrow> bool" where
  "plain_types cfg \<longleftrightarrow> (\<forall>name fcs. cfg_Chains cfg name = Some fcs \<longrightarrow> (\<forall>fc \<in> set fcs. CHR 0x00 \<notin> set (fc_Type fc)))"

definition keyed :: "('w, 'x) manager_ops \<Rightarrow> (string \<times> 'w filter_instance) list \<Rightarrow> bool" where
  "keyed ops fs \<longleftrightarrow> (\<forall>key f. map_of fs key = Some f \<longrightarrow> has_key ops key f)"

text \<open>An instance stands for a definition: it was created from the same type and the same serialised
  options, and the Redis client it is bound to is the one the definition names now.\<close>

definition stands_for :: "('w, 'x) manager_ops \<Rightarrow> (string \<rightharpoonup> nat) \<Rightarrow> FilterConfig \<Rightarrow> 'w filter_instance \<Rightarrow> bool" where
  "stands_for ops lk fc f \<longleftrightarrow> (case fi_origin f of (ty, opts, lk') \<Rightarrow>
     ty = fc_Type fc \<and> mo_Marshal ops opts = mo_Marshal ops (fc_Options fc) \<and>
     bound_client opts lk' = bound_client (fc_Options fc) lk)"

lemma has_key_stands_for:
  assumes "policy_laws ops" "\<forall>(n, e) \<in> set entries. re_ptr e = Suc (re_client e)" "filterKey ops fc entries = Ok key"
    "has_key ops key f" "CHR 0x00 \<notin> set (fc_Type fc)"
  shows "stands_for ops (lookup_client entries) fc f"
proof -
  obtain y where y: "mo_Marshal ops (fc_Options fc) = Ok y"
    "key = make_key (fc_Type fc) y (bound_client (fc_Options fc) (lookup_client entries))"
    using filterKey_make [OF assms(2,3)] by blast
  obtain ty opts lk where o: "fi_origin f = (ty, opts, lk)" by (metis prod_cases3)
  with assms(4) obtain y' where y': "mo_Marshal ops opts = Ok y'" "key = make_key ty y' (bound_client opts lk)" "CHR 0x00 \<notin> set ty"
    by (auto simp: has_key_def)
  have "CHR 0x00 \<notin> set y" "CHR 0x00 \<notin> set y'" using assms(1) y(1) y'(1) by (auto simp: policy_laws_def)
  with make_key_inj [of ty y' "bound_client opts lk"] y y' assms(5) o show ?thesis by (auto simp: stands_for_def)
qed

lemma compile_filter_keyed:
  assumes laws: "policy_laws ops" "keyed ops (mg_filters m)" and k: "keyed ops (bd_filters b)"
    and ptr: "\<forall>(n, e) \<in> set (bd_redis b). re_ptr e = Suc (re_client e)" and c: "compile_filter ops m fc b = (r, b')"
  shows "keyed ops (bd_filters b') \<and> bd_redis b' = bd_redis b \<and>
    (\<forall>f. r = Ok f \<longrightarrow> CHR 0x00 \<notin> set (fc_Type fc) \<longrightarrow> stands_for ops (lookup_client (bd_redis b)) fc f)"
proof (cases "filterKey ops fc (bd_redis b)")
  case (Inl e)
  with c k show ?thesis by (auto simp: compile_filter_def)
next
  case (Inr key)
  obtain y where y: "mo_Marshal ops (fc_Options fc) = Ok y"
    "key = make_key (fc_Type fc) y (bound_client (fc_Options fc) (lookup_client (bd_redis b)))"
    using filterKey_make [OF ptr Inr] by blast
  show ?thesis
  proof (cases "\<exists>f. has_key ops key f \<and> r = Ok f \<and> bd_redis b' = bd_redis b \<and> bd_filters b' = AList.update key f (bd_filters b)")
    case True
    then obtain f where f: "has_key ops key f" "r = Ok f" "bd_redis b' = bd_redis b" "bd_filters b' = AList.update key f (bd_filters b)"
      by blast
    with has_key_stands_for [OF laws(1) ptr Inr f(1)] k show ?thesis
      by (simp add: keyed_def update_conv')
  next
    case False
    show ?thesis
    proof (cases "map_of (bd_filters b) key")
      case (Some f)
      with False c Inr k show ?thesis by (auto simp: compile_filter_def keyed_def)
    next
      case None
      show ?thesis
      proof (cases "map_of (mg_filters m) key")
        case (Some f)
        with False None c Inr laws(2) show ?thesis by (auto simp: compile_filter_def keyed_def)
      next
        case old: None
        obtain q x where q: "mo_newFilter ops (fc_Type fc) (fc_Options fc) (lookup_client (bd_redis b)) (bd_world b) = (q, x)"
          by fastforce
        have "\<exists>e. q = Err e"
        proof (rule ccontr)
          assume "\<not> (\<exists>e. q = Err e)"
          then obtain bf closer where ok: "q = Ok (bf, closer)" by (cases q) auto
          with q laws(1) have "CHR 0x00 \<notin> set (fc_Type fc)" unfolding policy_laws_def by blast
          with False None old c Inr q ok y show False
            by (auto simp: compile_filter_def Let_def has_key_def)
        qed
        with None old c Inr q k show ?thesis by (auto simp: compile_filter_def Let_def)
      qed
    qed
  qed
qed

lemma compile_chain_keyed:
  assumes "policy_laws ops" "keyed ops (mg_filters m)"
  shows "keyed ops (bd_filters b) \<Longrightarrow> \<forall>(n, e) \<in> set (bd_redis b). re_ptr e = Suc (re_client e) \<Longrightarrow>
    compile_chain ops m nm i fcs b = (r, b') \<Longrightarrow>
    keyed ops (bd_filters b') \<and> bd_redis b' = bd_redis b \<and>
    (\<forall>ps. r = Ok ps \<longrightarrow> (\<forall>fc \<in> set fcs. CHR 0x00 \<notin> set (fc_Type fc)) \<longrightarrow>
       list_all2 (\<lambda>fc (f, a). a = fc_Audit fc \<and> stands_for ops (lookup_client (bd_redis b)) fc f) fcs ps)"
proof (induction fcs arbitrary: b b' i r)
  case (Cons fc fcs)
  obtain r1 b1 where c: "compile_filter ops m fc b = (r1, b1)" by fastforce
  note k = compile_filter_keyed [OF assms Cons.prems(1,2) c]
  show ?case
  proof (cases r1)
    case (Inl e)
    with k c Cons.prems(3) show ?thesis by auto
  next
    case (Inr f)
    obtain r2 b2 where d: "compile_chain ops m nm (Suc i) fcs b1 = (r2, b2)" by fastforce
    have "keyed ops (bd_filters b1)" "\<forall>(n, e) \<in> set (bd_redis b1). re_ptr e = Suc (re_client e)" using k Cons.prems(2) by auto
    from Cons.IH [OF this d] k Inr c d Cons.prems(3) show ?thesis by (cases r2) auto
  qed
qed simp

lemma compile_chains_keyed:
  assumes "policy_laws ops" "keyed ops (mg_filters m)"
  shows "keyed ops (bd_filters b) \<Longrightarrow> \<forall>(n, e) \<in> set (bd_redis b). re_ptr e = Suc (re_client e) \<Longrightarrow>
    compile_chains ops m cs b = (r, b') \<Longrightarrow>
    keyed ops (bd_filters b') \<and> bd_redis b' = bd_redis b \<and>
    (\<forall>chs. r = Ok chs \<longrightarrow> (\<forall>(n, fcs) \<in> set cs. \<forall>fc \<in> set fcs. CHR 0x00 \<notin> set (fc_Type fc)) \<longrightarrow>
       list_all2 (\<lambda>(n, fcs) (n', ps). n' = n \<and>
         list_all2 (\<lambda>fc (f, a). a = fc_Audit fc \<and> stands_for ops (lookup_client (bd_redis b)) fc f) fcs ps) cs chs)"
proof (induction cs arbitrary: b b' r)
  case (Cons c cs)
  obtain nm fcs where c: "c = (nm, fcs)" by (cases c)
  obtain r1 b1 where d: "compile_chain ops m nm 0 fcs b = (r1, b1)" by fastforce
  note k = compile_chain_keyed [OF assms Cons.prems(1,2) d]
  show ?case
  proof (cases r1)
    case (Inl e)
    with k c d Cons.prems(3) show ?thesis by auto
  next
    case (Inr ps)
    obtain r2 b2 where e: "compile_chains ops m cs b1 = (r2, b2)" by fastforce
    have "keyed ops (bd_filters b1)" "\<forall>(n, e) \<in> set (bd_redis b1). re_ptr e = Suc (re_client e)" using k Cons.prems(2) by auto
    from Cons.IH [OF this e] k Inr c d e Cons.prems(3) show ?thesis by (cases r2) auto
  qed
qed simp

lemma dial_services_filters: "bd_filters (snd (dial_services ops m rs b0)) = bd_filters b0"
proof (induction rs arbitrary: b0)
  case (Cons r rs)
  obtain name svc where r: "r = (name, svc)" by (cases r)
  obtain e b where d: "dial_service ops m name svc b0 = (e, b)" by fastforce
  then have "bd_filters b = bd_filters b0"
    by (auto simp: dial_service_def dial_new_def Let_def split: option.splits sum.splits prod.splits if_splits)
  with Cons.IH [of b] r d show ?case by (cases e) simp_all
qed simp

lemma map_of_chain_of: "map_of (map (\<lambda>(n, ps). (n, chain_of ps)) chs) name = map_option chain_of (map_of chs name)"
  by (induction chs) auto

lemma Apply_keyed:
  assumes "policy_laws ops" "policy_inv s" "keyed ops (mg_filters (ps_manager s))" "iterates cfg rs cs"
    "Apply ops rs cs cfg (ps_manager s) = (Ok p, m')"
  shows "keyed ops (mg_filters m') \<and> sd_Config (pub_snapshot p) = Some cfg \<and>
    (\<forall>name. sd_Chains (pub_snapshot p) name = map_option chain_of (map_of (pub_chains p) name)) \<and>
    (plain_types cfg \<longrightarrow> list_all2 (\<lambda>(n, fcs) (n', ps). n' = n \<and>
       list_all2 (\<lambda>fc (f, a). a = fc_Audit fc \<and> stands_for ops (lookup_client (mg_redis m')) fc f) fcs ps) cs (pub_chains p))"
  using assms(5)
proof (cases rule: Apply_cases)
  case (published b1 chs b p')
  let ?m = "ps_manager s"
  have m: "manager_ok ?m" "log_fresh (mg_log ?m) (mg_next ?m)" using assms(2) by (simp_all add: policy_inv_def)
  have b1: "build_ok ?m b1" using Apply_build [OF assms(4) m published(2)] by simp
  have ptr: "\<forall>(n, e) \<in> set (bd_redis b1). re_ptr e = Suc (re_client e)" using b1 by (auto simp: build_ok_def)
  have "bd_filters b1 = []"
    using dial_services_filters [of ops ?m rs "start_build ?m"] published(2) by (simp add: start_build_def)
  then have "keyed ops (bd_filters b1)" by (simp add: keyed_def)
  from compile_chains_keyed [OF assms(1,3) this ptr published(3)]
  have k: "keyed ops (bd_filters b)" "bd_redis b = bd_redis b1"
    "(\<forall>(n, fcs) \<in> set cs. \<forall>fc \<in> set fcs. CHR 0x00 \<notin> set (fc_Type fc)) \<longrightarrow>
       list_all2 (\<lambda>(n, fcs) (n', ps). n' = n \<and>
         list_all2 (\<lambda>fc (f, a). a = fc_Audit fc \<and> stands_for ops (lookup_client (bd_redis b1)) fc f) fcs ps) cs chs"
    by auto
  have "map_option re_client (map_of (map (\<lambda>(n, e). (n, start_health e)) es) x) = map_option re_client (map_of es x)"
    for es :: "(string \<times> redisEntry) list" and x
    by (induction es) (auto simp: start_health_def)
  then have lk: "lookup_client (map (\<lambda>(n, e). (n, start_health e)) es) = lookup_client es" for es
    by (simp add: lookup_client_def fun_eq_iff)
  have "plain_types cfg \<longrightarrow> (\<forall>(n, fcs) \<in> set cs. \<forall>fc \<in> set fcs. CHR 0x00 \<notin> set (fc_Type fc))"
    using assms(4) by (fastforce simp: plain_types_def iterates_def dest: map_of_is_SomeI)
  with k published(1,4) lk show ?thesis
    by (auto simp: publish_def Let_def NewSnapshot_def map_of_chain_of)
qed simp

lemma failed_apply_filters:
  assumes "Apply ops rs cs cfg m = (Err e, m')"
  shows "mg_filters m' = mg_filters m"
  using assms by (cases rule: Apply_cases) (auto simp: abort_def)

lemma policy_reachable_keyed:
  assumes "policy_laws ops"
  shows "policy_reachable ops s \<Longrightarrow> keyed ops (mg_filters (ps_manager s))"
proof (induction rule: policy_reachable.induct)
  case (init x)
  show ?case by (simp add: policy_init_def NewManager_def keyed_def)
next
  case (step s s')
  from step.hyps(2) show ?case
  proof cases
    case (applied cfg rs cs p m')
    with Apply_keyed [OF assms policy_reachable_inv [OF step.hyps(1)] step.IH] show ?thesis by simp
  next
    case (rejected cfg rs cs e m')
    with failed_apply_filters [OF rejected(3)] step.IH show ?thesis by simp
  qed (use step.IH in \<open>simp_all add: manager_Close_def keyed_def\<close>)
qed

lemma list_all2_map_of:
  assumes "list_all2 (\<lambda>(n, x) (n', y). n' = n \<and> P x y) xs ys"
  shows "rel_option P (map_of xs n) (map_of ys n)"
  using assms by (induction xs ys rule: list_all2_induct) auto


text \<open>A service name written as a YAML number is not a string in the options, so it never enters the
  key, although the filter is created with the client of that service: after the service has been
  dialled anew, the filter with the old, closed client is reused.\<close>

lemma numeric_service_not_in_key:
  "map_of (fc_Options fc) ''redis_service'' = Some (YInt k) \<Longrightarrow> filterKey ops fc es = filterKey ops fc es'"
  by (auto simp: filterKey_def bound_entry_def Let_def split: sum.splits)

subsection \<open>Examples\<close>

definition ex_filter :: "string \<Rightarrow> FilterConfig" where
  "ex_filter ty = \<lparr>fc_Name = [], fc_Audit = False, fc_Type = ty, fc_Options = [(''redis_service'', YStr ''main'')]\<rparr>"

definition ex_service :: RedisServiceConfig where
  "ex_service = \<lparr>rd_Type = ''single'', rd_SocketType = ''tcp'', rd_URL = ''redis:6379'', rd_PoolSize = 10, rd_Auth = [],
     rd_TLS = False, rd_TLSClientCert = [], rd_TLSClientKey = [], rd_TLSCACert = [],
     rd_TLSSkipHostnameVerification = False, rd_PipelineWindow = [], rd_PipelineWindowDuration = 0,
     rd_ClusterPipelineParallelism = 0, rd_SentinelAuth = [], rd_ActiveConnHealthCheck = True, rd_Timeout = [],
     rd_TimeoutDuration = 0, rd_OnEmptyBehavior = [], rd_WaitTimeout = [], rd_WaitTimeoutDuration = 0,
     rd_StartupInitialInterval = [], rd_StartupInitialIntervalDuration = 0, rd_StartupMaxInterval = [],
     rd_StartupMaxIntervalDuration = 0, rd_StartupMaxElapsedTime = [], rd_StartupMaxElapsedTimeDuration = 0\<rparr>"

text \<open>A service called \<^verbatim>\<open>down\<close> cannot be reached; only the types \<^verbatim>\<open>a\<close> and \<^verbatim>\<open>b\<close> are known.\<close>

definition ex_manager_ops :: "(unit, unit) manager_ops" where
  "ex_manager_ops = \<lparr>mo_newRedis = (\<lambda>bounded name svc x. if name = ''down'' then (Err ''dial'', x) else (Ok (), x)),
     mo_newFilter = (\<lambda>ty opts lk x.
       if ty = ''a'' \<or> ty = ''b'' then (Ok (\<lparr>bf_phases = None, bf_exec = (\<lambda>c w. (None, c, w))\<rparr>, True), x)
       else (Err ''unknown filter type'', x)),
     mo_Marshal = (\<lambda>opts. Ok (filter (\<lambda>ch. ch \<noteq> CHR 0x00) (concat (map fst opts))))\<rparr>"

definition ex_policy :: "string list \<Rightarrow> Config" where
  "ex_policy tys = ex_config\<lparr>cfg_Chains := [''main'' \<mapsto> map ex_filter tys], cfg_Redis := [''main'' \<mapsto> ex_service]\<rparr>"

definition ex_rs :: "(string \<times> RedisServiceConfig) list" where
  "ex_rs = [(''main'', ex_service)]"

definition ex_cs :: "string list \<Rightarrow> (string \<times> FilterConfig list) list" where
  "ex_cs tys = [(''main'', map ex_filter tys)]"

lemma ex_iterates: "iterates (ex_policy tys) ex_rs (ex_cs tys)"
  by (simp add: iterates_def ex_policy_def ex_rs_def ex_cs_def)

lemma ex_laws: "policy_laws ex_manager_ops"
  by (auto simp: policy_laws_def ex_manager_ops_def split: if_splits)

lemma ex_plain: "plain_types (ex_policy [''a''])"
  by (simp add: plain_types_def ex_policy_def ex_filter_def)

text \<open>Three reloads: \<^verbatim>\<open>a\<close>, then \<^verbatim>\<open>a\<close> and \<^verbatim>\<open>b\<close>, then \<^verbatim>\<open>b\<close>.\<close>

definition ex_applied :: "string list \<Rightarrow> (unit, unit) policy_sys \<Rightarrow> (unit, unit) policy_sys" where
  "ex_applied tys s = (case Apply ex_manager_ops ex_rs (ex_cs tys) (ex_policy tys) (ps_manager s) of
     (Ok p, m') \<Rightarrow> s\<lparr>ps_manager := m', ps_pubs := ps_pubs s @ [p]\<rparr> | (Err e, m') \<Rightarrow> s\<lparr>ps_manager := m'\<rparr>)"

lemma ex_applied_reachable: "policy_reachable ex_manager_ops s \<Longrightarrow> policy_reachable ex_manager_ops (ex_applied tys s)"
  by (auto simp: ex_applied_def split: prod.splits sum.splits
      intro: policy_reachable.step policy_step.applied [OF ex_iterates] policy_step.rejected [OF ex_iterates])

theorem failed_apply_keeps_policy_witness:
  "\<exists>e m'. Apply ex_manager_ops (ex_rs @ [(''down'', ex_service)]) [] ex_config (NewManager ()) = (Err e, m') \<and>
     mg_ready m' = False \<and> clients_closed (mg_log m') = {#0#}"
proof -
  let ?m = "snd (Apply ex_manager_ops (ex_rs @ [(''down'', ex_service)]) [] ex_config (NewManager ()))"
  have a: "Apply ex_manager_ops (ex_rs @ [(''down'', ex_service)]) [] ex_config (NewManager ()) = (Err (RedisFailed ''down'' ''dial''), ?m)"
    by (simp add: Apply_def ex_rs_def dial_service_def dial_new_def ex_manager_ops_def start_build_def NewManager_def Let_def)
  have "mg_log ?m = [OpenClient 0, CloseClient 0]"
    by (simp add: Apply_def ex_rs_def dial_service_def dial_new_def ex_manager_ops_def start_build_def NewManager_def Let_def
        abort_def closeFilters_def)
  then have "clients_closed (mg_log ?m) = {#0#}" by (simp add: clients_closed_def)
  with failed_apply_keeps_policy [OF a] a show ?thesis by (auto simp: NewManager_def)
qed

definition ex_held :: "(unit, unit) policy_sys" where
  "ex_held = (let s = ex_applied [''a''] (policy_init ()) in
     s\<lparr>ps_held := (ps_held s)(length (ps_pubs s) := Suc (ps_held s (length (ps_pubs s))))\<rparr>)"

definition ex_reloaded :: "(unit, unit) policy_sys" where
  "ex_reloaded = ex_applied [''b''] (ex_applied [''a'', ''b''] ex_held)"

definition ex_cleaned :: "(unit, unit) policy_sys" where
  "ex_cleaned = ex_reloaded\<lparr>ps_ran := insert 2 (ps_ran ex_reloaded),
     ps_manager := (ps_manager ex_reloaded)\<lparr>mg_log := mg_log (ps_manager ex_reloaded) @ cleanup (ps_pubs ex_reloaded ! 2)\<rparr>\<rparr>"

lemma ex_reloaded_state:
  "length (ps_pubs ex_reloaded) = 3" "ps_ran ex_reloaded = {}" "ps_held ex_reloaded 1 = 1" "ps_held ex_reloaded 2 = 0"
  by code_simp+

lemma ex_cleaned_reachable: "policy_reachable ex_manager_ops ex_cleaned"
proof -
  have "policy_reachable ex_manager_ops ex_held"
    unfolding ex_held_def Let_def
    by (rule policy_reachable.step [OF ex_applied_reachable [OF policy_reachable.init] policy_step.acquired])
  then have "policy_reachable ex_manager_ops ex_reloaded"
    by (simp add: ex_reloaded_def ex_applied_reachable)
  moreover have "policy_step ex_manager_ops ex_reloaded ex_cleaned"
    unfolding ex_cleaned_def by (rule policy_step.cleaned) (simp_all add: ex_reloaded_state)
  ultimately show ?thesis by (rule policy_reachable.step)
qed

lemma ex_cleaned_log: "mg_log (ps_manager ex_cleaned) = [OpenClient 0, OpenFilter 2, StartHealth 0, OpenFilter 3, CloseFilter 2]"
  by code_simp

lemma ex_cleaned_chain: "map (map (fi_ptr \<circ> fst) \<circ> snd) (pub_chains (ps_pubs ex_cleaned ! 0)) = [[2]]"
  by code_simp

theorem resources_accounted_for_witness:
  "ledger ex_cleaned \<and> filters_closed (mg_log (ps_manager ex_cleaned)) = {#2#} \<and>
   active_filters (ps_manager ex_cleaned) \<inter># {#2#} = {#}"
proof -
  have "filters_closed (mg_log (ps_manager ex_cleaned)) = {#2#}" by (simp add: ex_cleaned_log filters_closed_def)
  with resources_accounted_for [OF ex_cleaned_reachable] show ?thesis by simp
qed

text \<open>The comment of \<^verbatim>\<open>engine.Snapshot\<close> promises more: that a retired resource is released only once the last
  stream using it has finished. A filter shared by three policies breaks this: retired by the third, it
  waits for the second snapshot only, and is closed while a stream still runs it from the first.\<close>

text \<open>a filter instance can be closed while a stream still holds a snapshot whose chain contains it.\<close>

theorem filter_closed_while_held:
  "\<exists>s name ps f a. policy_reachable ex_manager_ops s \<and> ps_held s 1 > 0 \<and>
     (name, ps) \<in> set (pub_chains (ps_pubs s ! 0)) \<and> (f, a) \<in> set ps \<and> fi_ptr f \<in># filters_closed (mg_log (ps_manager s))"
proof -
  obtain name ps where ps: "pub_chains (ps_pubs ex_cleaned ! 0) = [(name, ps)]" "map (fi_ptr \<circ> fst) ps = [2]"
    using ex_cleaned_chain by (auto simp: map_eq_Cons_conv)
  then obtain f a where f: "ps = [(f, a)]" "fi_ptr f = 2" by (auto simp: map_eq_Cons_conv)
  have "ps_held ex_cleaned 1 > 0" by (simp add: ex_cleaned_def ex_reloaded_state del: One_nat_def)
  moreover have "fi_ptr f \<in># filters_closed (mg_log (ps_manager ex_cleaned))"
    by (simp add: ex_cleaned_log filters_closed_def f)
  ultimately show ?thesis
    using ex_cleaned_reachable ps(1) f(1)
    by (intro exI [of _ ex_cleaned] exI [of _ name] exI [of _ ps] exI [of _ f] exI [of _ a]) simp
qed


end
