(* ===== verification/JWT_Auth.thy ===== *)
theory JWT_Auth
  imports API_Key Netip
begin

text \<open>
  The JWT filter (\<^verbatim>\<open>internal/filters/jwt_auth/jwt_auth.go\<close>): configuration, token extraction,
  local validation with a refreshed key set, introspection, claim headers and removal of the token.
  Parameters are the jwx library, the HTTP calls, the clock, reading files, and the decoding of JSON bodies.
\<close>

subsection \<open>Configuration\<close>

record jwt_Config =
  jc_Source :: string
  jc_HeaderName :: string
  jc_QueryParam :: string
  jc_CookieName :: string
  jc_JWKSEndpoint :: string
  jc_JWKSRefreshInterval :: int
  jc_LocalSecret :: string
  jc_LocalSecretFile :: string
  jc_Algorithm :: string
  jc_Issuer :: string
  jc_Audience :: string
  jc_ClaimMappings :: "(string \<times> string) list"
  jc_IntrospectionEndpoint :: string
  jc_IntrospectionAuthHeader :: string
  jc_IntrospectionAuthHeaderFile :: string
  jc_IntrospectionTimeout :: int
  jc_FailOpen :: bool
  jc_StripToken :: bool

definition jwt_ApplyDefaults :: "jwt_Config \<Rightarrow> jwt_Config" where
  "jwt_ApplyDefaults c =
     c\<lparr>jc_Source := (if jc_Source c = [] then ''header'' else jc_Source c),
       jc_HeaderName := (if jc_HeaderName c = [] then ''authorization'' else to_lower (jc_HeaderName c)),
       jc_JWKSRefreshInterval := (if jc_JWKSRefreshInterval c \<le> 0 then 300000000000 else jc_JWKSRefreshInterval c),
       jc_IntrospectionTimeout := (if jc_IntrospectionTimeout c \<le> 0 then 2000000000 else jc_IntrospectionTimeout c),
       jc_ClaimMappings := map (\<lambda>(claim, header). (claim, to_lower header)) (jc_ClaimMappings c)\<rparr>"

definition read_secret :: "(string \<Rightarrow> (string, string) result) \<Rightarrow> string \<Rightarrow> string \<Rightarrow> (string, string) result" where
  "read_secret ReadFile path current =
     (if path = [] then Ok current
      else (case ReadFile path of
              Err e \<Rightarrow> Err (''jwt_auth: read secret file '' @ path @ '': '' @ e)
            | Ok b \<Rightarrow> Ok (trim_space b)))"

definition loadSecretFiles :: "(string \<Rightarrow> (string, string) result) \<Rightarrow> jwt_Config \<Rightarrow> (string, jwt_Config) result" where
  "loadSecretFiles ReadFile c =
     (case read_secret ReadFile (jc_LocalSecretFile c) (jc_LocalSecret c) of
        Err e \<Rightarrow> Err e
      | Ok secret \<Rightarrow>
          (case read_secret ReadFile (jc_IntrospectionAuthHeaderFile c) (jc_IntrospectionAuthHeader c) of
             Err e \<Rightarrow> Err e
           | Ok auth \<Rightarrow> Ok (c\<lparr>jc_LocalSecret := secret, jc_IntrospectionAuthHeader := auth\<rparr>)))"

subsection \<open>Claims\<close>

text \<open>
  A decoded JSON value. A float64 is given by the digits of its shortest decimal form and the position of the decimal
  point, as \<^verbatim>\<open>strconv\<close> has it: \<open>JNum neg ds dp\<close> is 0.\<open>ds\<close> times ten to the \<open>dp\<close>, and zero has no
  digits. Strings are valid UTF-8, as JSON decoding makes them.
\<close>

datatype json =
    JNull
  | JBool bool
  | JNum bool string int
  | JStr string
  | JArr "json list"
  | JObj "(string \<times> json) list"

text \<open>A claim: a decoded value, or one of the Go types the token library uses for registered claims.\<close>

datatype claim =
    CJSON json
  | CTime int
  | CStrings "string list"
  | CNumber string
  | CInt int

type_synonym claims = "(string \<times> claim) list"

text \<open>\<^verbatim>\<open>strconv\<close>: the formats f and e with the shortest precision.\<close>

definition fmt_f :: "bool \<Rightarrow> string \<Rightarrow> int \<Rightarrow> string" where
  "fmt_f neg ds dp =
     (if neg then ''-'' else []) @
     (if dp > 0 then take (nat dp) ds @ replicate (nat dp - length ds) CHR ''0'' else ''0'') @
     (let prec = nat (int (length ds) - dp) in
      if prec > 0 then ''.'' @ replicate (nat (- dp)) CHR ''0'' @ drop (nat dp) ds else [])"

definition fmt_e :: "bool \<Rightarrow> string \<Rightarrow> int \<Rightarrow> string" where
  "fmt_e neg ds dp =
     (let e = (if ds = [] then 0 else dp - 1) in
      (if neg then ''-'' else []) @ (case ds of [] \<Rightarrow> ''0'' | d # r \<Rightarrow> d # (if r = [] then [] else ''.'' @ r)) @
      ''e'' @ (if e < 0 then ''-'' else ''+'') @ (if \<bar>e\<bar> < 10 then ''0'' else []) @ show_nat (nat \<bar>e\<bar>))"

text \<open>\<^verbatim>\<open>encoding/json\<close>: a number in the format of ECMAScript, strings with the escapes of
  \<^verbatim>\<open>Marshal\<close> (HTML-safe, U+2028 and U+2029 escaped), objects with sorted keys.\<close>

definition json_number :: "bool \<Rightarrow> string \<Rightarrow> int \<Rightarrow> string" where
  "json_number neg ds dp =
     (if ds \<noteq> [] \<and> (dp \<le> -6 \<or> dp \<ge> 22) then
        (let b = fmt_e neg ds dp; n = length b in
         if n \<ge> 4 \<and> b ! (n - 4) = CHR ''e'' \<and> b ! (n - 3) \<in> {CHR ''-'', CHR ''+''} \<and> b ! (n - 2) = CHR ''0''
         then take (n - 2) b @ [b ! (n - 1)] else b)
      else fmt_f neg ds dp)"

definition json_escape :: "char \<Rightarrow> string" where
  "json_escape ch =
     (if ch = CHR 0x22 then [CHR 0x5C, CHR 0x22]
      else if ch = CHR 0x5C then [CHR 0x5C, CHR 0x5C]
      else if ch = CHR 0x08 then [CHR 0x5C, CHR ''b'']
      else if ch = CHR 0x0C then [CHR 0x5C, CHR ''f'']
      else if ch = CHR 0x0A then [CHR 0x5C, CHR ''n'']
      else if ch = CHR 0x0D then [CHR 0x5C, CHR ''r'']
      else if ch = CHR 0x09 then [CHR 0x5C, CHR ''t'']
      else if of_char ch < (32 :: nat) \<or> ch \<in> {CHR ''<'', CHR ''>'', CHR ''&''}
        then [CHR 0x5C, CHR ''u'', CHR ''0'', CHR ''0''] @ hex_byte (of_char ch)
      else [ch])"

fun json_chars :: "string \<Rightarrow> string" where
  "json_chars [] = []"
| "json_chars (a # b # d # s) =
     (if a = CHR 0xE2 \<and> b = CHR 0x80 \<and> d \<in> {CHR 0xA8, CHR 0xA9}
      then [CHR 0x5C] @ ''u202'' @ [if d = CHR 0xA8 then CHR ''8'' else CHR ''9''] @ json_chars s
      else json_escape a @ json_chars (b # d # s))"
| "json_chars (a # s) = json_escape a @ json_chars s"

definition json_string :: "string \<Rightarrow> string" where
  "json_string s = [CHR 0x22] @ json_chars s @ [CHR 0x22]"

fun json_Marshal :: "json \<Rightarrow> string" where
  "json_Marshal JNull = ''null''"
| "json_Marshal (JBool b) = (if b then ''true'' else ''false'')"
| "json_Marshal (JNum neg ds dp) = json_number neg ds dp"
| "json_Marshal (JStr s) = json_string s"
| "json_Marshal (JArr xs) = ''['' @ join '','' (map json_Marshal xs) @ '']''"
| "json_Marshal (JObj kvs) =
     [CHR 0x7B] @ join '','' (map (\<lambda>(k, s). json_string k @ '':'' @ s) (sort_key fst (map (\<lambda>(k, v). (k, json_Marshal v)) kvs))) @
     [CHR 0x7D]"

definition drop_control :: "string \<Rightarrow> string" where
  "drop_control s = filter (\<lambda>ch. \<not> (of_char ch < (32 :: nat) \<or> of_char ch = (127 :: nat))) s"

fun json_claimString :: "json \<Rightarrow> string" where
  "json_claimString (JStr s) = drop_control s"
| "json_claimString (JBool b) = drop_control (if b then ''true'' else ''false'')"
| "json_claimString (JNum neg ds dp) = drop_control (fmt_f neg ds dp)"
| "json_claimString (JArr xs) = drop_control (join '','' (map json_claimString xs))"
| "json_claimString v = drop_control (json_Marshal v)"

definition claimString :: "claim \<Rightarrow> string" where
  "claimString v =
     (case v of
        CJSON j \<Rightarrow> json_claimString j
      | CTime t \<Rightarrow> drop_control (show_int t)
      | CStrings ss \<Rightarrow> drop_control (join '','' ss)
      | CNumber s \<Rightarrow> drop_control s
      | CInt i \<Rightarrow> drop_control (show_int i))"

subsection \<open>Finding and removing the token\<close>

text \<open>\<^verbatim>\<open>url.QueryUnescape\<close> and \<^verbatim>\<open>url.QueryEscape\<close>.\<close>

fun QueryUnescape :: "string \<Rightarrow> string option" where
  "QueryUnescape [] = Some []"
| "QueryUnescape (ch # s) =
     (if ch = CHR ''%'' then
        (case s of
           a # b # r \<Rightarrow>
             (case (hex_val a, hex_val b) of
                (Some x, Some y) \<Rightarrow> map_option (\<lambda>t. char_of (16 * x + y) # t) (QueryUnescape r)
              | _ \<Rightarrow> None)
         | _ \<Rightarrow> None)
      else map_option (\<lambda>t. (if ch = CHR ''+'' then CHR '' '' else ch) # t) (QueryUnescape s))"

definition QueryEscape :: "string \<Rightarrow> string" where
  "QueryEscape s =
     concat (map (\<lambda>ch. if is_lower_letter ch \<or> is_upper ch \<or> is_digit ch \<or> ch \<in> set ''-_.~'' then [ch]
                       else if ch = CHR '' '' then ''+''
                       else ''%'' @ to_upper (hex_byte (of_char ch))) s)"

fun find_query :: "string list \<Rightarrow> string \<Rightarrow> string" where
  "find_query [] name = []"
| "find_query (part # parts) name =
     (case cut CHR ''='' part of
        Some (k, v) \<Rightarrow>
          if k = name then (case QueryUnescape v of Some u \<Rightarrow> u | None \<Rightarrow> v) else find_query parts name
      | None \<Rightarrow> find_query parts name)"

definition jwt_extractQueryParam :: "string \<Rightarrow> string \<Rightarrow> string" where
  "jwt_extractQueryParam path name =
     (case cut CHR ''?'' path of None \<Rightarrow> [] | Some (base, query) \<Rightarrow> find_query (query_parts query) name)"

definition removeQueryParam :: "string \<Rightarrow> string \<Rightarrow> string" where
  "removeQueryParam path name =
     (case cut CHR ''?'' path of
        None \<Rightarrow> path
      | Some (base, query) \<Rightarrow>
          if name = [] then path
          else (let kept = filter (\<lambda>part. param_key part \<noteq> name \<and> part \<noteq> []) (split_on CHR ''&'' query) in
                if kept = [] then base else base @ ''?'' @ join ''&'' kept))"

definition names_cookie :: "string \<Rightarrow> string \<Rightarrow> bool" where
  "names_cookie name part \<longleftrightarrow> (case cut CHR ''='' part of Some (k, v) \<Rightarrow> k = name | None \<Rightarrow> False)"

definition removeCookie :: "string \<Rightarrow> string \<Rightarrow> string \<times> bool" where
  "removeCookie cookieHeader name =
     (let parts = filter (\<lambda>part. part \<noteq> []) (map trim_space (split_on CHR '';'' cookieHeader))
      in (join ''; '' (filter (\<lambda>part. \<not> names_cookie name part) parts), \<exists>part \<in> set parts. names_cookie name part))"

fun find_cookie :: "string list \<Rightarrow> string \<Rightarrow> string" where
  "find_cookie [] name = []"
| "find_cookie (part # parts) name =
     (case cut CHR ''='' (trim_space part) of
        Some (k, v) \<Rightarrow> if k = name then v else find_cookie parts name
      | None \<Rightarrow> find_cookie parts name)"

definition extractCookie :: "string \<Rightarrow> string \<Rightarrow> string" where
  "extractCookie cookieHeader name = find_cookie (split_on CHR '';'' cookieHeader) name"

definition extractToken :: "jwt_Config \<Rightarrow> RequestContext \<Rightarrow> string" where
  "extractToken cfg ctx =
     (let source = to_lower (jc_Source cfg) in
      if source = ''query'' then jwt_extractQueryParam (ctx_Path ctx) (jc_QueryParam cfg)
      else if source = ''cookie'' then extractCookie (GetHeader ctx ''cookie'') (jc_CookieName cfg)
      else
        (let raw = trim_space (GetHeader ctx (jc_HeaderName cfg)) in
         if length raw > 7 \<and> equal_fold (take 7 raw) ''bearer '' then trim_space (drop 7 raw) else raw))"

definition stripToken :: "jwt_Config \<Rightarrow> RequestContext \<Rightarrow> RequestContext" where
  "stripToken cfg ctx =
     (if \<not> jc_StripToken cfg then ctx
      else
        (let source = to_lower (jc_Source cfg) in
         if source = ''query'' then
           (let stripped = removeQueryParam (ctx_Path ctx) (jc_QueryParam cfg)
            in if stripped \<noteq> ctx_Path ctx then SetPath stripped ctx else ctx)
         else if source = ''cookie'' then
           (let (cookies, removed) = removeCookie (GetHeader ctx ''cookie'') (jc_CookieName cfg)
            in if removed then
                 if cookies = [] then RemoveHeaderUpstream ''cookie'' ctx else SetHeaderUpstream ''cookie'' cookies ctx
               else ctx)
         else RemoveHeaderUpstream (jc_HeaderName cfg) ctx))"

subsection \<open>Keys and validation\<close>

text \<open>The key material a token is verified with.\<close>

datatype 'k key_material =
    SharedSecret string string \<comment> \<open>algorithm and secret\<close>
  | FetchedKeys 'k

record 'k jwt_state =
  js_keySet :: "'k option"
  js_lastFetch :: int

text \<open>
  What lies outside: \<open>jo_ParseString\<close> verifies and parses a token with key material, an expected
  issuer and an expected audience (empty when not required); \<open>jo_Fetch\<close> downloads a key set; \<open>jo_now\<close> is the
  clock; \<open>jo_ValidURL\<close> says whether a request can be made for an endpoint, \<open>jo_Do\<close> posts a form to an endpoint with an authorization header and returns status and body; \<open>jo_Decode\<close>
  decodes a body; \<open>jo_lock\<close> is what other requests do to the filter while one waits for the refresh lock.
\<close>

record ('k, 'w) jwt_ops =
  jo_ParseString :: "'k key_material \<Rightarrow> string \<Rightarrow> string \<Rightarrow> string \<Rightarrow> 'w \<Rightarrow> (string, claims) result \<times> 'w"
  jo_Fetch :: "string \<Rightarrow> 'w \<Rightarrow> (string, 'k) result \<times> 'w"
  jo_now :: "'w \<Rightarrow> int \<times> 'w"
  jo_ValidURL :: "string \<Rightarrow> bool"
  jo_Do :: "string \<Rightarrow> string \<Rightarrow> string \<Rightarrow> 'w \<Rightarrow> (string, int \<times> string) result \<times> 'w"
  jo_Decode :: "string \<Rightarrow> (string, (string \<times> json) list) result"
  jo_lock :: "'k jwt_state \<times> 'w \<Rightarrow> 'k jwt_state \<times> 'w"

definition jwksMinRefreshGap :: int where
  "jwksMinRefreshGap = 30000000000"

definition fetchAndStoreJWKS ::
  "('k, 'w) jwt_ops \<Rightarrow> jwt_Config \<Rightarrow> 'k jwt_state \<times> 'w \<Rightarrow> (string, unit) result \<times> 'k jwt_state \<times> 'w" where
  "fetchAndStoreJWKS ops cfg sw =
     (let (st, w) = sw;
          (r, w1) = jo_Fetch ops (jc_JWKSEndpoint cfg) w;
          (now, w2) = jo_now ops w1;
          st1 = st\<lparr>js_lastFetch := now\<rparr>
      in case r of
           Err e \<Rightarrow> (Err e, st1, w2)
         | Ok keys \<Rightarrow> (Ok (), st1\<lparr>js_keySet := Some keys\<rparr>, w2))"

definition refreshAfterMiss :: "('k, 'w) jwt_ops \<Rightarrow> jwt_Config \<Rightarrow> 'k jwt_state \<times> 'w \<Rightarrow> bool \<times> 'k jwt_state \<times> 'w" where
  "refreshAfterMiss ops cfg sw =
     (let (st, w) = sw in
      if jc_JWKSEndpoint cfg = [] then (False, st, w)
      else
        (let (now, w1) = jo_now ops w in
         if now - js_lastFetch st < jwksMinRefreshGap then (False, st, w1)
         else
           (let (st2, w2) = jo_lock ops (st, w1);
                (now2, w3) = jo_now ops w2 in
            if now2 - js_lastFetch st2 < jwksMinRefreshGap then (True, st2, w3)
            else (case fetchAndStoreJWKS ops cfg (st2, w3) of
                    (Err e, st4, w4) \<Rightarrow> (False, st4, w4)
                  | (Ok _, st4, w4) \<Rightarrow> (True, st4, w4)))))"

text \<open>One tick of the background refresher; a failed fetch keeps the last key set.\<close>

definition background_tick :: "('k, 'w) jwt_ops \<Rightarrow> jwt_Config \<Rightarrow> 'k jwt_state \<times> 'w \<Rightarrow> 'k jwt_state \<times> 'w" where
  "background_tick ops cfg sw = snd (fetchAndStoreJWKS ops cfg sw)"

definition key_material :: "jwt_Config \<Rightarrow> 'k jwt_state \<Rightarrow> 'k key_material option" where
  "key_material cfg st =
     (if jc_LocalSecret cfg \<noteq> [] then Some (SharedSecret (jc_Algorithm cfg) (jc_LocalSecret cfg))
      else map_option FetchedKeys (js_keySet st))"

definition validateJWT ::
  "('k, 'w) jwt_ops \<Rightarrow> jwt_Config \<Rightarrow> string \<Rightarrow> 'k jwt_state \<times> 'w \<Rightarrow> (string, claims) result \<times> 'k jwt_state \<times> 'w" where
  "validateJWT ops cfg rawToken sw =
     (let (st, w) = sw in
      case key_material cfg st of
        None \<Rightarrow> (Err ''no key material available for JWT validation'', st, w)
      | Some key \<Rightarrow>
          (let (r, w1) = jo_ParseString ops key (jc_Issuer cfg) (jc_Audience cfg) rawToken w in
           case r of
             Ok cl \<Rightarrow> (Ok cl, st, w1)
           | Err e \<Rightarrow>
               if jc_LocalSecret cfg \<noteq> [] then (Err e, st, w1)
               else
                 (let (again, st2, w2) = refreshAfterMiss ops cfg (st, w1) in
                  if \<not> again then (Err e, st2, w2)
                  else (case js_keySet st2 of
                          None \<Rightarrow> (Err e, st2, w2)
                        | Some keys \<Rightarrow>
                            (let (r', w3) = jo_ParseString ops (FetchedKeys keys) (jc_Issuer cfg) (jc_Audience cfg) rawToken w2
                             in (r', st2, w3))))))"

subsection \<open>Introspection\<close>

datatype intro_error = Unavailable string | Rejected string

definition audienceContains :: "json \<Rightarrow> string \<Rightarrow> bool" where
  "audienceContains aud want =
     (case aud of JStr v \<Rightarrow> v = want | JArr items \<Rightarrow> (\<exists>i \<in> set items. i = JStr want) | _ \<Rightarrow> False)"

definition judge :: "jwt_Config \<Rightarrow> (string \<times> json) list \<Rightarrow> (intro_error, claims) result" where
  "judge cfg res =
     (if map_of res ''active'' \<noteq> Some (JBool True) then Err (Rejected ''introspection: token is not active'')
      else if jc_Issuer cfg \<noteq> [] \<and> (case map_of res ''iss'' of Some (JStr iss) \<Rightarrow> iss \<noteq> jc_Issuer cfg | _ \<Rightarrow> False)
        then Err (Rejected ''introspection: issuer not accepted'')
      else if jc_Audience cfg \<noteq> [] \<and> (case map_of res ''aud'' of Some aud \<Rightarrow> \<not> audienceContains aud (jc_Audience cfg) | None \<Rightarrow> False)
        then Err (Rejected ''introspection: audience not accepted'')
      else Ok (map (\<lambda>(k, v). (k, CJSON v)) res))"

definition introspect :: "('k, 'w) jwt_ops \<Rightarrow> jwt_Config \<Rightarrow> string \<Rightarrow> 'w \<Rightarrow> (intro_error, claims) result \<times> 'w" where
  "introspect ops cfg token w =
     (if \<not> jo_ValidURL ops (jc_IntrospectionEndpoint cfg) then (Err (Rejected ''introspection: failed to create request''), w)
      else let (r, w1) = jo_Do ops (jc_IntrospectionEndpoint cfg) (jc_IntrospectionAuthHeader cfg) (''token='' @ QueryEscape token) w in
      case r of
        Err e \<Rightarrow> (Err (Unavailable (''introspection: HTTP call failed: '' @ e)), w1)
      | Ok (status, body) \<Rightarrow>
          if status \<ge> 500 then (Err (Unavailable (''introspection: server returned HTTP '' @ show_int status)), w1)
          else if status \<noteq> 200 then (Err (Rejected (''introspection: server returned HTTP '' @ show_int status)), w1)
          else (case jo_Decode ops (take 65536 body) of
                  Err e \<Rightarrow> (Err (Rejected (''introspection: failed to decode response: '' @ e)), w1)
                | Ok res \<Rightarrow> (judge cfg res, w1)))"

subsection \<open>The filter\<close>

definition challenge :: "string \<Rightarrow> string \<Rightarrow> RequestContext \<Rightarrow> RequestContext" where
  "challenge message bearerError ctx =
     SetHeaderDownstream ''www-authenticate''
       (''Bearer'' @ (if bearerError \<noteq> [] then '' error='' @ [CHR 0x22] @ bearerError @ [CHR 0x22] else []))
       (SetHeaderDownstream ''content-type'' ''application/json''
          (Block 401 ([CHR 0x7B, CHR 0x22] @ ''error'' @ [CHR 0x22] @ '':'' @ [CHR 0x22] @ ''unauthorized'' @ [CHR 0x22] @ '','' @
             [CHR 0x22] @ ''message'' @ [CHR 0x22] @ '':'' @ [CHR 0x22] @ message @ [CHR 0x22, CHR 0x7D]) ctx))"

definition inject_claim :: "claims \<Rightarrow> string \<times> string \<Rightarrow> RequestContext \<Rightarrow> RequestContext" where
  "inject_claim cl m ctx =
     (case map_of cl (fst m) of
        Some val \<Rightarrow> (let s = claimString val in if s \<noteq> [] then SetHeaderUpstream (snd m) s ctx else ctx)
      | None \<Rightarrow> ctx)"

definition pass_token :: "jwt_Config \<Rightarrow> claims \<Rightarrow> RequestContext \<Rightarrow> RequestContext" where
  "pass_token cfg cl ctx = stripToken cfg (fold (inject_claim cl) (jc_ClaimMappings cfg) ctx)"

definition jwt_Execute ::
  "('k, 'w) jwt_ops \<Rightarrow> jwt_Config \<Rightarrow> RequestContext \<Rightarrow> 'k jwt_state \<times> 'w \<Rightarrow> string option \<times> RequestContext \<times> 'k jwt_state \<times> 'w" where
  "jwt_Execute ops cfg ctx0 sw =
     (let ctx = fold (\<lambda>m. RemoveHeaderUpstream (snd m)) (jc_ClaimMappings cfg) ctx0;
          rawToken = extractToken cfg ctx in
      if rawToken = [] then (None, challenge ''missing authentication token'' [] ctx, sw)
      else
        (case validateJWT ops cfg rawToken sw of
           (Ok cl, sw1) \<Rightarrow> (None, pass_token cfg cl ctx, sw1)
         | (Err e, st1, w1) \<Rightarrow>
             if jc_IntrospectionEndpoint cfg = [] then (None, challenge ''invalid token'' ''invalid_token'' ctx, st1, w1)
             else (case introspect ops cfg rawToken w1 of
                     (Ok cl, w2) \<Rightarrow> (None, pass_token cfg cl ctx, st1, w2)
                   | (Err (Unavailable e'), w2) \<Rightarrow>
                       if jc_FailOpen cfg then (None, stripToken cfg ctx, st1, w2)
                       else (None, challenge ''token validation failed'' ''invalid_token'' ctx, st1, w2)
                   | (Err (Rejected e'), w2) \<Rightarrow>
                       (None, challenge ''token validation failed'' ''invalid_token'' ctx, st1, w2))))"

definition jwt_base :: "('k, 'w) jwt_ops \<Rightarrow> jwt_Config \<Rightarrow> ('k jwt_state \<times> 'w) base_filter" where
  "jwt_base ops cfg = \<lparr>bf_phases = Some [PhaseRequestHeaders], bf_exec = jwt_Execute ops cfg\<rparr>"

definition choose_algorithm :: "jwt_Config \<Rightarrow> jwt_Config" where
  "choose_algorithm cfg =
     (if jc_Algorithm cfg = [] then cfg\<lparr>jc_Algorithm := (if jc_LocalSecret cfg \<noteq> [] then ''HS256'' else ''RS256'')\<rparr> else cfg)"

definition jwt_NewFilter ::
  "(string \<Rightarrow> (string, string) result) \<Rightarrow> ('k, 'w) jwt_ops \<Rightarrow> jwt_Config \<Rightarrow> 'w \<Rightarrow> (string, jwt_Config \<times> 'k jwt_state) result \<times> 'w" where
  "jwt_NewFilter ReadFile ops cfg0 w =
     (case loadSecretFiles ReadFile (jwt_ApplyDefaults cfg0) of
        Err e \<Rightarrow> (Err e, w)
      | Ok cfg1 \<Rightarrow>
          (let cfg = choose_algorithm cfg1;
               st = \<lparr>js_keySet = None, js_lastFetch = 0\<rparr> in
           if jc_JWKSEndpoint cfg = [] \<and> jc_LocalSecret cfg = [] \<and> jc_IntrospectionEndpoint cfg = []
           then (Err ''jwt_auth: one of jwks_endpoint, local_secret(_file) or introspection_endpoint is required'', w)
           else if jc_JWKSEndpoint cfg = [] then (Ok (cfg, st), w)
           else (case fetchAndStoreJWKS ops cfg (st, w) of
                   (Err e, st1, w1) \<Rightarrow> (Err (''jwt_auth: initial JWKS fetch failed: '' @ e), w1)
                 | (Ok _, st1, w1) \<Rightarrow> (Ok (cfg, st1), w1))))"

subsection \<open>What passes\<close>

text \<open>Keys the filter may use, what it holds, and what the interference of other requests respects.\<close>

definition fetched :: "('k, 'w) jwt_ops \<Rightarrow> jwt_Config \<Rightarrow> 'k \<Rightarrow> bool" where
  "fetched ops cfg ks \<longleftrightarrow> (\<exists>w w'. jo_Fetch ops (jc_JWKSEndpoint cfg) w = (Ok ks, w'))"

definition keys_ok :: "('k, 'w) jwt_ops \<Rightarrow> jwt_Config \<Rightarrow> 'k jwt_state \<Rightarrow> bool" where
  "keys_ok ops cfg st \<longleftrightarrow> (\<forall>ks. js_keySet st = Some ks \<longrightarrow> fetched ops cfg ks)"

definition lock_law :: "('k, 'w) jwt_ops \<Rightarrow> jwt_Config \<Rightarrow> bool" where
  "lock_law ops cfg \<longleftrightarrow> (\<forall>st w. keys_ok ops cfg st \<longrightarrow> keys_ok ops cfg (fst (jo_lock ops (st, w))))"

definition trusted :: "('k, 'w) jwt_ops \<Rightarrow> jwt_Config \<Rightarrow> 'k key_material \<Rightarrow> bool" where
  "trusted ops cfg key \<longleftrightarrow>
     (if jc_LocalSecret cfg \<noteq> [] then key = SharedSecret (jc_Algorithm cfg) (jc_LocalSecret cfg)
      else \<exists>ks. key = FetchedKeys ks \<and> fetched ops cfg ks)"

definition verified :: "('k, 'w) jwt_ops \<Rightarrow> jwt_Config \<Rightarrow> string \<Rightarrow> claims \<Rightarrow> bool" where
  "verified ops cfg token cl \<longleftrightarrow>
     (\<exists>key w w'. trusted ops cfg key \<and> jo_ParseString ops key (jc_Issuer cfg) (jc_Audience cfg) token w = (Ok cl, w'))"

definition active_answer :: "('k, 'w) jwt_ops \<Rightarrow> jwt_Config \<Rightarrow> string \<Rightarrow> claims \<Rightarrow> bool" where
  "active_answer ops cfg token cl \<longleftrightarrow> jc_IntrospectionEndpoint cfg \<noteq> [] \<and>
     (\<exists>w w' body res.
        jo_Do ops (jc_IntrospectionEndpoint cfg) (jc_IntrospectionAuthHeader cfg) (''token='' @ QueryEscape token) w = (Ok (200, body), w') \<and>
        jo_Decode ops (take 65536 body) = Ok res \<and> cl = map (\<lambda>(k, v). (k, CJSON v)) res \<and>
        map_of res ''active'' = Some (JBool True) \<and>
        (jc_Issuer cfg \<noteq> [] \<longrightarrow> (\<forall>iss. map_of res ''iss'' = Some (JStr iss) \<longrightarrow> iss = jc_Issuer cfg)) \<and>
        (jc_Audience cfg \<noteq> [] \<longrightarrow> (\<forall>aud. map_of res ''aud'' = Some aud \<longrightarrow> audienceContains aud (jc_Audience cfg))))"

definition no_verdict :: "('k, 'w) jwt_ops \<Rightarrow> jwt_Config \<Rightarrow> string \<Rightarrow> bool" where
  "no_verdict ops cfg token \<longleftrightarrow> jc_IntrospectionEndpoint cfg \<noteq> [] \<and>
     (\<exists>w r w'. jo_Do ops (jc_IntrospectionEndpoint cfg) (jc_IntrospectionAuthHeader cfg) (''token='' @ QueryEscape token) w = (r, w') \<and>
        (case r of Err e \<Rightarrow> True | Ok (status, body) \<Rightarrow> status \<ge> 500))"

definition without_claims :: "jwt_Config \<Rightarrow> RequestContext \<Rightarrow> RequestContext" where
  "without_claims cfg ctx = fold (\<lambda>m. RemoveHeaderUpstream (snd m)) (jc_ClaimMappings cfg) ctx"

lemma fetch_keys_ok:
  "keys_ok ops cfg st \<Longrightarrow> fetchAndStoreJWKS ops cfg (st, w) = (r, st', w') \<Longrightarrow> keys_ok ops cfg st'"
  by (auto simp: fetchAndStoreJWKS_def keys_ok_def Let_def split: prod.splits sum.splits) (auto simp: fetched_def)

lemma refresh_keys_ok:
  assumes "lock_law ops cfg" "keys_ok ops cfg st" "refreshAfterMiss ops cfg (st, w) = (r, st', w')"
  shows "keys_ok ops cfg st'"
proof -
  obtain now w1 where n: "jo_now ops w = (now, w1)" by fastforce
  obtain st2 w2 where l: "jo_lock ops (st, w1) = (st2, w2)" by fastforce
  obtain now2 w3 where n2: "jo_now ops w2 = (now2, w3)" by fastforce
  obtain f st4 w4 where f: "fetchAndStoreJWKS ops cfg (st2, w3) = (f, st4, w4)" by (metis prod_cases3)
  have "keys_ok ops cfg st2" using assms(1,2) l unfolding lock_law_def by (metis fst_conv)
  with fetch_keys_ok [OF this f] assms(2,3) n l n2 f show ?thesis
    by (cases f) (auto simp: refreshAfterMiss_def split: if_splits)
qed

lemma key_material_trusted: "keys_ok ops cfg st \<Longrightarrow> key_material cfg st = Some key \<Longrightarrow> trusted ops cfg key"
  by (auto simp: key_material_def trusted_def keys_ok_def split: if_splits)

lemma validateJWT_sound:
  assumes "lock_law ops cfg" "keys_ok ops cfg st" "validateJWT ops cfg token (st, w) = (r, st', w')"
  shows "keys_ok ops cfg st' \<and> (\<forall>cl. r = Ok cl \<longrightarrow> verified ops cfg token cl)"
proof (cases "key_material cfg st")
  case None
  with assms show ?thesis by (auto simp: validateJWT_def)
next
  case (Some key)
  obtain r1 w1 where p: "jo_ParseString ops key (jc_Issuer cfg) (jc_Audience cfg) token w = (r1, w1)" by fastforce
  have t: "trusted ops cfg key" by (rule key_material_trusted [OF assms(2) Some])
  show ?thesis
  proof (cases r1)
    case (Inr cl)
    with assms(2,3) Some p t show ?thesis by (auto simp: validateJWT_def verified_def)
  next
    case (Inl e)
    obtain again st2 w2 where f: "refreshAfterMiss ops cfg (st, w1) = (again, st2, w2)" by (metis prod_cases3)
    have k: "keys_ok ops cfg st2" by (rule refresh_keys_ok [OF assms(1,2) f])
    show ?thesis
    proof (cases "jc_LocalSecret cfg \<noteq> [] \<or> \<not> again \<or> js_keySet st2 = None")
      case True
      with assms(2,3) Some p Inl f k show ?thesis by (auto simp: validateJWT_def split: if_splits)
    next
      case False
      then obtain ks where ks: "js_keySet st2 = Some ks" by auto
      obtain r3 w3 where q: "jo_ParseString ops (FetchedKeys ks) (jc_Issuer cfg) (jc_Audience cfg) token w2 = (r3, w3)" by fastforce
      have "trusted ops cfg (FetchedKeys ks)" using k ks False by (auto simp: trusted_def keys_ok_def)
      with assms(3) Some p Inl f k False ks q show ?thesis by (auto simp: validateJWT_def verified_def)
    qed
  qed
qed

lemma introspect_sound:
  assumes "introspect ops cfg token w = (r, w')" "jc_IntrospectionEndpoint cfg \<noteq> []"
  shows "(\<forall>cl. r = Ok cl \<longrightarrow> active_answer ops cfg token cl) \<and> (\<forall>e. r = Err (Unavailable e) \<longrightarrow> no_verdict ops cfg token)"
proof -
  obtain d w1 where d: "jo_Do ops (jc_IntrospectionEndpoint cfg) (jc_IntrospectionAuthHeader cfg) (''token='' @ QueryEscape token) w = (d, w1)"
    by fastforce
  show ?thesis
  proof (cases "\<exists>body res cl. d = Ok (200, body) \<and> jo_Decode ops (take 65536 body) = Ok res \<and> judge cfg res = Ok cl \<and> r = Ok cl")
    case True
    then obtain body res cl where o: "d = Ok (200, body)" "jo_Decode ops (take 65536 body) = Ok res" "judge cfg res = Ok cl" "r = Ok cl"
      by blast
    then have "active_answer ops cfg token cl"
      unfolding active_answer_def
      by (intro conjI exI [of _ w] exI [of _ w1] exI [of _ body] exI [of _ res])
         (use assms(2) d in \<open>auto simp: judge_def split: if_splits option.splits json.splits\<close>)
    with o show ?thesis by simp
  next
    case False
    have "r \<noteq> Ok cl" for cl
      using False assms(1) d by (auto simp: introspect_def split: if_splits sum.splits prod.splits)
    moreover have "no_verdict ops cfg token" if "r = Err (Unavailable e)" for e
      unfolding no_verdict_def
      by (intro conjI exI [of _ w] exI [of _ d] exI [of _ w1])
         (use that assms d in \<open>auto simp: introspect_def judge_def split: if_splits sum.splits prod.splits option.splits json.splits\<close>)
    ultimately show ?thesis by blast
  qed
qed

lemma challenge_blocks [simp]: "ctx_Blocked (challenge msg e ctx)" "ctx_ResponseStatus (challenge msg e ctx) = 401"
  by (simp_all add: challenge_def Block_def SetHeaderDownstream_def Let_def)

text \<open>How \<^verbatim>\<open>Execute\<close> can end.\<close>

lemma jwt_Execute_cases:
  assumes "lock_law ops cfg" "keys_ok ops cfg st" "jwt_Execute ops cfg ctx (st, w) = (err, c, st', w')"
  defines "ctx' \<equiv> without_claims cfg ctx"
  defines "token \<equiv> extractToken cfg ctx'"
  obtains (rejected) msg e where "c = challenge msg e ctx'" "keys_ok ops cfg st'" "err = None"
  | (accepted) cl where "token \<noteq> []" "verified ops cfg token cl \<or> active_answer ops cfg token cl" "c = pass_token cfg cl ctx'"
      "keys_ok ops cfg st'" "err = None"
  | (open_) "token \<noteq> []" "jc_FailOpen cfg" "no_verdict ops cfg token" "c = stripToken cfg ctx'" "keys_ok ops cfg st'" "err = None"
proof -
  note ex = assms(3) [unfolded jwt_Execute_def Let_def, folded without_claims_def, folded ctx'_def, folded token_def]
  show ?thesis
  proof (cases "token = []")
    case True
    with ex assms(2) rejected show ?thesis by auto
  next
    case False
    obtain r st1 w1 where v: "validateJWT ops cfg token (st, w) = (r, st1, w1)" by (metis prod_cases3)
    note s = validateJWT_sound [OF assms(1,2) v]
    show ?thesis
    proof (cases r)
      case (Inr cl)
      with ex False v s accepted [of cl] show ?thesis by auto
    next
      case (Inl e)
      show ?thesis
      proof (cases "jc_IntrospectionEndpoint cfg = []")
        case True
        with ex False v Inl s rejected show ?thesis by auto
      next
        case ep: False
        obtain i w2 where i: "introspect ops cfg token w1 = (i, w2)" by fastforce
        note t = introspect_sound [OF i ep]
        show ?thesis
        proof (cases i)
          case (Inr cl)
          with ex False v Inl ep i s t accepted [of cl] show ?thesis by auto
        next
          case err: (Inl ie)
          with ex False v Inl ep i s t rejected open_ show ?thesis
            by (cases ie; cases "jc_FailOpen cfg") auto
        qed
      qed
    qed
  qed
qed

text \<open>C10: the JWT filter lets a request pass only with a token, and only if that token was verified with
  the configured secret or with keys fetched from the configured endpoint, for the configured issuer and
  audience, or the introspection endpoint called it active and named no other issuer or audience. The one
  exception needs \<^verbatim>\<open>fail_open\<close> and an introspection that gave no verdict; such a request carries no claim
  headers. The filter keeps holding only keys from the configured endpoint.\<close>

theorem jwt_pass_needs_token:
  assumes "lock_law ops cfg" "keys_ok ops cfg st" "jwt_Execute ops cfg ctx (st, w) = (err, c, st', w')" "\<not> ctx_Blocked c"
  shows "keys_ok ops cfg st' \<and> (let ctx' = without_claims cfg ctx; token = extractToken cfg ctx' in token \<noteq> [] \<and>
    ((\<exists>cl. (verified ops cfg token cl \<or> active_answer ops cfg token cl) \<and> c = pass_token cfg cl ctx') \<or>
     jc_FailOpen cfg \<and> no_verdict ops cfg token \<and> c = stripToken cfg ctx'))"
  using assms(1,2,3)
proof (cases rule: jwt_Execute_cases)
  case (rejected msg e)
  with assms(4) show ?thesis by simp
qed (auto simp: Let_def)

subsection \<open>Claim headers\<close>

definition printable :: "string \<Rightarrow> bool" where
  "printable s \<longleftrightarrow> (\<forall>ch \<in> set s. 32 \<le> (of_char ch :: nat) \<and> of_char ch \<noteq> (127 :: nat))"

lemma drop_control_printable [simp]: "printable (drop_control s)"
  by (auto simp: printable_def drop_control_def)

lemma claimString_printable: "printable (claimString v)"
proof -
  have "printable (json_claimString j)" for j by (cases j) simp_all
  then show ?thesis by (simp add: claimString_def split: claim.split)
qed

definition lower_mappings :: "jwt_Config \<Rightarrow> bool" where
  "lower_mappings cfg \<longleftrightarrow> (\<forall>(claim, header) \<in> set (jc_ClaimMappings cfg). to_lower header = header)"

lemma lower_mappings_new:
  assumes "jwt_NewFilter ReadFile ops cfg0 w = (Ok (cfg, st), w')"
  shows "lower_mappings cfg \<and> to_lower (jc_HeaderName cfg) = jc_HeaderName cfg \<and> keys_ok ops cfg st"
proof -
  obtain cfg1 where c: "loadSecretFiles ReadFile (jwt_ApplyDefaults cfg0) = Ok cfg1"
    using assms by (auto simp: jwt_NewFilter_def split: sum.splits)
  have m: "jc_ClaimMappings cfg1 = jc_ClaimMappings (jwt_ApplyDefaults cfg0)" "jc_HeaderName cfg1 = jc_HeaderName (jwt_ApplyDefaults cfg0)"
    using c by (auto simp: loadSecretFiles_def split: sum.splits)
  have cfg: "cfg = choose_algorithm cfg1" and "keys_ok ops cfg st"
  proof -
    let ?st = "\<lparr>js_keySet = None, js_lastFetch = 0\<rparr> :: 'a jwt_state"
    obtain r st1 w1 where f: "fetchAndStoreJWKS ops (choose_algorithm cfg1) (?st, w) = (r, st1, w1)" by (metis prod_cases3)
    have k: "keys_ok ops (choose_algorithm cfg1) ?st" by (simp add: keys_ok_def)
    show "cfg = choose_algorithm cfg1"
      using assms c f by (cases r) (auto simp: jwt_NewFilter_def Let_def split: if_splits)
    with fetch_keys_ok [OF k f] k assms c f show "keys_ok ops cfg st"
      by (cases r) (auto simp: jwt_NewFilter_def Let_def split: if_splits)
  qed
  moreover have "to_lower ''authorization'' = ''authorization''" by code_simp
  ultimately show ?thesis using m by (auto simp: lower_mappings_def choose_algorithm_def jwt_ApplyDefaults_def)
qed

lemma without_claims_header:
  assumes "to_lower q = q"
  shows "GetHeader (without_claims cfg ctx) q = (if q \<in> (to_lower \<circ> snd) ` set (jc_ClaimMappings cfg) then [] else GetHeader ctx q)"
proof -
  have "without_claims cfg ctx = fold RemoveHeaderUpstream (map snd (jc_ClaimMappings cfg)) ctx"
    by (simp add: without_claims_def fold_map o_def)
  then show ?thesis using upstream.get_dels [OF assms] by (simp add: image_comp)
qed

lemma inject_claims_header:
  assumes "to_lower q = q" "\<forall>m \<in> set ms. to_lower (snd m) = snd m"
  shows "GetHeader (fold (inject_claim cl) ms ctx) q = GetHeader ctx q \<or>
    (\<exists>claim val. (claim, q) \<in> set ms \<and> map_of cl claim = Some val \<and> GetHeader (fold (inject_claim cl) ms ctx) q = claimString val)"
  using assms(2)
proof (induction ms arbitrary: ctx)
  case (Cons m ms)
  obtain claim header where m: "m = (claim, header)" by (cases m)
  have "GetHeader (inject_claim cl m ctx) q = GetHeader ctx q \<or>
      (header = q \<and> (\<exists>val. map_of cl claim = Some val \<and> GetHeader (inject_claim cl m ctx) q = claimString val))"
    using Cons.prems assms(1) m
    by (auto simp: inject_claim_def Let_def upstream.get_put split: option.split)
  with Cons.IH [of "inject_claim cl m ctx"] Cons.prems m show ?case by fastforce
qed simp

lemma stripToken_header:
  assumes "to_lower q = q" "q \<noteq> '':path''" "to_lower (jc_Source cfg) = ''cookie'' \<Longrightarrow> q \<noteq> ''cookie''"
  shows "GetHeader (stripToken cfg ctx) q = GetHeader ctx q \<or> GetHeader (stripToken cfg ctx) q = []"
proof -
  have "to_lower ''cookie'' = ''cookie''" by code_simp
  with assms show ?thesis
    by (auto simp: stripToken_def Let_def upstream.get_put upstream.get_del GetHeader_SetPath split: prod.splits)
qed

lemma GetHeader_response [simp]:
  "GetHeader (SetHeaderDownstream k v c) q = GetHeader c q" "GetHeader (Block st b c) q = GetHeader c q"
  by (simp_all add: GetHeader_def SetHeaderDownstream_def Block_def Let_def split: option.split)


subsection \<open>The token is gone\<close>

lemma find_query_none: "\<forall>p \<in> set ps. param_key p \<noteq> name \<Longrightarrow> find_query ps name = []"
  by (induction ps) (auto simp: param_key_def split: option.splits)

lemma query_parts_subset: "set (query_parts q) \<subseteq> set (split_on CHR ''&'' q)"
  by (auto simp: query_parts_split dest: in_set_butlastD)

lemma extract_removed:
  assumes "name \<noteq> []"
  shows "jwt_extractQueryParam (removeQueryParam path name) name = []"
proof (cases "cut CHR ''?'' path")
  case None
  then show ?thesis by (simp add: jwt_extractQueryParam_def removeQueryParam_def)
next
  case (Some pr)
  obtain base query where pr: "pr = (base, query)" by (cases pr)
  with Some have base: "CHR ''?'' \<notin> set base" using cut_Some by fastforce
  let ?kept = "filter (\<lambda>part. param_key part \<noteq> name \<and> part \<noteq> []) (split_on CHR ''&'' query)"
  show ?thesis
  proof (cases "?kept = []")
    case True
    with Some pr base assms show ?thesis by (simp add: jwt_extractQueryParam_def removeQueryParam_def)
  next
    case False
    have "split_on CHR ''&'' (join [CHR ''&''] ?kept) = ?kept"
      by (rule split_on_join) (use False split_on_parts in auto)
    with query_parts_subset [of "join [CHR ''&''] ?kept"]
    have "\<forall>p \<in> set (query_parts (join [CHR ''&''] ?kept)). param_key p \<noteq> name" by auto
    from find_query_none [OF this] False Some pr base assms show ?thesis
      by (simp add: jwt_extractQueryParam_def removeQueryParam_def Let_def)
  qed
qed

lemma find_cookie_none: "\<forall>p \<in> set ps. \<not> names_cookie name (trim_space p) \<Longrightarrow> find_cookie ps name = []"
  by (induction ps) (auto simp: names_cookie_def split: option.splits)

lemma split_on_join_space:
  "xs \<noteq> [] \<Longrightarrow> \<forall>x \<in> set xs. CHR '';'' \<notin> set x \<Longrightarrow>
   split_on CHR '';'' (join ''; '' xs) = hd xs # map (\<lambda>x. CHR '' '' # x) (tl xs)"
proof (induction xs)
  case (Cons x xs)
  show ?case
  proof (cases xs)
    case Nil
    with Cons.prems show ?thesis by (simp add: split_on_single)
  next
    case (Cons y ys)
    with Cons.IH Cons.prems have "split_on CHR '';'' (join ''; '' xs) = y # map (\<lambda>x. CHR '' '' # x) ys" by simp
    with Cons Cons.prems show ?thesis by (simp add: split_on_append split_on_single)
  qed
qed simp

lemma trim_leading_space: "trim_space (CHR '' '' # s) = trim_space s"
  by (simp add: trim_space_def is_space_def)

lemma trim_subset: "set (trim_space s) \<subseteq> set s"
proof -
  have "set (dropWhile is_space xs) \<subseteq> set xs" for xs by (auto dest: set_dropWhileD)
  from this [of s] this [of "rev (dropWhile is_space s)"] show ?thesis by (auto simp: trim_space_def)
qed

lemma hd_map_tl: "ks \<noteq> [] \<Longrightarrow> p \<in> set (hd ks # map f (tl ks)) \<Longrightarrow> \<exists>x \<in> set ks. p = x \<or> p = f x"
  by (cases ks) auto

lemma extractCookie_removed: "extractCookie (fst (removeCookie hdr name)) name = []"
proof -
  let ?parts = "filter (\<lambda>part. part \<noteq> []) (map trim_space (split_on CHR '';'' hdr))"
  let ?kept = "filter (\<lambda>part. \<not> names_cookie name part) ?parts"
  have r: "fst (removeCookie hdr name) = join ''; '' ?kept" by (simp add: removeCookie_def Let_def)
  show ?thesis
  proof (cases "?kept = []")
    case True
    then show ?thesis unfolding r by (simp add: extractCookie_def trim_space_def)
  next
    case False
    have plain: "\<forall>x \<in> set ?kept. CHR '';'' \<notin> set x" using trim_subset by (fastforce dest: split_on_parts)
    have trimmed: "trim_space x = x" if "x \<in> set ?kept" for x using that by auto
    have "\<not> names_cookie name (trim_space p)" if "p \<in> set (hd ?kept # map (\<lambda>x. CHR '' '' # x) (tl ?kept))" for p
    proof -
      from hd_map_tl [OF False that] obtain x where "x \<in> set ?kept" "p = x \<or> p = CHR '' '' # x" by blast
      moreover from this have "trim_space p = trim_space x" by (auto simp: trim_leading_space)
      ultimately have "x \<in> set ?kept" "trim_space p = trim_space x" by simp_all
      with trimmed [of x] show ?thesis by simp
    qed
    then show ?thesis
      unfolding r extractCookie_def split_on_join_space [OF False plain] by (intro find_cookie_none) blast
  qed
qed

lemma extractCookie_absent: "\<not> snd (removeCookie hdr name) \<Longrightarrow> extractCookie hdr name = []"
  unfolding extractCookie_def
  by (rule find_cookie_none) (auto simp: removeCookie_def Let_def names_cookie_def split: option.splits)

lemma inject_claims_Path [simp]: "ctx_Path (fold (inject_claim cl) ms ctx) = ctx_Path ctx"
  by (induction ms arbitrary: ctx) (auto simp: inject_claim_def Let_def split: option.split)

lemma inject_claim_unmapped:
  assumes "to_lower q = q" "\<forall>m \<in> set ms. to_lower (snd m) \<noteq> q"
  shows "GetHeader (fold (inject_claim cl) ms ctx) q = GetHeader ctx q"
  using assms(2)
proof (induction ms arbitrary: ctx)
  case (Cons m ms)
  have "GetHeader (inject_claim cl m ctx) q = GetHeader ctx q"
    using Cons.prems assms(1) by (auto simp: inject_claim_def Let_def upstream.get_put split: option.split)
  with Cons show ?case by simp
qed simp

lemma extract_stripped:
  assumes "jc_StripToken cfg" "to_lower (jc_HeaderName cfg) = jc_HeaderName cfg"
    "to_lower (jc_Source cfg) = ''query'' \<Longrightarrow> jc_QueryParam cfg \<noteq> []"
  shows "extractToken cfg (stripToken cfg ctx) = []"
proof -
  let ?source = "to_lower (jc_Source cfg)"
  consider "?source = ''query''" | "?source = ''cookie''" | "?source \<noteq> ''query''" "?source \<noteq> ''cookie''" by blast
  then show ?thesis
  proof cases
    case 1
    have "ctx_Path (stripToken cfg ctx) = removeQueryParam (ctx_Path ctx) (jc_QueryParam cfg)"
      using 1 assms(1) by (simp add: stripToken_def Let_def)
    with 1 assms(3) extract_removed show ?thesis by (simp add: extractToken_def Let_def)
  next
    case 2
    let ?r = "removeCookie (GetHeader ctx ''cookie'') (jc_CookieName cfg)"
    have c: "to_lower ''cookie'' = ''cookie''" by code_simp
    have e: "extractCookie [] nm = []" for nm by (simp add: extractCookie_def trim_space_def)
    have "GetHeader (stripToken cfg ctx) ''cookie'' = (if snd ?r then fst ?r else GetHeader ctx ''cookie'')"
      using 2 assms(1) c by (auto simp: stripToken_def Let_def upstream.get_put upstream.get_del split: prod.split)
    with 2 extractCookie_removed [of "GetHeader ctx ''cookie''"] extractCookie_absent [of "GetHeader ctx ''cookie''"]
    show ?thesis by (simp add: extractToken_def Let_def)
  next
    case 3
    have "GetHeader (stripToken cfg ctx) (jc_HeaderName cfg) = []"
      using 3 assms(1,2) by (simp add: stripToken_def Let_def upstream.get_del)
    with 3 show ?thesis by (simp add: extractToken_def Let_def trim_space_def)
  qed
qed

text \<open>with \<^verbatim>\<open>strip_token\<close> the upstream does not get the token. In the request that passes, the token
  can no longer be found where the filter found it, be it the header, the query parameter or the cookie.\<close>

theorem stripped_token_not_forwarded:
  assumes "lock_law ops cfg" "keys_ok ops cfg st" "jwt_Execute ops cfg ctx (st, w) = (err, c, st', w')" "\<not> ctx_Blocked c"
    "jc_StripToken cfg" "to_lower (jc_HeaderName cfg) = jc_HeaderName cfg" "jc_QueryParam cfg \<noteq> []"
  shows "extractToken cfg (without_claims cfg ctx) \<noteq> [] \<and> extractToken cfg c = []"
  using assms(1,2,3)
proof (cases rule: jwt_Execute_cases)
  case (rejected msg e)
  with assms(4) show ?thesis by simp
qed (use extract_stripped [OF assms(5,6)] assms(7) in \<open>simp_all add: pass_token_def\<close>)

subsection \<open>Lawfulness\<close>

lemma lawful_without_claims: "lawful_change c d \<Longrightarrow> lawful_change c (without_claims cfg d)"
  unfolding without_claims_def by (rule lawful_change_fold) auto

lemma lawful_stripToken: "lawful_change c d \<Longrightarrow> lawful_change c (stripToken cfg d)"
  by (auto simp: stripToken_def Let_def split: prod.split)

lemma lawful_challenge: "lawful_change c d \<Longrightarrow> lawful_change c (challenge msg e d)"
  by (auto simp: challenge_def)

lemma lawful_pass_token: "lawful_change c d \<Longrightarrow> lawful_change c (pass_token cfg cl d)"
  unfolding pass_token_def
  by (intro lawful_stripToken lawful_change_fold) (auto simp: inject_claim_def Let_def split: option.split)

lemma jwt_lawful: "lawful_exec (bf_exec (jwt_base ops cfg))"
proof (rule lawful_exec_change)
  fix ctx and sw :: "'a jwt_state \<times> 'b" and err c sw'
  assume "bf_exec (jwt_base ops cfg) ctx sw = (err, c, sw')"
  then have e: "jwt_Execute ops cfg ctx sw = (err, c, sw')" by (simp add: jwt_base_def)
  have "lawful_change ctx (without_claims cfg ctx)" by (rule lawful_without_claims) simp
  then show "lawful_change ctx c"
    using e
    by (auto simp: jwt_Execute_def Let_def without_claims_def [symmetric]
        intro: lawful_challenge lawful_pass_token lawful_stripToken
        split: if_splits prod.splits sum.splits intro_error.splits)
qed

subsection \<open>A mapping that locks everybody out\<close>

text \<open>Mapped headers are removed before the token is looked for. If a claim is mapped onto the header
  that carries the token, no request has a token any more.\<close>

text \<open>with a claim mapped onto the token's own header, every request is answered 401, whatever token it
  carries.\<close>

theorem mapped_token_header_locks_out:
  assumes "(claim, jc_HeaderName cfg) \<in> set (jc_ClaimMappings cfg)" "to_lower (jc_HeaderName cfg) = jc_HeaderName cfg"
    "to_lower (jc_Source cfg) = ''header''"
  shows "jwt_Execute ops cfg ctx sw = (None, challenge ''missing authentication token'' [] (without_claims cfg ctx), sw)"
proof -
  have "GetHeader (without_claims cfg ctx) (jc_HeaderName cfg) = []"
    using without_claims_header [OF assms(2), of cfg ctx] assms(1,2) by (force simp: image_iff)
  with assms(3) have "extractToken cfg (without_claims cfg ctx) = []"
    by (simp add: extractToken_def Let_def trim_space_def)
  then show ?thesis by (simp add: jwt_Execute_def Let_def without_claims_def)
qed

subsection \<open>Examples\<close>

definition ex_jwt_config :: jwt_Config where
  "ex_jwt_config = \<lparr>jc_Source = ''header'', jc_HeaderName = ''authorization'', jc_QueryParam = ''token'', jc_CookieName = [],
     jc_JWKSEndpoint = [], jc_JWKSRefreshInterval = 300000000000, jc_LocalSecret = ''s3cret'', jc_LocalSecretFile = [],
     jc_Algorithm = ''HS256'', jc_Issuer = ''idp'', jc_Audience = [], jc_ClaimMappings = [(''sub'', ''x-user'')],
     jc_IntrospectionEndpoint = [], jc_IntrospectionAuthHeader = [], jc_IntrospectionAuthHeaderFile = [],
     jc_IntrospectionTimeout = 2000000000, jc_FailOpen = False, jc_StripToken = True\<rparr>"

text \<open>A token library that accepts one token, and a world that is a clock.\<close>

definition ex_jwt_ops :: "(nat, int) jwt_ops" where
  "ex_jwt_ops = \<lparr>jo_ParseString = (\<lambda>key iss aud token w.
       if token = ''good'' then (Ok [(''sub'', CJSON (JStr ''alice''))], w) else (Err ''bad signature'', w)),
     jo_Fetch = (\<lambda>url w. (Ok 7, w)), jo_now = (\<lambda>w. (w, w + 1)), jo_ValidURL = (\<lambda>_. True),
     jo_Do = (\<lambda>url auth body w. (Err ''refused'', w)), jo_Decode = (\<lambda>b. Err ''no json''), jo_lock = (\<lambda>sw. sw)\<rparr>"

definition ex_jwt_state :: "nat jwt_state" where
  "ex_jwt_state = \<lparr>js_keySet = None, js_lastFetch = 0\<rparr>"

definition ex_jwt_request :: RequestContext where
  "ex_jwt_request = new_context\<lparr>ctx_Headers := [''authorization'' \<mapsto> ''Bearer good'', ''x-user'' \<mapsto> ''root'']\<rparr>"

definition ex_jwt_result :: "string option \<times> RequestContext \<times> nat jwt_state \<times> int" where
  "ex_jwt_result = jwt_Execute ex_jwt_ops ex_jwt_config ex_jwt_request (ex_jwt_state, 0)"

lemma ex_jwt_laws: "lock_law ex_jwt_ops ex_jwt_config" "keys_ok ex_jwt_ops ex_jwt_config ex_jwt_state"
  by (simp_all add: lock_law_def keys_ok_def ex_jwt_ops_def ex_jwt_state_def)

lemma ex_jwt_headers:
  "\<not> ctx_Blocked (fst (snd ex_jwt_result))" "GetHeader (fst (snd ex_jwt_result)) ''x-user'' = ''alice''"
  "lower_mappings ex_jwt_config" "to_lower (jc_HeaderName ex_jwt_config) = jc_HeaderName ex_jwt_config"
  by code_simp+

lemma ex_jwt_eq:
  "jwt_Execute ex_jwt_ops ex_jwt_config ex_jwt_request (ex_jwt_state, 0) =
   (fst ex_jwt_result, fst (snd ex_jwt_result), fst (snd (snd ex_jwt_result)), snd (snd (snd ex_jwt_result)))"
  by (simp add: ex_jwt_result_def)

theorem jwt_pass_needs_token_witness:
  "\<not> ctx_Blocked (fst (snd ex_jwt_result)) \<and> extractToken ex_jwt_config (without_claims ex_jwt_config ex_jwt_request) \<noteq> []"
  using jwt_pass_needs_token [OF ex_jwt_laws ex_jwt_eq ex_jwt_headers(1)] ex_jwt_headers(1) by (simp add: Let_def)


theorem stripped_token_not_forwarded_witness:
  "extractToken ex_jwt_config (fst (snd ex_jwt_result)) = []"
  using stripped_token_not_forwarded [OF ex_jwt_laws ex_jwt_eq ex_jwt_headers(1) _ ex_jwt_headers(4)]
  by (simp add: ex_jwt_config_def)

theorem mapped_token_header_locks_out_witness:
  "ctx_Blocked (fst (snd (jwt_Execute ex_jwt_ops (ex_jwt_config\<lparr>jc_ClaimMappings := [(''sub'', ''authorization'')]\<rparr>) ex_jwt_request (ex_jwt_state, 0))))"
proof -
  have "to_lower ''authorization'' = ''authorization''" "to_lower ''header'' = ''header''" by code_simp+
  then show ?thesis
    using mapped_token_header_locks_out [of "''sub''" "ex_jwt_config\<lparr>jc_ClaimMappings := [(''sub'', ''authorization'')]\<rparr>"
        ex_jwt_ops ex_jwt_request "(ex_jwt_state, 0)"]
    by (simp add: ex_jwt_config_def)
qed

end
