(* ===== verification/Sidecar_Filters.thy ===== *)
theory Sidecar_Filters
  imports Simple_Filters Config
begin

text \<open>
  The filters that ask a sidecar: \<^verbatim>\<open>internal/filters/sidecar\<close>, \<^verbatim>\<open>internal/filters/external_auth\<close>,
  \<^verbatim>\<open>internal/filters/firewall\<close> and their configuration. The exchanges with the sidecar are parameters: an HTTP
  round trip, an ext_authz check, and the messages of an ext_proc stream. So is the order in which Go iterates over a map.
\<close>

subsection \<open>HTTP headers\<close>

text \<open>\<^verbatim>\<open>http.CanonicalHeaderKey\<close>: words start upper-case; a key with a byte that is not allowed in a token is left alone.\<close>

definition valid_field_byte :: "char \<Rightarrow> bool" where
  "valid_field_byte ch \<longleftrightarrow> is_lower_letter ch \<or> is_upper ch \<or> is_digit ch \<or>
     ch \<in> set ''!#$%&*+-.^_|~'' \<union> {CHR 0x27, CHR 0x60}"

fun canonical_chars :: "bool \<Rightarrow> string \<Rightarrow> string" where
  "canonical_chars up [] = []"
| "canonical_chars up (ch # s) = (if up then upper_char ch else lower_char ch) # canonical_chars (ch = CHR ''-'') s"

definition CanonicalHeaderKey :: "string \<Rightarrow> string" where
  "CanonicalHeaderKey k = (if \<forall>ch \<in> set k. valid_field_byte ch then canonical_chars True k else k)"

record http_request =
  hq_Method :: string
  hq_URL :: string
  hq_Host :: string
  hq_Header :: "(string \<times> string) list"
  hq_Body :: "string option"

record http_response =
  hr_Status :: int
  hr_Header :: "(string \<times> string list) list"
  hr_Body :: string

definition header_Set :: "string \<Rightarrow> string \<Rightarrow> http_request \<Rightarrow> http_request" where
  "header_Set k v req = req\<lparr>hq_Header := AList.update (CanonicalHeaderKey k) v (hq_Header req)\<rparr>"

definition header_Get :: "http_request \<Rightarrow> string \<Rightarrow> string option" where
  "header_Get req k = map_of (hq_Header req) (CanonicalHeaderKey k)"

text \<open>The first value of a response header.\<close>

definition response_lookup :: "http_response \<Rightarrow> string \<Rightarrow> string option" where
  "response_lookup resp k =
     (case map_of (hr_Header resp) (CanonicalHeaderKey k) of Some (v # vs) \<Rightarrow> Some v | _ \<Rightarrow> None)"

subsection \<open>What the sidecar is shown\<close>

definition hopByHop :: "string list" where
  "hopByHop = [''connection'', ''keep-alive'', ''proxy-connection'', ''transfer-encoding'', ''te'', ''trailer'', ''upgrade'',
     ''content-length'', ''proxy-authorization'']"

definition ForwardAll :: "string list \<Rightarrow> bool" where
  "ForwardAll xs \<longleftrightarrow> xs = [] \<or> (\<exists>h \<in> set xs. h = ''*'' \<or> equal_fold h ''all'')"

definition forwardable :: "string \<Rightarrow> bool" where
  "forwardable k \<longleftrightarrow> \<not> has_prefix k '':'' \<and> k \<notin> set hopByHop"

definition add_header :: "RequestContext \<Rightarrow> string \<Rightarrow> (string \<times> string) list \<Rightarrow> (string \<times> string) list" where
  "add_header ctx k0 out =
     (let k = to_lower k0 in
      if \<not> forwardable k then out
      else (let v = GetHeader ctx k in if v \<noteq> [] then AList.update k v out else out))"

definition SelectHeaders :: "((string \<rightharpoonup> string) \<Rightarrow> string list) \<Rightarrow> RequestContext \<Rightarrow> string list \<Rightarrow> (string \<times> string) list" where
  "SelectHeaders order ctx xs =
     (if ForwardAll xs
      then fold (add_header ctx) (order (ctx_UpstreamShadow ctx)) (fold (add_header ctx) (order (ctx_Headers ctx)) [])
      else fold (add_header ctx) xs [])"

definition SetHTTPHeaders :: "(string \<times> string) list \<Rightarrow> http_request \<Rightarrow> http_request" where
  "SetHTTPHeaders hs req = fold (\<lambda>(k, v) r. if k \<in> set hopByHop \<or> k = ''host'' then r else header_Set k v r) hs req"

definition request_host :: "RequestContext \<Rightarrow> string" where
  "request_host ctx =
     (let host = get_or_empty (ctx_Headers ctx) '':authority''
      in if host = [] then get_or_empty (ctx_Headers ctx) ''host'' else host)"

definition SetForwardedRequest :: "RequestContext \<Rightarrow> http_request \<Rightarrow> http_request" where
  "SetForwardedRequest ctx req0 =
     (let host = request_host ctx;
          scheme0 = get_or_empty (ctx_Headers ctx) '':scheme'';
          scheme = (if scheme0 = [] then ''http'' else scheme0);
          req1 = header_Set ''X-Original-Uri'' (ctx_Path ctx) (header_Set ''X-Original-Method'' (ctx_Method ctx)
                   (header_Set ''X-Forwarded-Proto'' scheme (header_Set ''X-Forwarded-Uri'' (ctx_Path ctx)
                     (header_Set ''X-Forwarded-Method'' (ctx_Method ctx) req0))));
          req2 = (if host \<noteq> [] then header_Set ''X-Original-Url'' (scheme @ ''://'' @ host @ ctx_Path ctx)
                    (header_Set ''X-Forwarded-Host'' host req1) else req1)
      in if ctx_ClientIP ctx \<noteq> [] then header_Set ''X-Real-Ip'' (ctx_ClientIP ctx)
           (header_Set ''X-Forwarded-For'' (ctx_ClientIP ctx) req2) else req2)"

subsection \<open>Messages of the gRPC protocols\<close>

record header_value =
  hv_Key :: string
  hv_Value :: string
  hv_RawValue :: string

record check_request =
  ca_Id :: string
  ca_Method :: string
  ca_Path :: string
  ca_Host :: string
  ca_Scheme :: string
  ca_Protocol :: string
  ca_Headers :: "(string \<times> string) list"
  ca_Source :: "string option"

text \<open>A missing (nil) header of an option is None; a missing status is code 0.\<close>

record denied_response =
  dn_Code :: int
  dn_Body :: string
  dn_Headers :: "header_value option list"

record check_response =
  ck_Code :: int
  ck_Ok :: "header_value option list option"
  ck_Denied :: "denied_response option"

record header_mutation =
  mt_Set :: "header_value option list"
  mt_Remove :: "string list"

datatype proc_request = RequestHeadersMsg "(string \<times> string) list" | RequestBodyMsg string

datatype proc_response =
    Immediate int string "header_value option list"
  | HeadersResp "header_mutation option"
  | BodyResp "header_mutation option"
  | OtherResp

record 'w sidecar_ops =
  so_range :: "(string \<rightharpoonup> string) \<Rightarrow> string list"
  so_ValidRequest :: "string \<Rightarrow> string \<Rightarrow> bool"
  so_Do :: "http_request \<Rightarrow> 'w \<Rightarrow> (string, http_response) result \<times> 'w"
  so_Check :: "check_request \<Rightarrow> 'w \<Rightarrow> (string, check_response) result \<times> 'w"
  so_Process :: "'w \<Rightarrow> (string, nat) result \<times> 'w"
  so_Send :: "nat \<Rightarrow> proc_request \<Rightarrow> 'w \<Rightarrow> (string, unit) result \<times> 'w"
  so_Recv :: "nat \<Rightarrow> 'w \<Rightarrow> (string, proc_response) result \<times> 'w"

subsection \<open>External authorization\<close>

record AuthSuccessRules =
  as_UpstreamHeadersToAdd :: "string list"
  as_UpstreamHeadersToRemove :: "string list"

record AuthFailureRules =
  af_DownstreamPassThroughHeaders :: "string list"

record ExternalAuthConfig =
  ea_Protocol :: string
  ea_SocketPath :: string
  ea_Timeout :: string
  ea_TimeoutDuration :: int
  ea_Path :: string
  ea_ForwardHeaders :: "string list"
  ea_OnSuccess :: AuthSuccessRules
  ea_OnFailure :: AuthFailureRules

definition lower_success :: "AuthSuccessRules \<Rightarrow> AuthSuccessRules" where
  "lower_success r = \<lparr>as_UpstreamHeadersToAdd = map to_lower (as_UpstreamHeadersToAdd r),
     as_UpstreamHeadersToRemove = map to_lower (as_UpstreamHeadersToRemove r)\<rparr>"

definition lower_failure :: "AuthFailureRules \<Rightarrow> AuthFailureRules" where
  "lower_failure r = \<lparr>af_DownstreamPassThroughHeaders = map to_lower (af_DownstreamPassThroughHeaders r)\<rparr>"

definition timeout_or_2s :: "string \<Rightarrow> int" where
  "timeout_or_2s s = (case ParseDuration s of None \<Rightarrow> 2000000000 | Some d \<Rightarrow> d)"

text \<open>The options after they have been decoded into the record.\<close>

definition ParseExternalAuthConfig :: "ExternalAuthConfig \<Rightarrow> (string, ExternalAuthConfig) result" where
  "ParseExternalAuthConfig cfg =
     (let protocol0 = to_lower (ea_Protocol cfg);
          protocol = (if protocol0 = [] then ''http'' else protocol0);
          timeout = (if ea_Timeout cfg = [] then ''2s'' else ea_Timeout cfg);
          path = (if ea_Path cfg = [] then ''/'' else if \<not> has_prefix (ea_Path cfg) ''/'' then ''/'' @ ea_Path cfg else ea_Path cfg) in
      if protocol \<noteq> ''http'' \<and> protocol \<noteq> ''grpc'' then Err (''external_auth: unsupported protocol '' @ protocol)
      else Ok (cfg\<lparr>ea_Protocol := protocol, ea_Timeout := timeout, ea_Path := path,
                   ea_TimeoutDuration := timeout_or_2s timeout,
                   ea_ForwardHeaders := map to_lower (ea_ForwardHeaders cfg),
                   ea_OnSuccess := lower_success (ea_OnSuccess cfg), ea_OnFailure := lower_failure (ea_OnFailure cfg)\<rparr>))"

text \<open>A filter holds an HTTP client with a time limit or a gRPC connection.\<close>

datatype sidecar_client = HTTPClient int | GRPCClient nat

definition NewSidecarClient ::
  "(string \<Rightarrow> 'w \<Rightarrow> (string, nat) result \<times> 'w) \<Rightarrow> string \<Rightarrow> string \<Rightarrow> string \<Rightarrow> int \<Rightarrow> 'w \<Rightarrow> (string, sidecar_client) result \<times> 'w" where
  "NewSidecarClient NewClient filter_name protocol socketPath timeout w =
     (if equal_fold protocol ''grpc'' then
        (case NewClient (''unix://'' @ socketPath) w of
           (Err e, w1) \<Rightarrow> (Err (filter_name @ '': failed to dial gRPC UDS socket: '' @ e), w1)
         | (Ok conn, w1) \<Rightarrow> (Ok (GRPCClient conn), w1))
      else (Ok (HTTPClient timeout), w))"

definition NewExternalAuthFilter ::
  "(string \<Rightarrow> 'w \<Rightarrow> (string, nat) result \<times> 'w) \<Rightarrow> ExternalAuthConfig \<Rightarrow> 'w \<Rightarrow> (string, ExternalAuthConfig \<times> sidecar_client) result \<times> 'w" where
  "NewExternalAuthFilter NewClient cfg w =
     (case NewSidecarClient NewClient ''external_auth'' (ea_Protocol cfg) (ea_SocketPath cfg) (ea_TimeoutDuration cfg) w of
        (Err e, w1) \<Rightarrow> (Err e, w1)
      | (Ok c, w1) \<Rightarrow> (Ok (cfg, c), w1))"

definition sidecarFailure :: "RequestContext \<Rightarrow> RequestContext" where
  "sidecarFailure ctx = Block 500 ''Internal Server Error'' ctx"

definition headerValue :: "header_value \<Rightarrow> string" where
  "headerValue h = (if hv_RawValue h \<noteq> [] then hv_RawValue h else hv_Value h)"

definition set_found :: "(string \<Rightarrow> string \<Rightarrow> RequestContext \<Rightarrow> RequestContext) \<Rightarrow> (string \<Rightarrow> string option) \<Rightarrow> string \<Rightarrow> RequestContext \<Rightarrow> RequestContext" where
  "set_found put lookup k ctx = (case lookup k of Some v \<Rightarrow> put k v ctx | None \<Rightarrow> ctx)"

definition applySuccess :: "AuthSuccessRules \<Rightarrow> (string \<Rightarrow> string option) \<Rightarrow> RequestContext \<Rightarrow> RequestContext" where
  "applySuccess r lookup ctx =
     fold RemoveHeaderUpstream (as_UpstreamHeadersToRemove r)
       (fold (set_found SetHeaderUpstream lookup) (as_UpstreamHeadersToAdd r) ctx)"

definition applyFailure :: "AuthFailureRules \<Rightarrow> (string \<Rightarrow> string option) \<Rightarrow> RequestContext \<Rightarrow> RequestContext" where
  "applyFailure r lookup ctx = fold (set_found SetHeaderDownstream lookup) (af_DownstreamPassThroughHeaders r) ctx"

text \<open>The headers of a check response as a map; a later entry wins.\<close>

definition response_headers :: "header_value option list \<Rightarrow> (string \<rightharpoonup> string)" where
  "response_headers hs = fold (\<lambda>ho m. case ho of Some h \<Rightarrow> m(to_lower (hv_Key h) \<mapsto> headerValue h) | None \<Rightarrow> m) hs Map.empty"

definition check_attributes :: "'w sidecar_ops \<Rightarrow> ExternalAuthConfig \<Rightarrow> RequestContext \<Rightarrow> check_request" where
  "check_attributes ops cfg ctx =
     \<lparr>ca_Id = GetHeader ctx ''x-request-id'', ca_Method = ctx_Method ctx, ca_Path = ctx_Path ctx, ca_Host = request_host ctx,
      ca_Scheme = get_or_empty (ctx_Headers ctx) '':scheme'', ca_Protocol = ''HTTP/2'',
      ca_Headers = SelectHeaders (so_range ops) ctx (ea_ForwardHeaders cfg),
      ca_Source = (if ctx_ClientIP ctx \<noteq> [] then Some (ctx_ClientIP ctx) else None)\<rparr>"

definition ext_auth_executeGRPC ::
  "'w sidecar_ops \<Rightarrow> ExternalAuthConfig \<Rightarrow> RequestContext \<Rightarrow> 'w \<Rightarrow> string option \<times> RequestContext \<times> 'w" where
  "ext_auth_executeGRPC ops cfg ctx w =
     (case so_Check ops (check_attributes ops cfg ctx) w of
        (Err e, w1) \<Rightarrow> (None, sidecarFailure ctx, w1)
      | (Ok resp, w1) \<Rightarrow>
          if ck_Code resp = 0 then
            (None, applySuccess (ea_OnSuccess cfg) (response_headers (case ck_Ok resp of Some hs \<Rightarrow> hs | None \<Rightarrow> [])) ctx, w1)
          else
            (let (status, body, hs) =
                   (case ck_Denied resp of
                      Some d \<Rightarrow> (if dn_Code d \<noteq> 0 then dn_Code d else 403, dn_Body d, dn_Headers d)
                    | None \<Rightarrow> (403, [], []))
             in (None, applyFailure (ea_OnFailure cfg) (response_headers hs) (Block status body ctx), w1)))"

definition ext_auth_request :: "'w sidecar_ops \<Rightarrow> ExternalAuthConfig \<Rightarrow> RequestContext \<Rightarrow> http_request" where
  "ext_auth_request ops cfg ctx =
     SetForwardedRequest ctx (SetHTTPHeaders (SelectHeaders (so_range ops) ctx (ea_ForwardHeaders cfg))
       \<lparr>hq_Method = ''GET'', hq_URL = ''http://localhost'' @ ea_Path cfg, hq_Host = ''localhost'', hq_Header = [], hq_Body = None\<rparr>)"

definition ext_auth_executeHTTP ::
  "'w sidecar_ops \<Rightarrow> ExternalAuthConfig \<Rightarrow> RequestContext \<Rightarrow> 'w \<Rightarrow> string option \<times> RequestContext \<times> 'w" where
  "ext_auth_executeHTTP ops cfg ctx w =
     (if \<not> so_ValidRequest ops ''GET'' (''http://localhost'' @ ea_Path cfg) then (None, sidecarFailure ctx, w)
      else (case so_Do ops (ext_auth_request ops cfg ctx) w of
              (Err e, w1) \<Rightarrow> (None, sidecarFailure ctx, w1)
            | (Ok resp, w1) \<Rightarrow>
                if hr_Status resp \<ge> 200 \<and> hr_Status resp < 300
                then (None, applySuccess (ea_OnSuccess cfg) (response_lookup resp) ctx, w1)
                else (None, applyFailure (ea_OnFailure cfg) (response_lookup resp)
                              (Block (hr_Status resp) (take 16384 (hr_Body resp)) ctx), w1)))"

definition ext_auth_Execute ::
  "'w sidecar_ops \<Rightarrow> ExternalAuthConfig \<Rightarrow> RequestContext \<Rightarrow> 'w \<Rightarrow> string option \<times> RequestContext \<times> 'w" where
  "ext_auth_Execute ops cfg ctx w =
     (if equal_fold (ea_Protocol cfg) ''grpc'' then ext_auth_executeGRPC ops cfg ctx w else ext_auth_executeHTTP ops cfg ctx w)"

definition ext_auth_base :: "'w sidecar_ops \<Rightarrow> ExternalAuthConfig \<Rightarrow> 'w base_filter" where
  "ext_auth_base ops cfg = \<lparr>bf_phases = None, bf_exec = ext_auth_Execute ops cfg\<rparr>"

subsection \<open>Firewall\<close>

record FirewallFilterConfig =
  fw_Protocol :: string
  fw_SocketPath :: string
  fw_Timeout :: string
  fw_TimeoutDuration :: int
  fw_InspectBody :: bool
  fw_MaxBodySizeKB :: int
  fw_ForwardHeaders :: "string list"
  fw_OnSuccess :: AuthSuccessRules
  fw_OnFailure :: AuthFailureRules

definition ParseFirewallFilterConfig :: "FirewallFilterConfig \<Rightarrow> (string, FirewallFilterConfig) result" where
  "ParseFirewallFilterConfig cfg =
     (let protocol0 = to_lower (fw_Protocol cfg);
          protocol = (if protocol0 = [] then ''grpc'' else protocol0);
          timeout = (if fw_Timeout cfg = [] then ''2s'' else fw_Timeout cfg) in
      if protocol \<noteq> ''http'' \<and> protocol \<noteq> ''grpc'' then Err (''firewall: unsupported protocol '' @ protocol)
      else Ok (cfg\<lparr>fw_Protocol := protocol, fw_Timeout := timeout, fw_TimeoutDuration := timeout_or_2s timeout,
                   fw_MaxBodySizeKB := (if fw_MaxBodySizeKB cfg \<le> 0 then 1024 else fw_MaxBodySizeKB cfg),
                   fw_ForwardHeaders := map to_lower (fw_ForwardHeaders cfg),
                   fw_OnSuccess := lower_success (fw_OnSuccess cfg), fw_OnFailure := lower_failure (fw_OnFailure cfg)\<rparr>))"

definition NewFirewallFilter ::
  "(string \<Rightarrow> 'w \<Rightarrow> (string, nat) result \<times> 'w) \<Rightarrow> FirewallFilterConfig \<Rightarrow> 'w \<Rightarrow> (string, FirewallFilterConfig \<times> sidecar_client) result \<times> 'w" where
  "NewFirewallFilter NewClient cfg w =
     (case NewSidecarClient NewClient ''firewall'' (fw_Protocol cfg) (fw_SocketPath cfg) (fw_TimeoutDuration cfg) w of
        (Err e, w1) \<Rightarrow> (Err e, w1)
      | (Ok c, w1) \<Rightarrow> (Ok (cfg, c), w1))"

definition firewall_SupportedPhases :: "FirewallFilterConfig \<Rightarrow> Phase list" where
  "firewall_SupportedPhases cfg = (if fw_InspectBody cfg then [PhaseRequestHeaders, PhaseRequestBody] else [PhaseRequestHeaders])"

definition waf_headers :: "'w sidecar_ops \<Rightarrow> FirewallFilterConfig \<Rightarrow> RequestContext \<Rightarrow> (string \<times> string) list" where
  "waf_headers ops cfg ctx =
     [('':path'', ctx_Path ctx), ('':method'', ctx_Method ctx)] @
     concat (map (\<lambda>pseudo. let v = get_or_empty (ctx_Headers ctx) pseudo in if v \<noteq> [] then [(pseudo, v)] else [])
       ['':authority'', '':scheme'']) @
     SelectHeaders (so_range ops) ctx (fw_ForwardHeaders cfg)"

text \<open>The part of the body the sidecar sees, if any.\<close>

definition inspected_body :: "FirewallFilterConfig \<Rightarrow> RequestContext \<Rightarrow> string option" where
  "inspected_body cfg ctx =
     (case ctx_RequestBody ctx of
        Some body \<Rightarrow> if fw_InspectBody cfg \<and> body \<noteq> [] then Some (take (nat (fw_MaxBodySizeKB cfg * 1024)) body) else None
      | None \<Rightarrow> None)"

definition set_option :: "(string \<Rightarrow> string \<Rightarrow> RequestContext \<Rightarrow> RequestContext) \<Rightarrow> header_value option \<Rightarrow> RequestContext \<Rightarrow> RequestContext" where
  "set_option put h ctx = (case h of Some v \<Rightarrow> put (hv_Key v) (hv_Value v) ctx | None \<Rightarrow> ctx)"

definition apply_immediate :: "int \<Rightarrow> string \<Rightarrow> header_value option list \<Rightarrow> RequestContext \<Rightarrow> RequestContext" where
  "apply_immediate code body hs ctx =
     fold (set_option SetHeaderDownstream) hs
       (ctx\<lparr>ctx_Blocked := True, ctx_ResponseStatus := (if code \<noteq> 0 then code else 403), ctx_ResponseBody := body\<rparr>)"

definition apply_mutation :: "header_mutation option \<Rightarrow> RequestContext \<Rightarrow> RequestContext" where
  "apply_mutation m ctx =
     (case m of
        Some mu \<Rightarrow> fold RemoveHeaderUpstream (mt_Remove mu) (fold (set_option SetHeaderUpstream) (mt_Set mu) ctx)
      | None \<Rightarrow> ctx)"

definition waf_failure :: "RequestContext \<Rightarrow> RequestContext" where
  "waf_failure ctx = ctx\<lparr>ctx_Blocked := True, ctx_ResponseStatus := 500, ctx_ResponseBody := ''Internal Server Error''\<rparr>"

definition send_recv :: "'w sidecar_ops \<Rightarrow> nat \<Rightarrow> proc_request \<Rightarrow> 'w \<Rightarrow> (string, proc_response) result \<times> 'w" where
  "send_recv ops stream msg w =
     (case so_Send ops stream msg w of
        (Err e, w1) \<Rightarrow> (Err e, w1)
      | (Ok _, w1) \<Rightarrow> so_Recv ops stream w1)"

definition waf_accept :: "FirewallFilterConfig \<Rightarrow> proc_response \<Rightarrow> RequestContext \<Rightarrow> RequestContext" where
  "waf_accept cfg resp ctx =
     fold RemoveHeaderUpstream (as_UpstreamHeadersToRemove (fw_OnSuccess cfg))
       (case resp of HeadersResp m \<Rightarrow> apply_mutation m ctx | BodyResp m \<Rightarrow> apply_mutation m ctx | _ \<Rightarrow> ctx)"

definition firewall_executeGRPC ::
  "'w sidecar_ops \<Rightarrow> FirewallFilterConfig \<Rightarrow> RequestContext \<Rightarrow> 'w \<Rightarrow> string option \<times> RequestContext \<times> 'w" where
  "firewall_executeGRPC ops cfg ctx w =
     (case so_Process ops w of
        (Err e, w0) \<Rightarrow> (None, waf_failure ctx, w0)
      | (Ok stream, w0) \<Rightarrow>
          (case send_recv ops stream (RequestHeadersMsg (waf_headers ops cfg ctx)) w0 of
             (Err e, w1) \<Rightarrow> (None, waf_failure ctx, w1)
           | (Ok (Immediate code body hs), w1) \<Rightarrow> (None, apply_immediate code body hs ctx, w1)
           | (Ok resp, w1) \<Rightarrow>
               (case inspected_body cfg ctx of
                  None \<Rightarrow> (None, waf_accept cfg resp ctx, w1)
                | Some part \<Rightarrow>
                    (case send_recv ops stream (RequestBodyMsg part) w1 of
                       (Err e, w2) \<Rightarrow> (None, waf_failure ctx, w2)
                     | (Ok (Immediate code body hs), w2) \<Rightarrow> (None, apply_immediate code body hs ctx, w2)
                     | (Ok resp', w2) \<Rightarrow> (None, waf_accept cfg resp' ctx, w2)))))"

definition replay_request :: "'w sidecar_ops \<Rightarrow> FirewallFilterConfig \<Rightarrow> RequestContext \<Rightarrow> http_request" where
  "replay_request ops cfg ctx =
     (let meth = (if ctx_Method ctx = [] then ''GET'' else ctx_Method ctx);
          path = (if \<not> has_prefix (ctx_Path ctx) ''/'' then ''/'' @ ctx_Path ctx else ctx_Path ctx);
          req = SetForwardedRequest ctx (SetHTTPHeaders (SelectHeaders (so_range ops) ctx (fw_ForwardHeaders cfg))
            \<lparr>hq_Method = meth, hq_URL = ''http://localhost'' @ path, hq_Host = ''localhost'', hq_Header = [],
             hq_Body = inspected_body cfg ctx\<rparr>);
          host = get_or_empty (ctx_Headers ctx) '':authority''
      in if host \<noteq> [] then req\<lparr>hq_Host := host\<rparr> else req)"

definition firewall_executeHTTP ::
  "'w sidecar_ops \<Rightarrow> FirewallFilterConfig \<Rightarrow> RequestContext \<Rightarrow> 'w \<Rightarrow> string option \<times> RequestContext \<times> 'w" where
  "firewall_executeHTTP ops cfg ctx w =
     (let req = replay_request ops cfg ctx in
      if \<not> so_ValidRequest ops (hq_Method req) (hq_URL req) then (None, Block 500 ''Internal Server Error'' ctx, w)
      else (case so_Do ops req w of
              (Err e, w1) \<Rightarrow> (None, Block 500 ''Internal Server Error'' ctx, w1)
            | (Ok resp, w1) \<Rightarrow>
                if hr_Status resp \<ge> 200 \<and> hr_Status resp < 300
                then (None, applySuccess (fw_OnSuccess cfg) (response_lookup resp) ctx, w1)
                else (None, applyFailure (fw_OnFailure cfg) (response_lookup resp)
                              (Block (hr_Status resp) (take 16384 (hr_Body resp)) ctx), w1)))"

definition firewall_inspect ::
  "'w sidecar_ops \<Rightarrow> FirewallFilterConfig \<Rightarrow> RequestContext \<Rightarrow> 'w \<Rightarrow> string option \<times> RequestContext \<times> 'w" where
  "firewall_inspect ops cfg ctx w =
     (if equal_fold (fw_Protocol cfg) ''grpc'' then firewall_executeGRPC ops cfg ctx w else firewall_executeHTTP ops cfg ctx w)"

definition firewall_Execute ::
  "'w sidecar_ops \<Rightarrow> FirewallFilterConfig \<Rightarrow> RequestContext \<Rightarrow> 'w \<Rightarrow> string option \<times> RequestContext \<times> 'w" where
  "firewall_Execute ops cfg ctx w =
     (if fw_InspectBody cfg \<and> \<not> ctx_RequestEndOfStream ctx \<and> ctx_Phase ctx = PhaseRequestHeaders
      then (None, ctx\<lparr>ctx_RequestBodyRequired := True\<rparr>, w)
      else if ctx_Phase ctx = PhaseRequestBody \<and> (\<not> fw_InspectBody cfg \<or> ctx_RequestEndOfStream ctx) then (None, ctx, w)
      else firewall_inspect ops cfg ctx w)"

definition firewall_base :: "'w sidecar_ops \<Rightarrow> FirewallFilterConfig \<Rightarrow> 'w base_filter" where
  "firewall_base ops cfg = \<lparr>bf_phases = Some (firewall_SupportedPhases cfg), bf_exec = firewall_Execute ops cfg\<rparr>"

subsection \<open>What the sidecar sees\<close>

lemma add_header_map:
  "map_of (add_header ctx k0 out) k =
     (if to_lower k0 = k \<and> forwardable k \<and> GetHeader ctx k \<noteq> [] then Some (GetHeader ctx k) else map_of out k)"
  by (simp add: add_header_def Let_def update_conv')

lemma add_headers_map:
  "map_of (fold (add_header ctx) ks out) k =
     (if k \<in> to_lower ` set ks \<and> forwardable k \<and> GetHeader ctx k \<noteq> [] then Some (GetHeader ctx k) else map_of out k)"
  by (induction ks arbitrary: out) (auto simp: add_header_map)

definition order_law :: "((string \<rightharpoonup> string) \<Rightarrow> string list) \<Rightarrow> bool" where
  "order_law order \<longleftrightarrow> (\<forall>m. finite (dom m) \<longrightarrow> set (order m) = dom m)"

definition plain_context :: "RequestContext \<Rightarrow> bool" where
  "plain_context ctx \<longleftrightarrow> finite (dom (ctx_Headers ctx)) \<and> finite (dom (ctx_UpstreamShadow ctx)) \<and>
     (\<forall>k \<in> dom (ctx_Headers ctx) \<union> dom (ctx_UpstreamShadow ctx). to_lower k = k)"

lemma GetHeader_dom: "GetHeader ctx k \<noteq> [] \<Longrightarrow> k \<in> dom (ctx_Headers ctx) \<union> dom (ctx_UpstreamShadow ctx)"
  by (auto simp: GetHeader_def get_or_empty_def split: option.splits if_splits)

text \<open>the headers a sidecar is shown are the request headers as earlier filters left them. Of these it gets
  exactly the configured ones, or all when none are configured; never a pseudo-header and never a hop-by-hop
  header.\<close>

theorem sidecar_sees_current_headers:
  assumes "order_law order" "plain_context ctx"
  shows "map_of (SelectHeaders order ctx xs) k =
    (if forwardable k \<and> GetHeader ctx k \<noteq> [] \<and> (ForwardAll xs \<or> k \<in> to_lower ` set xs) then Some (GetHeader ctx k) else None)"
proof (cases "ForwardAll xs")
  case True
  have s: "set (order (ctx_Headers ctx)) = dom (ctx_Headers ctx)" "set (order (ctx_UpstreamShadow ctx)) = dom (ctx_UpstreamShadow ctx)"
    using assms by (simp_all add: order_law_def plain_context_def)
  have "k \<in> to_lower ` (dom (ctx_Headers ctx) \<union> dom (ctx_UpstreamShadow ctx))" if "GetHeader ctx k \<noteq> []"
  proof -
    from GetHeader_dom [OF that] assms(2) have "k \<in> dom (ctx_Headers ctx) \<union> dom (ctx_UpstreamShadow ctx)" "to_lower k = k"
      unfolding plain_context_def by blast+
    then show ?thesis by (metis image_eqI)
  qed
  with True s show ?thesis by (auto simp: SelectHeaders_def add_headers_map image_Un)
qed (simp add: SelectHeaders_def add_headers_map)

lemma header_Get_Set: "header_Get (header_Set k v req) q = (if CanonicalHeaderKey k = CanonicalHeaderKey q then Some v else header_Get req q)"
  by (simp add: header_Get_def header_Set_def update_conv')

lemma canonical_forwarded:
  "CanonicalHeaderKey ''X-Forwarded-Method'' = ''X-Forwarded-Method''" "CanonicalHeaderKey ''X-Forwarded-Uri'' = ''X-Forwarded-Uri''"
  "CanonicalHeaderKey ''X-Forwarded-Proto'' = ''X-Forwarded-Proto''" "CanonicalHeaderKey ''X-Original-Method'' = ''X-Original-Method''"
  "CanonicalHeaderKey ''X-Original-Uri'' = ''X-Original-Uri''" "CanonicalHeaderKey ''X-Forwarded-Host'' = ''X-Forwarded-Host''"
  "CanonicalHeaderKey ''X-Original-Url'' = ''X-Original-Url''" "CanonicalHeaderKey ''X-Forwarded-For'' = ''X-Forwarded-For''"
  "CanonicalHeaderKey ''X-Real-Ip'' = ''X-Real-Ip''"
  by code_simp+

lemma forwarded_request:
  "header_Get (SetForwardedRequest ctx req) ''X-Forwarded-Method'' = Some (ctx_Method ctx)"
  "header_Get (SetForwardedRequest ctx req) ''X-Original-Method'' = Some (ctx_Method ctx)"
  "header_Get (SetForwardedRequest ctx req) ''X-Forwarded-Uri'' = Some (ctx_Path ctx)"
  "header_Get (SetForwardedRequest ctx req) ''X-Original-Uri'' = Some (ctx_Path ctx)"
  "ctx_ClientIP ctx \<noteq> [] \<Longrightarrow> header_Get (SetForwardedRequest ctx req) ''X-Forwarded-For'' = Some (ctx_ClientIP ctx)"
  "ctx_ClientIP ctx \<noteq> [] \<Longrightarrow> header_Get (SetForwardedRequest ctx req) ''X-Real-Ip'' = Some (ctx_ClientIP ctx)"
  by (simp_all add: SetForwardedRequest_def Let_def header_Get_Set canonical_forwarded)


subsection \<open>Fail closed\<close>

lemma set_found_Blocked [simp]:
  "ctx_Blocked (set_found SetHeaderUpstream lk k ctx) = ctx_Blocked ctx"
  "ctx_Blocked (set_found SetHeaderDownstream lk k ctx) = ctx_Blocked ctx"
  by (simp_all add: set_found_def SetHeaderUpstream_def SetHeaderDownstream_def Let_def split: option.split)

lemma fold_Blocked: "(\<And>x c. ctx_Blocked (f x c) = ctx_Blocked c) \<Longrightarrow> ctx_Blocked (fold f xs ctx) = ctx_Blocked ctx"
  by (induction xs arbitrary: ctx) simp_all

lemma Remove_Blocked [simp]: "ctx_Blocked (RemoveHeaderUpstream k ctx) = ctx_Blocked ctx"
  by (simp add: RemoveHeaderUpstream_def Let_def)

lemma apply_Blocked [simp]:
  "ctx_Blocked (applySuccess r lk ctx) = ctx_Blocked ctx" "ctx_Blocked (applyFailure r' lk ctx) = ctx_Blocked ctx"
  by (simp_all add: applySuccess_def applyFailure_def fold_Blocked)

text \<open>A verdict in favour of the request, for either protocol.\<close>

definition ext_auth_approved :: "'w sidecar_ops \<Rightarrow> ExternalAuthConfig \<Rightarrow> RequestContext \<Rightarrow> 'w \<Rightarrow> bool" where
  "ext_auth_approved ops cfg ctx w \<longleftrightarrow>
     (if equal_fold (ea_Protocol cfg) ''grpc''
      then (case so_Check ops (check_attributes ops cfg ctx) w of (Ok resp, w1) \<Rightarrow> ck_Code resp = 0 | (Err e, w1) \<Rightarrow> False)
      else so_ValidRequest ops ''GET'' (''http://localhost'' @ ea_Path cfg) \<and>
           (case so_Do ops (ext_auth_request ops cfg ctx) w of
              (Ok resp, w1) \<Rightarrow> 200 \<le> hr_Status resp \<and> hr_Status resp < 300 | (Err e, w1) \<Rightarrow> False))"

text \<open>C36: external authorization fails closed. A request that was not blocked before passes if and only if the
  sidecar approved it, with a status of 2xx over HTTP or OK over gRPC; without a verdict the answer is 500, and the
  filter itself never fails.\<close>

theorem ext_auth_fails_closed:
  assumes "ext_auth_Execute ops cfg ctx w = (err, c, w')" "\<not> ctx_Blocked ctx"
  shows "err = None \<and> (\<not> ctx_Blocked c \<longleftrightarrow> ext_auth_approved ops cfg ctx w)"
proof -
  have b: "ctx_Blocked (Block st body ctx)" for st body by (simp add: Block_def)
  show ?thesis
  proof (cases "equal_fold (ea_Protocol cfg) ''grpc''")
    case True
    obtain r w1 where r: "so_Check ops (check_attributes ops cfg ctx) w = (r, w1)" by fastforce
    with True assms b show ?thesis
      by (cases r) (auto simp: ext_auth_Execute_def ext_auth_executeGRPC_def ext_auth_approved_def sidecarFailure_def
          split: if_splits option.splits)
  next
    case False
    obtain r w1 where r: "so_Do ops (ext_auth_request ops cfg ctx) w = (r, w1)" by fastforce
    with False assms b show ?thesis
      by (cases r) (auto simp: ext_auth_Execute_def ext_auth_executeHTTP_def ext_auth_approved_def sidecarFailure_def
          split: if_splits)
  qed
qed

definition lets_pass :: "proc_response \<Rightarrow> bool" where
  "lets_pass resp \<longleftrightarrow> (case resp of Immediate code body hs \<Rightarrow> False | _ \<Rightarrow> True)"

text \<open>The firewall approves: over gRPC it answers the headers and, if there is a body to inspect, the body
  without an immediate response; over HTTP it answers the replayed request with 2xx.\<close>

definition waf_approved :: "'w sidecar_ops \<Rightarrow> FirewallFilterConfig \<Rightarrow> RequestContext \<Rightarrow> 'w \<Rightarrow> bool" where
  "waf_approved ops cfg ctx w \<longleftrightarrow>
     (if equal_fold (fw_Protocol cfg) ''grpc'' then
        (case so_Process ops w of
           (Err e, w0) \<Rightarrow> False
         | (Ok stream, w0) \<Rightarrow>
             (case send_recv ops stream (RequestHeadersMsg (waf_headers ops cfg ctx)) w0 of
                (Err e, w1) \<Rightarrow> False
              | (Ok resp, w1) \<Rightarrow> lets_pass resp \<and>
                  (case inspected_body cfg ctx of
                     None \<Rightarrow> True
                   | Some part \<Rightarrow> (case send_recv ops stream (RequestBodyMsg part) w1 of
                                    (Err e, w2) \<Rightarrow> False | (Ok resp', w2) \<Rightarrow> lets_pass resp'))))
      else
        (let req = replay_request ops cfg ctx in
         so_ValidRequest ops (hq_Method req) (hq_URL req) \<and>
         (case so_Do ops req w of (Ok resp, w1) \<Rightarrow> 200 \<le> hr_Status resp \<and> hr_Status resp < 300 | (Err e, w1) \<Rightarrow> False)))"

lemma set_option_Blocked [simp]:
  "ctx_Blocked (set_option SetHeaderUpstream h ctx) = ctx_Blocked ctx"
  "ctx_Blocked (set_option SetHeaderDownstream h ctx) = ctx_Blocked ctx"
  by (simp_all add: set_option_def SetHeaderUpstream_def SetHeaderDownstream_def Let_def split: option.split)

lemma waf_Blocked [simp]:
  "ctx_Blocked (apply_immediate code body hs ctx)" "ctx_Blocked (waf_failure ctx)"
  "ctx_Blocked (waf_accept cfg resp ctx) = ctx_Blocked ctx"
  by (simp_all add: apply_immediate_def waf_failure_def waf_accept_def apply_mutation_def fold_Blocked
      split: proc_response.split option.split)

lemma firewall_executeGRPC_eq:
  assumes "so_Process ops w = (Ok stream, w0)"
    "send_recv ops stream (RequestHeadersMsg (waf_headers ops cfg ctx)) w0 = (Ok resp, w1)"
  shows "firewall_executeGRPC ops cfg ctx w =
    (case resp of
       Immediate code body hs \<Rightarrow> (None, apply_immediate code body hs ctx, w1)
     | _ \<Rightarrow> (case inspected_body cfg ctx of
               None \<Rightarrow> (None, waf_accept cfg resp ctx, w1)
             | Some part \<Rightarrow>
                 (case send_recv ops stream (RequestBodyMsg part) w1 of
                    (Err e, w2) \<Rightarrow> (None, waf_failure ctx, w2)
                  | (Ok resp', w2) \<Rightarrow>
                      (None, case resp' of Immediate code body hs \<Rightarrow> apply_immediate code body hs ctx | _ \<Rightarrow> waf_accept cfg resp' ctx, w2))))"
  by (simp add: firewall_executeGRPC_def assms split: proc_response.splits option.splits prod.splits sum.splits)


text \<open>A request is inspected in one phase only: with the headers, or with the body when there is one to wait for.\<close>

lemma firewall_inspects_once:
  "firewall_Execute ops cfg (ctx\<lparr>ctx_Phase := PhaseRequestHeaders\<rparr>) w =
     (if fw_InspectBody cfg \<and> \<not> ctx_RequestEndOfStream ctx
      then (None, ctx\<lparr>ctx_Phase := PhaseRequestHeaders, ctx_RequestBodyRequired := True\<rparr>, w)
      else firewall_inspect ops cfg (ctx\<lparr>ctx_Phase := PhaseRequestHeaders\<rparr>) w)"
  "firewall_Execute ops cfg (ctx\<lparr>ctx_Phase := PhaseRequestBody\<rparr>) w =
     (if fw_InspectBody cfg \<and> \<not> ctx_RequestEndOfStream ctx then firewall_inspect ops cfg (ctx\<lparr>ctx_Phase := PhaseRequestBody\<rparr>) w
      else (None, ctx\<lparr>ctx_Phase := PhaseRequestBody\<rparr>, w))"
  by (simp_all add: firewall_Execute_def)

subsection \<open>Lawfulness\<close>

lemma lawful_set_found:
  "lawful_change c d \<Longrightarrow> lawful_change c (set_found SetHeaderUpstream lk k d)"
  "lawful_change c d \<Longrightarrow> lawful_change c (set_found SetHeaderDownstream lk k d)"
  by (auto simp: set_found_def split: option.split)

lemma lawful_apply:
  "lawful_change c d \<Longrightarrow> lawful_change c (applySuccess r lk d)" "lawful_change c d \<Longrightarrow> lawful_change c (applyFailure r' lk d)"
  unfolding applySuccess_def applyFailure_def by (intro lawful_change_fold lawful_set_found; blast)+

lemma ext_auth_lawful: "lawful_exec (bf_exec (ext_auth_base ops cfg))"
proof (rule lawful_exec_change)
  fix ctx w err c w'
  assume "bf_exec (ext_auth_base ops cfg) ctx w = (err, c, w')"
  moreover have "lawful_change ctx (Block st body ctx)" for st body by (auto intro: lawful_change_ops)
  ultimately show "lawful_change ctx c"
    by (auto simp: ext_auth_base_def ext_auth_Execute_def ext_auth_executeGRPC_def ext_auth_executeHTTP_def sidecarFailure_def
        intro!: lawful_apply split: if_splits prod.splits sum.splits option.splits)
qed

lemma lawful_set_option:
  "lawful_change c d \<Longrightarrow> lawful_change c (set_option SetHeaderUpstream h d)"
  "lawful_change c d \<Longrightarrow> lawful_change c (set_option SetHeaderDownstream h d)"
  by (auto simp: set_option_def split: option.split)

lemma lawful_waf:
  "lawful_change c (apply_immediate code body hs c)" "lawful_change c (waf_failure c)" "lawful_change c (waf_accept cfg resp c)"
  "lawful_change c (c\<lparr>ctx_RequestBodyRequired := b\<rparr>)"
proof -
  have f: "lawful_change c (c\<lparr>ctx_Blocked := x, ctx_ResponseStatus := st, ctx_ResponseBody := body\<rparr>)" for x st body
    by (simp add: lawful_change_def keeps_bookkeeping_def context_wf_def)
  then show "lawful_change c (apply_immediate code body hs c)"
    unfolding apply_immediate_def by (intro lawful_change_fold lawful_set_option)
  from f show "lawful_change c (waf_failure c)" by (simp add: waf_failure_def)
  have m: "lawful_change c (apply_mutation m c)" for m
    by (auto simp: apply_mutation_def intro!: lawful_change_fold lawful_set_option split: option.split)
  show "lawful_change c (waf_accept cfg resp c)"
    unfolding waf_accept_def by (intro lawful_change_fold) (auto simp: m split: proc_response.split)
  show "lawful_change c (c\<lparr>ctx_RequestBodyRequired := b\<rparr>)"
    by (simp add: lawful_change_def keeps_bookkeeping_def context_wf_def)
qed

lemma firewall_lawful: "lawful_exec (bf_exec (firewall_base ops cfg))"
proof (rule lawful_exec_change)
  fix ctx w err c w'
  assume "bf_exec (firewall_base ops cfg) ctx w = (err, c, w')"
  moreover have "lawful_change ctx (Block st body ctx)" for st body by (auto intro: lawful_change_ops)
  ultimately show "lawful_change ctx c"
    by (auto simp: firewall_base_def firewall_Execute_def firewall_inspect_def firewall_executeGRPC_def firewall_executeHTTP_def Let_def
        intro: lawful_apply lawful_waf
        split: if_splits prod.splits sum.splits option.splits proc_response.splits)
qed

subsection \<open>Headers a client can keep\<close>

text \<open>an upstream header that external authorization is configured to set keeps the value the client sent
  whenever the sidecar's approval does not carry that header: nothing removes the client's value.\<close>

theorem unanswered_header_kept:
  assumes "lk k = None" "to_lower k = k" "k \<notin> to_lower ` set (as_UpstreamHeadersToRemove r)"
    "\<forall>j \<in> set (as_UpstreamHeadersToAdd r). to_lower j = j"
  shows "GetHeader (applySuccess r lk ctx) k = GetHeader ctx k"
proof -
  have "GetHeader (fold (set_found SetHeaderUpstream lk) ks c) k = GetHeader c k" if "\<forall>j \<in> set ks. to_lower j = j" for ks c
    using that
  proof (induction ks arbitrary: c)
    case (Cons j ks)
    have "GetHeader (set_found SetHeaderUpstream lk j c) k = GetHeader c k"
      using assms(1,2) Cons.prems by (auto simp: set_found_def upstream.get_put split: option.split)
    with Cons show ?case by simp
  qed simp
  with assms show ?thesis by (simp add: applySuccess_def upstream.get_dels)
qed

subsection \<open>Examples\<close>

definition ex_rules :: AuthSuccessRules where
  "ex_rules = \<lparr>as_UpstreamHeadersToAdd = [''x-auth-user''], as_UpstreamHeadersToRemove = [''cookie'']\<rparr>"

definition ex_auth_config :: ExternalAuthConfig where
  "ex_auth_config = \<lparr>ea_Protocol = ''http'', ea_SocketPath = ''/s'', ea_Timeout = ''2s'', ea_TimeoutDuration = 2000000000, ea_Path = ''/'',
     ea_ForwardHeaders = [], ea_OnSuccess = ex_rules, ea_OnFailure = \<lparr>af_DownstreamPassThroughHeaders = []\<rparr>\<rparr>"

definition ex_waf_config :: FirewallFilterConfig where
  "ex_waf_config = \<lparr>fw_Protocol = ''grpc'', fw_SocketPath = ''/s'', fw_Timeout = ''2s'', fw_TimeoutDuration = 2000000000,
     fw_InspectBody = True, fw_MaxBodySizeKB = 1, fw_ForwardHeaders = [],
     fw_OnSuccess = \<lparr>as_UpstreamHeadersToAdd = [], as_UpstreamHeadersToRemove = []\<rparr>,
     fw_OnFailure = \<lparr>af_DownstreamPassThroughHeaders = []\<rparr>\<rparr>"

definition ex_header :: "string \<Rightarrow> string \<Rightarrow> header_value option" where
  "ex_header k v = Some \<lparr>hv_Key = k, hv_Value = v, hv_RawValue = []\<rparr>"

text \<open>A sidecar that approves: over HTTP with an empty answer, over ext_proc with a header mutation for the
  headers and nothing for the body. The state counts the messages sent.\<close>

definition ex_sidecar_ops :: "nat sidecar_ops" where
  "ex_sidecar_ops = \<lparr>so_range = (\<lambda>m. if finite (dom m) then sorted_list_of_set (dom m) else []), so_ValidRequest = (\<lambda>m u. True),
     so_Do = (\<lambda>req w. (Ok \<lparr>hr_Status = 200, hr_Header = [], hr_Body = []\<rparr>, Suc w)),
     so_Check = (\<lambda>req w. (Err ''refused'', w)),
     so_Process = (\<lambda>w. (Ok 0, w)), so_Send = (\<lambda>st m w. (Ok (), Suc w)),
     so_Recv = (\<lambda>st w. if w = 1 then (Ok (HeadersResp (Some \<lparr>mt_Set = [ex_header ''x-waf'' ''checked''], mt_Remove = []\<rparr>)), w)
                       else (Ok (BodyResp None), w))\<rparr>"

definition ex_side_request :: RequestContext where
  "ex_side_request = new_context\<lparr>ctx_Method := ''POST'', ctx_Path := ''/pay'', ctx_ClientIP := ''192.0.2.7'',
     ctx_Headers := ['':path'' \<mapsto> ''/pay'', ''x-auth-user'' \<mapsto> ''root'', ''x-forwarded-for'' \<mapsto> ''10.0.0.1''],
     ctx_RequestBody := Some ''amount=1'', ctx_Phase := PhaseRequestBody\<rparr>"

lemma ex_order_law: "order_law (so_range ex_sidecar_ops)"
  by (simp add: order_law_def ex_sidecar_ops_def)

lemma ex_plain_context: "plain_context ex_side_request"
proof -
  have "to_lower '':path'' = '':path''" "to_lower ''x-auth-user'' = ''x-auth-user''" "to_lower ''x-forwarded-for'' = ''x-forwarded-for''"
    by code_simp+
  then show ?thesis by (simp add: plain_context_def ex_side_request_def new_context_def)
qed

theorem sidecar_sees_current_headers_witness:
  "map_of (SelectHeaders (so_range ex_sidecar_ops) ex_side_request []) ''x-auth-user'' = Some ''root'' \<and>
   map_of (SelectHeaders (so_range ex_sidecar_ops) ex_side_request []) '':path'' = None"
proof -
  have "forwardable ''x-auth-user''" "\<not> forwardable '':path''" "GetHeader ex_side_request ''x-auth-user'' = ''root''" "ForwardAll []"
    by code_simp+
  then show ?thesis using sidecar_sees_current_headers [OF ex_order_law ex_plain_context] by simp
qed


lemma ex_side_open: "\<not> ctx_Blocked ex_side_request"
  by (simp add: ex_side_request_def new_context_def)

lemma ex_http: "equal_fold (ea_Protocol ex_auth_config) ''grpc'' = False" "equal_fold (fw_Protocol ex_waf_config) ''grpc'' = True"
  by code_simp+

theorem ext_auth_fails_closed_witness:
  "\<exists>c. ext_auth_Execute ex_sidecar_ops ex_auth_config ex_side_request 0 = (None, c, 1) \<and> \<not> ctx_Blocked c"
proof -
  obtain err c w' where e: "ext_auth_Execute ex_sidecar_ops ex_auth_config ex_side_request 0 = (err, c, w')" by (metis prod_cases3)
  have "ext_auth_approved ex_sidecar_ops ex_auth_config ex_side_request 0" "w' = 1"
    using e by (simp_all add: ext_auth_approved_def ex_http ext_auth_Execute_def ext_auth_executeHTTP_def ex_sidecar_ops_def)
  with ext_auth_fails_closed [OF e ex_side_open] e show ?thesis by simp
qed

lemma ex_waf_answers:
  "so_Process ex_sidecar_ops 0 = (Ok 0, 0)"
  "send_recv ex_sidecar_ops 0 (RequestHeadersMsg hs) 0 = (Ok (HeadersResp (Some \<lparr>mt_Set = [ex_header ''x-waf'' ''checked''], mt_Remove = []\<rparr>)), 1)"
  "inspected_body ex_waf_config ex_side_request = Some ''amount=1''"
  "send_recv ex_sidecar_ops 0 (RequestBodyMsg b) 1 = (Ok (BodyResp None), 2)"
  by (simp_all add: ex_sidecar_ops_def send_recv_def inspected_body_def ex_waf_config_def ex_side_request_def)


text \<open>the header edits a firewall returns with its answer to the request headers are lost when a body is
  inspected after them: only the answer to the body is looked at.\<close>

theorem waf_header_edits_lost:
  "\<exists>c w'. firewall_inspect ex_sidecar_ops ex_waf_config ex_side_request 0 = (None, c, w') \<and> \<not> ctx_Blocked c \<and> GetHeader c ''x-waf'' = []"
proof -
  have "firewall_inspect ex_sidecar_ops ex_waf_config ex_side_request 0 = (None, ex_side_request, 2)"
    using firewall_executeGRPC_eq [OF ex_waf_answers(1,2)]
    by (simp add: firewall_inspect_def ex_http ex_waf_answers waf_accept_def apply_mutation_def ex_waf_config_def [symmetric] del: One_nat_def)
       (simp add: ex_waf_config_def)
  moreover have "GetHeader ex_side_request ''x-waf'' = []" by code_simp
  ultimately show ?thesis using ex_side_open by simp
qed

theorem unanswered_header_kept_witness:
  "GetHeader (applySuccess ex_rules (\<lambda>_. None) ex_side_request) ''x-auth-user'' = ''root''"
proof -
  have "to_lower ''x-auth-user'' = ''x-auth-user''" "to_lower ''cookie'' = ''cookie''" "GetHeader ex_side_request ''x-auth-user'' = ''root''"
    by code_simp+
  then show ?thesis
    using unanswered_header_kept [of "\<lambda>_. None" "''x-auth-user''" ex_rules ex_side_request] by (simp add: ex_rules_def)
qed

end
