(* ===== verification/Enricher.thy ===== *)
theory Enricher
  imports Simple_Filters Config
begin

text \<open>
  The Redis metadata enricher (\<^verbatim>\<open>internal/filters/redis_metadata_enricher/enricher.go\<close>) and its configuration
  (\<^verbatim>\<open>internal/config/filter_enricher.go\<close>). Regular expressions, JSON paths, the cache and Redis are parameters.
\<close>

subsection \<open>Configuration\<close>

record Variable =
  va_Source :: string
  va_Default :: string
  va_RegexPattern :: string
  va_JSONPath :: string

record OutputMappingSpec =
  op_JSONPath :: string
  op_TargetHeader :: string

record RedisMetadataEnricherConfig =
  en_RedisService :: string
  en_CacheSizeMB :: int
  en_CacheTimeout :: string
  en_Variables :: "(string \<times> Variable) list"
  en_KeyPattern :: string
  en_OutputMappings :: "OutputMappingSpec list"

record VariableRule =
  vr_Source :: string
  vr_DefaultValue :: string
  vr_CompiledRegex :: "(string \<Rightarrow> string list) option" \<comment> \<open>\<^verbatim>\<open>FindStringSubmatch\<close>, if a pattern is given\<close>
  vr_JSONPath :: string

record EnricherFilter =
  ef_redisService :: string
  ef_keyPattern :: string
  ef_cacheSize :: int
  ef_cacheTTL :: int
  ef_variables :: "(string \<times> VariableRule) list"
  ef_outputMapping :: "OutputMappingSpec list"

definition header_source :: "string \<Rightarrow> string option" where
  "header_source source =
     (if has_prefix source [CHR 0x7B, CHR ''h'', CHR ''e'', CHR ''a'', CHR ''d'', CHR ''e'', CHR ''r'', CHR '':''] \<and>
         has_suffix source [CHR 0x7D]
      then Some (drop 8 (butlast source)) else None)"

definition header_pattern :: "string \<Rightarrow> string" where
  "header_pattern nm = [CHR 0x7B] @ ''header:'' @ nm @ [CHR 0x7D]"

definition compile_variable ::
  "(string \<Rightarrow> (string \<Rightarrow> string list) option) \<Rightarrow> string \<times> Variable \<Rightarrow> (string, string \<times> VariableRule) result" where
  "compile_variable regexp_Compile nv =
     (let (varName, v) = nv;
          source = (case header_source (va_Source v) of Some nm \<Rightarrow> header_pattern (to_lower nm) | None \<Rightarrow> va_Source v);
          rule = (\<lambda>re. \<lparr>vr_Source = source, vr_DefaultValue = va_Default v, vr_CompiledRegex = re, vr_JSONPath = va_JSONPath v\<rparr>) in
      if va_RegexPattern v = [] then Ok (varName, rule None)
      else (case regexp_Compile (va_RegexPattern v) of
              None \<Rightarrow> Err (''redis_metadata_enricher: variable '' @ varName @ '': invalid regex_pattern'')
            | Some re \<Rightarrow> Ok (varName, rule (Some re))))"

definition NewRedisMetadataEnricherFilter ::
  "(string \<Rightarrow> (string \<Rightarrow> string list) option) \<Rightarrow> RedisMetadataEnricherConfig \<Rightarrow> (string, EnricherFilter) result" where
  "NewRedisMetadataEnricherFilter regexp_Compile cfg =
     (if en_KeyPattern cfg = [] then Err ''redis_metadata_enricher: key_pattern is required''
      else
        (let cacheSize = (if en_CacheSizeMB cfg > 0 then en_CacheSizeMB cfg * 1024 * 1024 else 10 * 1024 * 1024);
             ttl = (if en_CacheTimeout cfg = [] then Some 10000000000 else ParseDuration (en_CacheTimeout cfg)) in
         case ttl of
           None \<Rightarrow> Err (''redis_metadata_enricher: invalid cache_timeout '' @ en_CacheTimeout cfg)
         | Some cacheTTL \<Rightarrow>
             (case map_result (compile_variable regexp_Compile) (en_Variables cfg) of
                Err e \<Rightarrow> Err e
              | Ok vars \<Rightarrow>
                  Ok \<lparr>ef_redisService = en_RedisService cfg, ef_keyPattern = en_KeyPattern cfg, ef_cacheSize = cacheSize,
                      ef_cacheTTL = cacheTTL, ef_variables = vars,
                      ef_outputMapping = map (\<lambda>m. m\<lparr>op_TargetHeader := to_lower (op_TargetHeader m)\<rparr>) (en_OutputMappings cfg)\<rparr>)))"

subsection \<open>The key\<close>

definition resolveSourceValue :: "RequestContext \<Rightarrow> string \<Rightarrow> string" where
  "resolveSourceValue ctx source =
     (if source = [CHR 0x7B] @ ''path'' @ [CHR 0x7D] then ctx_Path ctx
      else if source = [CHR 0x7B] @ ''method'' @ [CHR 0x7D] then ctx_Method ctx
      else if source = [CHR 0x7B] @ ''client_ip'' @ [CHR 0x7D] then ctx_ClientIP ctx
      else (case header_source source of Some nm \<Rightarrow> GetHeader ctx nm | None \<Rightarrow> []))"

text \<open>\<open>gjson\<close> is the value at a path, None if it does not exist.\<close>

definition resolve_variable :: "(string \<Rightarrow> string \<Rightarrow> string option) \<Rightarrow> RequestContext \<Rightarrow> VariableRule \<Rightarrow> string" where
  "resolve_variable gjson ctx rule =
     (let val0 = resolveSourceValue ctx (vr_Source rule);
          val1 = (if vr_JSONPath rule \<noteq> [] \<and> val0 \<noteq> [] then (case gjson val0 (vr_JSONPath rule) of Some r \<Rightarrow> r | None \<Rightarrow> []) else val0);
          val2 = (case vr_CompiledRegex rule of
                    Some re \<Rightarrow> if val1 \<noteq> [] then (let ms = re val1 in if length ms > 1 then ms ! 1 else []) else val1
                  | None \<Rightarrow> val1);
          val3 = (if val2 = [] then vr_DefaultValue rule else val2)
      in to_lower val3)"

function compile_key :: "string \<Rightarrow> (string \<rightharpoonup> string) \<Rightarrow> string" where
  "compile_key pat vars =
     (case cut CHR 0x7B pat of
        None \<Rightarrow> pat
      | Some (lit, rest) \<Rightarrow>
          (case cut CHR 0x7D rest of
             None \<Rightarrow> pat
           | Some (varName, rest') \<Rightarrow>
               lit @ (case vars varName of Some v \<Rightarrow> v | None \<Rightarrow> [CHR 0x7B] @ varName @ [CHR 0x7D]) @ compile_key rest' vars))"
  by auto
termination
  by (relation "measure (\<lambda>(pat, vars). length pat)") (auto dest!: cut_Some)

declare compile_key.simps [simp del]

subsection \<open>The filter\<close>

record 'w enricher_ops =
  eo_gjson :: "string \<Rightarrow> string \<Rightarrow> string option"
  eo_cacheGet :: "string \<Rightarrow> 'w \<Rightarrow> string option"
  eo_cacheSet :: "string \<Rightarrow> string \<Rightarrow> int \<Rightarrow> 'w \<Rightarrow> 'w"
  eo_GET :: "string \<Rightarrow> 'w \<Rightarrow> (string, string) result \<times> 'w"

definition record_key :: "'w enricher_ops \<Rightarrow> EnricherFilter \<Rightarrow> RequestContext \<Rightarrow> string" where
  "record_key ops f ctx =
     compile_key (ef_keyPattern f) (map_of (map (\<lambda>(name, rule). (name, resolve_variable (eo_gjson ops) ctx rule)) (ef_variables f)))"

text \<open>\<^verbatim>\<open>int(cacheTTL.Seconds())\<close>.\<close>

definition ttl_seconds :: "int \<Rightarrow> int" where
  "ttl_seconds ns = (if ns \<ge> 0 then ns div 1000000000 else - (- ns div 1000000000))"

definition inject_mapping :: "'w enricher_ops \<Rightarrow> string \<Rightarrow> OutputMappingSpec \<Rightarrow> RequestContext \<Rightarrow> RequestContext" where
  "inject_mapping ops jsonStr m ctx =
     (let v = (if op_JSONPath m = [] then jsonStr else (case eo_gjson ops jsonStr (op_JSONPath m) of Some r \<Rightarrow> r | None \<Rightarrow> []))
      in if v \<noteq> [] then SetHeaderUpstream (op_TargetHeader m) v ctx else ctx)"

definition inject_record :: "'w enricher_ops \<Rightarrow> EnricherFilter \<Rightarrow> string \<Rightarrow> RequestContext \<Rightarrow> RequestContext" where
  "inject_record ops f jsonStr ctx = (if jsonStr \<noteq> [] then fold (inject_mapping ops jsonStr) (ef_outputMapping f) ctx else ctx)"

definition enricher_Execute :: "'w enricher_ops \<Rightarrow> EnricherFilter \<Rightarrow> RequestContext \<Rightarrow> 'w \<Rightarrow> string option \<times> RequestContext \<times> 'w" where
  "enricher_Execute ops f ctx w =
     (let key = record_key ops f ctx in
      case eo_cacheGet ops key w of
        Some jsonStr \<Rightarrow> (None, inject_record ops f jsonStr ctx, w)
      | None \<Rightarrow>
          (case eo_GET ops key w of
             (Err e, w1) \<Rightarrow> (None, ctx, w1)
           | (Ok jsonStr, w1) \<Rightarrow>
               (None, inject_record ops f jsonStr ctx,
                if jsonStr \<noteq> [] then eo_cacheSet ops key jsonStr (ttl_seconds (ef_cacheTTL f)) w1 else w1)))"

definition enricher_base :: "'w enricher_ops \<Rightarrow> EnricherFilter \<Rightarrow> 'w base_filter" where
  "enricher_base ops f = \<lparr>bf_phases = None, bf_exec = enricher_Execute ops f\<rparr>"

subsection \<open>Placeholders\<close>

text \<open>A placeholder is replaced once; what is put in its place is not read again.\<close>

lemma compile_key_literal: "CHR 0x7B \<notin> set lit \<Longrightarrow> compile_key lit vars = lit"
  by (subst compile_key.simps) simp

lemma compile_key_placeholder:
  assumes "CHR 0x7B \<notin> set lit" "CHR 0x7D \<notin> set varName"
  shows "compile_key (lit @ CHR 0x7B # varName @ CHR 0x7D # rest) vars =
    lit @ (case vars varName of Some v \<Rightarrow> v | None \<Rightarrow> [CHR 0x7B] @ varName @ [CHR 0x7D]) @ compile_key rest vars"
  using assms by (subst compile_key.simps) simp

subsection \<open>Effect\<close>

definition header_of_record :: "'w enricher_ops \<Rightarrow> EnricherFilter \<Rightarrow> string \<Rightarrow> string \<Rightarrow> string \<Rightarrow> bool" where
  "header_of_record ops f jsonStr q v \<longleftrightarrow>
     (\<exists>m \<in> set (ef_outputMapping f). op_TargetHeader m = q \<and>
        (if op_JSONPath m = [] then v = jsonStr else eo_gjson ops jsonStr (op_JSONPath m) = Some v))"

definition lower_targets :: "EnricherFilter \<Rightarrow> bool" where
  "lower_targets f \<longleftrightarrow> (\<forall>m \<in> set (ef_outputMapping f). to_lower (op_TargetHeader m) = op_TargetHeader m)"

lemma new_lower_targets: "NewRedisMetadataEnricherFilter rc cfg = Ok f \<Longrightarrow> lower_targets f"
  by (auto simp: NewRedisMetadataEnricherFilter_def lower_targets_def Let_def split: if_splits option.splits sum.splits)

lemma inject_mapping_header:
  assumes "to_lower q = q" "to_lower (op_TargetHeader m) = op_TargetHeader m"
  shows "GetHeader (inject_mapping ops js m ctx) q = GetHeader ctx q \<or>
    op_TargetHeader m = q \<and> (if op_JSONPath m = [] then GetHeader (inject_mapping ops js m ctx) q = js
      else eo_gjson ops js (op_JSONPath m) = Some (GetHeader (inject_mapping ops js m ctx) q))"
  using assms by (auto simp: inject_mapping_def Let_def upstream.get_put split: option.splits)

lemma inject_record_header:
  assumes "to_lower q = q" "lower_targets f"
  shows "GetHeader (inject_record ops f js ctx) q = GetHeader ctx q \<or> header_of_record ops f js q (GetHeader (inject_record ops f js ctx) q)"
proof (cases "js = []")
  case False
  have "GetHeader (fold (inject_mapping ops js) ms c) q = GetHeader c q \<or>
      (\<exists>m \<in> set ms. op_TargetHeader m = q \<and> (if op_JSONPath m = [] then GetHeader (fold (inject_mapping ops js) ms c) q = js
         else eo_gjson ops js (op_JSONPath m) = Some (GetHeader (fold (inject_mapping ops js) ms c) q)))"
    if "\<forall>m \<in> set ms. to_lower (op_TargetHeader m) = op_TargetHeader m" for ms c
    using that
  proof (induction ms arbitrary: c)
    case (Cons m ms)
    from Cons.prems inject_mapping_header [OF assms(1), of m ops js c] Cons.IH [of "inject_mapping ops js m c"]
    show ?case by fastforce
  qed simp
  with False assms(2) show ?thesis by (simp add: inject_record_def header_of_record_def lower_targets_def)
qed (simp add: inject_record_def)

lemma inject_record_Blocked [simp]: "ctx_Blocked (inject_record ops f js ctx) = ctx_Blocked ctx"
proof -
  have "ctx_Blocked (fold (inject_mapping ops js) ms c) = ctx_Blocked c" for ms c
    by (induction ms arbitrary: c) (simp_all add: inject_mapping_def SetHeaderUpstream_def Let_def)
  then show ?thesis by (simp add: inject_record_def)
qed


lemma enricher_lawful: "lawful_exec (bf_exec (enricher_base ops f))"
proof (rule lawful_exec_change)
  fix ctx w err c w'
  assume e: "bf_exec (enricher_base ops f) ctx w = (err, c, w')"
  have "lawful_change ctx (inject_record ops f js ctx)" for js
    by (auto simp: inject_record_def inject_mapping_def Let_def intro!: lawful_change_fold)
  with e show "lawful_change ctx c"
    by (auto simp: enricher_base_def enricher_Execute_def Let_def split: option.splits prod.splits sum.splits)
qed

subsection \<open>Short cache times\<close>

text \<open>The cache counts in seconds and keeps an entry stored with 0 seconds for good. The conversion rounds
  a \<^verbatim>\<open>cache_timeout\<close> under a second down to 0.\<close>

text \<open>every cache time under one second is stored as 0 seconds, which the cache takes as never expiring.\<close>

theorem short_cache_time_is_zero:
  assumes "0 \<le> ns" "ns < 1000000000" "ef_cacheTTL f = ns" "eo_cacheGet ops (record_key ops f ctx) w = None"
    "eo_GET ops (record_key ops f ctx) w = (Ok js, w1)" "js \<noteq> []"
  shows "snd (snd (enricher_Execute ops f ctx w)) = eo_cacheSet ops (record_key ops f ctx) js 0 w1"
  using assms by (simp add: enricher_Execute_def Let_def ttl_seconds_def)

subsection \<open>Examples\<close>

text \<open>A store without JSON paths, whose cache is empty and only counts what is put into it.\<close>

definition ex_enricher_ops :: "nat enricher_ops" where
  "ex_enricher_ops = \<lparr>eo_gjson = (\<lambda>js p. None), eo_cacheGet = (\<lambda>k w. None), eo_cacheSet = (\<lambda>k v ttl w. Suc w),
     eo_GET = (\<lambda>k w. if k = ''tier:alice'' then (Ok ''gold'', w) else (Ok [], w))\<rparr>"

definition ex_enricher_config :: RedisMetadataEnricherConfig where
  "ex_enricher_config = \<lparr>en_RedisService = ''main'', en_CacheSizeMB = 0, en_CacheTimeout = ''500ms'',
     en_Variables = [(''u'', \<lparr>va_Source = header_pattern ''X-User'', va_Default = ''nobody'', va_RegexPattern = [], va_JSONPath = []\<rparr>)],
     en_KeyPattern = ''tier:'' @ [CHR 0x7B, CHR ''u'', CHR 0x7D], en_OutputMappings = [\<lparr>op_JSONPath = [], op_TargetHeader = ''X-Tier''\<rparr>]\<rparr>"

definition ex_enricher :: EnricherFilter where
  "ex_enricher = (case NewRedisMetadataEnricherFilter (\<lambda>_. None) ex_enricher_config of Ok f \<Rightarrow> f | Err e \<Rightarrow> undefined)"

definition ex_enricher_request :: RequestContext where
  "ex_enricher_request = new_context\<lparr>ctx_Headers := [''x-user'' \<mapsto> ''Alice'', ''x-tier'' \<mapsto> ''platinum'']\<rparr>"

lemma ex_enricher_new: "NewRedisMetadataEnricherFilter (\<lambda>_. None) ex_enricher_config = Ok ex_enricher"
proof -
  have "is_ok (NewRedisMetadataEnricherFilter (\<lambda>_. None) ex_enricher_config)" by code_simp
  then show ?thesis by (cases "NewRedisMetadataEnricherFilter (\<lambda>_. None) ex_enricher_config") (auto simp: is_ok_def ex_enricher_def)
qed

lemma ex_enricher_state:
  "record_key ex_enricher_ops ex_enricher ex_enricher_request = ''tier:alice''" "ef_cacheTTL ex_enricher = 500000000"
  "GetHeader (fst (snd (enricher_Execute ex_enricher_ops ex_enricher ex_enricher_request 0))) ''x-tier'' = ''gold''"
  by code_simp+


theorem short_cache_time_is_zero_witness:
  "snd (snd (enricher_Execute ex_enricher_ops ex_enricher ex_enricher_request 0)) = eo_cacheSet ex_enricher_ops ''tier:alice'' ''gold'' 0 0"
  using short_cache_time_is_zero [of 500000000 ex_enricher ex_enricher_ops ex_enricher_request 0 "''gold''" 0] ex_enricher_state(1,2)
  by (simp add: ex_enricher_ops_def)

end
