(* ===== verification/Filter_Factory.thy ===== *)
theory Filter_Factory
  imports Policy_Manager JWT_Auth Sidecar_Filters Enricher Rate_Algorithms
begin

text \<open>
  The filter factory (\<^verbatim>\<open>internal/filters/factory.go\<close>). It decodes the options of a filter, applies the
  defaults of its configuration, resolves the Redis client and builds the filter. The decoding of YAML is a
  parameter, one function per configuration type, and so is everything the filters themselves have as parameters.
  Each filter works on its own part of the state of the engine.
\<close>

subsection \<open>A filter on a part of the state\<close>

definition lift_filter :: "('w \<Rightarrow> 's) \<Rightarrow> ('s \<Rightarrow> 'w \<Rightarrow> 'w) \<Rightarrow> 's base_filter \<Rightarrow> 'w base_filter" where
  "lift_filter get put b =
     \<lparr>bf_phases = bf_phases b,
      bf_exec = (\<lambda>ctx w. let (err, c, s) = bf_exec b ctx (get w) in (err, c, put s w))\<rparr>"

lemma lift_filter_lawful: "lawful_exec (bf_exec b) \<Longrightarrow> lawful_exec (bf_exec (lift_filter get put b))"
  by (auto simp: lawful_exec_def lift_filter_def Let_def split: prod.splits)

subsection \<open>What the factory needs\<close>

text \<open>\<open>fe_getLimiter\<close> and \<open>fe_putLimiter\<close> give a rate limiter its part of the state, \<open>fe_allocJWT\<close> a new JWT filter
  a place for its keys.\<close>

record ('r, 'c, 'k, 'w) factory_env =
  fe_Marshal :: "(string \<times> yaml) list \<Rightarrow> (string, string) result"
  fe_APIKey :: "string \<Rightarrow> (string, APIKeyFilterConfig) result"
  fe_Enricher :: "string \<Rightarrow> (string, RedisMetadataEnricherConfig) result"
  fe_RateLimiter :: "string \<Rightarrow> (string, FilterOptions) result"
  fe_HeaderModifier :: "string \<Rightarrow> (string, HeaderModifierConfig) result"
  fe_Deny :: "string \<Rightarrow> (string, DenyFilterConfig) result"
  fe_Correlation :: "CorrelationConfig \<Rightarrow> string \<Rightarrow> (string, CorrelationConfig) result" \<comment> \<open>onto a preset structure\<close>
  fe_ExternalAuth :: "string \<Rightarrow> (string, ExternalAuthConfig) result"
  fe_Firewall :: "string \<Rightarrow> (string, FirewallFilterConfig) result"
  fe_CORS :: "string \<Rightarrow> (string, cors_Config) result"
  fe_JWT :: "string \<Rightarrow> (string, jwt_Config) result"
  fe_keyOps :: "nat \<Rightarrow> 'w key_ops"
  fe_enricherOps :: "nat \<Rightarrow> 'w enricher_ops"
  fe_redis :: "nat \<Rightarrow> 'r redis_ops"
  fe_cache :: "'c cache_ops"
  fe_scripts :: "string \<Rightarrow> string"
  fe_getLimiter :: "nat \<Rightarrow> 'w \<Rightarrow> ('r, 'c) limiter_world"
  fe_putLimiter :: "nat \<Rightarrow> ('r, 'c) limiter_world \<Rightarrow> 'w \<Rightarrow> 'w"
  fe_regexp :: "string \<Rightarrow> (string \<Rightarrow> bool) option"
  fe_submatch :: "string \<Rightarrow> (string \<Rightarrow> string list) option"
  fe_generate :: "string \<Rightarrow> 'w \<Rightarrow> string \<times> 'w"
  fe_sidecar :: "'w sidecar_ops"
  fe_NewClient :: "string \<Rightarrow> 'w \<Rightarrow> (string, nat) result \<times> 'w"
  fe_ReadFile :: "string \<Rightarrow> (string, string) result"
  fe_jwtOps :: "('k, 'w) jwt_ops"
  fe_allocJWT :: "'k jwt_state \<Rightarrow> 'w \<Rightarrow> nat \<times> 'w"
  fe_getJWT :: "nat \<Rightarrow> 'w \<Rightarrow> 'k jwt_state"
  fe_putJWT :: "nat \<Rightarrow> 'k jwt_state \<Rightarrow> 'w \<Rightarrow> 'w"

definition resolveRedis :: "(string \<rightharpoonup> nat) option \<Rightarrow> string \<Rightarrow> string \<Rightarrow> (string, nat) result" where
  "resolveRedis lookup filterType svc =
     (case lookup of
        None \<Rightarrow> Err (filterType @ '': no redis services configured'')
      | Some lk \<Rightarrow>
          (case lk svc of
             None \<Rightarrow> Err (filterType @ '': configured redis service '' @ svc @ '' not found'')
           | Some client \<Rightarrow> Ok client))"

subsection \<open>One case per filter type\<close>

text \<open>The result of each case is the filter and whether it implements \<^verbatim>\<open>io.Closer\<close>.\<close>

type_synonym 'w creation = "(string, 'w base_filter \<times> bool) result \<times> 'w"

definition bad_config :: "string \<Rightarrow> string \<Rightarrow> string" where
  "bad_config ty e = ''failed to unmarshal config for '' @ ty @ '': '' @ e"

definition create_api_key :: "('r, 'c, 'k, 'w) factory_env \<Rightarrow> string \<Rightarrow> (string \<rightharpoonup> nat) option \<Rightarrow> 'w \<Rightarrow> 'w creation" where
  "create_api_key env opts lookup w =
     (case fe_APIKey env opts of
        Err e \<Rightarrow> (Err (bad_config ''api_key'' e), w)
      | Ok cfg0 \<Rightarrow>
          (case apikey_ApplyDefaults cfg0 of
             Err e \<Rightarrow> (Err ''failed to apply defaults/validate config for api_key'', w)
           | Ok cfg \<Rightarrow>
               (case resolveRedis lookup ''api_key'' (ak_RedisService cfg) of
                  Err e \<Rightarrow> (Err e, w)
                | Ok client \<Rightarrow> (Ok (apikey_base (fe_keyOps env client) cfg, False), w))))"

definition create_enricher :: "('r, 'c, 'k, 'w) factory_env \<Rightarrow> string \<Rightarrow> (string \<rightharpoonup> nat) option \<Rightarrow> 'w \<Rightarrow> 'w creation" where
  "create_enricher env opts lookup w =
     (case fe_Enricher env opts of
        Err e \<Rightarrow> (Err (bad_config ''redis_metadata_enricher'' e), w)
      | Ok cfg \<Rightarrow>
          (case resolveRedis lookup ''redis_metadata_enricher'' (en_RedisService cfg) of
             Err e \<Rightarrow> (Err e, w)
           | Ok client \<Rightarrow>
               (case NewRedisMetadataEnricherFilter (fe_submatch env) cfg of
                  Err e \<Rightarrow> (Err e, w)
                | Ok f \<Rightarrow> (Ok (enricher_base (fe_enricherOps env client) f, False), w))))"

definition create_rate_limiter :: "('r, 'c, 'k, 'w) factory_env \<Rightarrow> string \<Rightarrow> (string \<rightharpoonup> nat) option \<Rightarrow> 'w \<Rightarrow> 'w creation" where
  "create_rate_limiter env opts lookup w =
     (case fe_RateLimiter env opts of
        Err e \<Rightarrow> (Err (bad_config ''embedded_rate_limiter'' e), w)
      | Ok cfg0 \<Rightarrow>
          (let cfg = ApplyDefaults cfg0 in
           case resolveRedis lookup ''embedded_rate_limiter'' (fo_RedisService cfg) of
             Err e \<Rightarrow> (Err e, w)
           | Ok client \<Rightarrow>
               (case ResolveExecutor (fo_Algorithm cfg) (Some (fe_redis env client)) (fe_cache env) (fe_scripts env) cfg of
                  Err e \<Rightarrow> (Err ''failed to resolve rate limiter executor'', w)
                | Ok executor \<Rightarrow>
                    (Ok (lift_filter (fe_getLimiter env client) (fe_putLimiter env client) (NewRateLimiterFilter cfg executor), False), w))))"

definition create_header_modifier :: "('r, 'c, 'k, 'w) factory_env \<Rightarrow> string \<Rightarrow> 'w \<Rightarrow> 'w creation" where
  "create_header_modifier env opts w =
     (case fe_HeaderModifier env opts of
        Err e \<Rightarrow> (Err (bad_config ''header_modifier'' e), w)
      | Ok cfg \<Rightarrow> (Ok (header_modifier_base (NewHeaderModifierFilter cfg), False), w))"

definition create_deny :: "('r, 'c, 'k, 'w) factory_env \<Rightarrow> string \<Rightarrow> 'w \<Rightarrow> 'w creation" where
  "create_deny env opts w =
     (case fe_Deny env opts of
        Err e \<Rightarrow> (Err (bad_config ''deny'' e), w)
      | Ok cfg \<Rightarrow>
          (case NewDenyFilter (fe_regexp env) cfg of
             Err e \<Rightarrow> (Err (''failed to initialize deny filter: '' @ e), w)
           | Ok f \<Rightarrow> (Ok (deny_base f, False), w)))"

definition correlation_preset :: CorrelationConfig where
  "correlation_preset =
     \<lparr>cc_HeaderName = [], cc_Algorithm = [], cc_Mode = [], cc_Prefix = [], cc_PropagateToUpstream = True,
      cc_PropagateToDownstream = True, cc_InputHeaderName = [], cc_ResponseHeaderName = [],
      cc_ValidationRegex = [], cc_CompiledValidationRegex = None\<rparr>"

definition create_correlation :: "('r, 'c, 'k, 'w) factory_env \<Rightarrow> string \<Rightarrow> 'w \<Rightarrow> 'w creation" where
  "create_correlation env opts w =
     (case fe_Correlation env correlation_preset opts of
        Err e \<Rightarrow> (Err (bad_config ''correlation_id'' e), w)
      | Ok cfg \<Rightarrow>
          (case NewCorrelationFilter (fe_regexp env) cfg of
             Err e \<Rightarrow> (Err (''failed to initialize correlation_id filter: '' @ e), w)
           | Ok f \<Rightarrow> (Ok (correlation_base (fe_generate env) f, False), w)))"

definition create_external_auth :: "('r, 'c, 'k, 'w) factory_env \<Rightarrow> string \<Rightarrow> 'w \<Rightarrow> 'w creation" where
  "create_external_auth env opts w =
     (case bind_result (fe_ExternalAuth env opts) ParseExternalAuthConfig of
        Err e \<Rightarrow> (Err (''failed to parse config for external_auth: '' @ e), w)
      | Ok cfg \<Rightarrow>
          (case NewExternalAuthFilter (fe_NewClient env) cfg w of
             (Err e, w1) \<Rightarrow> (Err e, w1)
           | (Ok (cfg', c), w1) \<Rightarrow> (Ok (ext_auth_base (fe_sidecar env) cfg', True), w1)))"

definition create_firewall :: "('r, 'c, 'k, 'w) factory_env \<Rightarrow> string \<Rightarrow> 'w \<Rightarrow> 'w creation" where
  "create_firewall env opts w =
     (case bind_result (fe_Firewall env opts) ParseFirewallFilterConfig of
        Err e \<Rightarrow> (Err (''failed to parse config for firewall: '' @ e), w)
      | Ok cfg \<Rightarrow>
          (case NewFirewallFilter (fe_NewClient env) cfg w of
             (Err e, w1) \<Rightarrow> (Err e, w1)
           | (Ok (cfg', c), w1) \<Rightarrow> (Ok (firewall_base (fe_sidecar env) cfg', True), w1)))"

definition create_cors :: "('r, 'c, 'k, 'w) factory_env \<Rightarrow> string \<Rightarrow> 'w \<Rightarrow> 'w creation" where
  "create_cors env opts w =
     (case fe_CORS env opts of
        Err e \<Rightarrow> (Err (bad_config ''cors'' e), w)
      | Ok cfg \<Rightarrow>
          (case cors_NewFilter (fe_regexp env) cfg of
             Err e \<Rightarrow> (Err ''cors: invalid configuration'', w)
           | Ok f \<Rightarrow> (Ok (cors_base f, False), w)))"

definition create_jwt :: "('r, 'c, 'k, 'w) factory_env \<Rightarrow> string \<Rightarrow> 'w \<Rightarrow> 'w creation" where
  "create_jwt env opts w =
     (case fe_JWT env opts of
        Err e \<Rightarrow> (Err (bad_config ''jwt_auth'' e), w)
      | Ok cfg0 \<Rightarrow>
          (case jwt_NewFilter (fe_ReadFile env) (fe_jwtOps env) cfg0 w of
             (Err e, w1) \<Rightarrow> (Err e, w1)
           | (Ok (cfg, st), w1) \<Rightarrow>
               (let (slot, w2) = fe_allocJWT env st w1
                in (Ok (lift_filter (\<lambda>w. (fe_getJWT env slot w, w)) (\<lambda>(st', w') _. fe_putJWT env slot st' w')
                          (jwt_base (fe_jwtOps env) cfg), True), w2))))"

definition CreateFilter ::
  "('r, 'c, 'k, 'w) factory_env \<Rightarrow> string \<Rightarrow> (string \<times> yaml) list \<Rightarrow> (string \<rightharpoonup> nat) option \<Rightarrow> 'w \<Rightarrow> 'w creation" where
  "CreateFilter env filterType rawOptions lookup w =
     (case fe_Marshal env rawOptions of
        Err e \<Rightarrow> (Err (''failed to marshal raw options for filter type '' @ filterType @ '': '' @ e), w)
      | Ok opts \<Rightarrow>
          if filterType = ''api_key'' then create_api_key env opts lookup w
          else if filterType = ''redis_metadata_enricher'' then create_enricher env opts lookup w
          else if filterType = ''embedded_rate_limiter'' then create_rate_limiter env opts lookup w
          else if filterType = ''header_modifier'' then create_header_modifier env opts w
          else if filterType = ''deny'' then create_deny env opts w
          else if filterType = ''correlation_id'' then create_correlation env opts w
          else if filterType = ''external_auth'' then create_external_auth env opts w
          else if filterType = ''firewall'' then create_firewall env opts w
          else if filterType = ''cors'' then create_cors env opts w
          else if filterType = ''jwt_auth'' then create_jwt env opts w
          else (Err (''unknown filter type: '' @ filterType), w))"

definition filter_types :: "string list" where
  "filter_types = [''api_key'', ''redis_metadata_enricher'', ''embedded_rate_limiter'', ''header_modifier'', ''deny'', ''correlation_id'',
     ''external_auth'', ''firewall'', ''cors'', ''jwt_auth'']"

subsection \<open>Every filter the factory builds keeps the contract of the executor\<close>

lemma CreateFilter_known:
  "CreateFilter env ty opts lk w = (Ok r, w') \<Longrightarrow> ty \<in> set filter_types"
  by (simp add: CreateFilter_def filter_types_def split: sum.splits if_splits)

lemmas created_lawful = apikey_lawful enricher_lawful header_modifier_lawful deny_lawful correlation_lawful ext_auth_lawful
  firewall_lawful cors_lawful lift_filter_lawful [OF jwt_lawful] lift_filter_lawful [OF rate_limiter_lawful]

lemma create_lawful:
  "create_api_key env opts lk w = (Ok (b, cl), w') \<Longrightarrow> lawful_exec (bf_exec b)"
  "create_enricher env opts lk w = (Ok (b, cl), w') \<Longrightarrow> lawful_exec (bf_exec b)"
  "create_rate_limiter env opts lk w = (Ok (b, cl), w') \<Longrightarrow> lawful_exec (bf_exec b)"
  "create_header_modifier env opts w = (Ok (b, cl), w') \<Longrightarrow> lawful_exec (bf_exec b)"
  "create_deny env opts w = (Ok (b, cl), w') \<Longrightarrow> lawful_exec (bf_exec b)"
  "create_correlation env opts w = (Ok (b, cl), w') \<Longrightarrow> lawful_exec (bf_exec b)"
  "create_external_auth env opts w = (Ok (b, cl), w') \<Longrightarrow> lawful_exec (bf_exec b)"
  "create_firewall env opts w = (Ok (b, cl), w') \<Longrightarrow> lawful_exec (bf_exec b)"
  "create_cors env opts w = (Ok (b, cl), w') \<Longrightarrow> lawful_exec (bf_exec b)"
  "create_jwt env opts w = (Ok (b, cl), w') \<Longrightarrow> lawful_exec (bf_exec b)"
  by (auto simp: create_api_key_def create_enricher_def create_rate_limiter_def create_header_modifier_def create_deny_def
      create_correlation_def create_external_auth_def create_firewall_def create_cors_def create_jwt_def created_lawful Let_def
      split: sum.splits prod.splits)

lemma CreateFilter_lawful:
  assumes "CreateFilter env ty opts lk w = (Ok (b, cl), w')"
  shows "lawful_exec (bf_exec b)"
  using assms unfolding CreateFilter_def by (auto split: sum.splits if_splits dest: create_lawful)

subsection \<open>A contract of created filters holds in every published policy\<close>

text \<open>What holds of every filter the manager's factory creates holds of every filter of every policy, also of the
  instances it reuses.\<close>

locale filter_contract =
  fixes ops :: "('w, 'x) manager_ops" and P :: "'w base_filter \<Rightarrow> bool"
  assumes created: "mo_newFilter ops ty opts lk x = (Ok (b, closer), x') \<Longrightarrow> P b"
begin

definition held :: "(string \<times> 'w filter_instance) list \<Rightarrow> bool" where
  "held fs \<longleftrightarrow> (\<forall>key f. map_of fs key = Some f \<longrightarrow> P (fi_filter f))"

lemma compile_filter_contract:
  assumes "held (mg_filters m)" "held (bd_filters b)" "compile_filter ops m fc b = (r, b')"
  shows "held (bd_filters b') \<and> (\<forall>f. r = Ok f \<longrightarrow> P (fi_filter f))"
proof (cases "filterKey ops fc (bd_redis b)")
  case (Inr key)
  obtain q x where q: "mo_newFilter ops (fc_Type fc) (fc_Options fc) (lookup_client (bd_redis b)) (bd_world b) = (q, x)" by fastforce
  have "P bf" if "q = Ok (bf, cl)" for bf cl using created q that by blast
  with assms Inr q show ?thesis
    by (auto simp: compile_filter_def held_def update_conv' Let_def split: option.splits sum.splits if_splits)
qed (use assms in \<open>auto simp: compile_filter_def\<close>)

lemma compile_chain_contract:
  assumes "held (mg_filters m)"
  shows "held (bd_filters b) \<Longrightarrow> compile_chain ops m nm i fcs b = (r, b') \<Longrightarrow>
    held (bd_filters b') \<and> (\<forall>ps. r = Ok ps \<longrightarrow> (\<forall>x \<in> set ps. P (fi_filter (fst x))))"
proof (induction fcs arbitrary: b b' i r)
  case (Cons fc fcs)
  obtain r1 b1 where c: "compile_filter ops m fc b = (r1, b1)" by fastforce
  note k = compile_filter_contract [OF assms Cons.prems(1) c]
  obtain r2 b2 where d: "compile_chain ops m nm (Suc i) fcs b1 = (r2, b2)" by fastforce
  from Cons.IH [OF _ d] k c d Cons.prems(2) show ?case by (cases r1; cases r2) auto
qed simp

lemma compile_chains_contract:
  assumes "held (mg_filters m)"
  shows "held (bd_filters b) \<Longrightarrow> compile_chains ops m cs b = (r, b') \<Longrightarrow>
    held (bd_filters b') \<and> (\<forall>chs. r = Ok chs \<longrightarrow> (\<forall>c \<in> set chs. \<forall>x \<in> set (snd c). P (fi_filter (fst x))))"
proof (induction cs arbitrary: b b' r)
  case (Cons c cs)
  obtain nm fcs where c: "c = (nm, fcs)" by (cases c)
  obtain r1 b1 where d: "compile_chain ops m nm 0 fcs b = (r1, b1)" by fastforce
  note k = compile_chain_contract [OF assms Cons.prems(1) d]
  obtain r2 b2 where e: "compile_chains ops m cs b1 = (r2, b2)" by fastforce
  show ?case
  proof (cases "\<exists>ps chs. r1 = Ok ps \<and> r2 = Ok chs")
    case True
    then obtain ps chs where ok: "r1 = Ok ps" "r2 = Ok chs" by blast
    then have "r = Ok ((nm, ps) # chs)" "b' = b2" using c d e Cons.prems(2) by simp_all
    with Cons.IH [OF _ e] k ok show ?thesis by simp
  next
    case False
    with Cons.IH [OF _ e] k c d e Cons.prems(2) show ?thesis by (cases r1; cases r2) auto
  qed
qed simp

lemma Apply_contract:
  assumes "held (mg_filters m)" "Apply ops rs cs cfg m = (Ok p, m')"
  shows "held (mg_filters m') \<and> (\<forall>name ps. map_of (pub_chains p) name = Some ps \<longrightarrow> (\<forall>x \<in> set ps. P (fi_filter (fst x)))) \<and>
    (\<forall>name. sd_Chains (pub_snapshot p) name = map_option chain_of (map_of (pub_chains p) name))"
  using assms(2)
proof (cases rule: Apply_cases)
  case (published b1 chs b p')
  have "held (bd_filters b1)" using dial_services_filters [of ops m rs "start_build m"] published(2) by (simp add: held_def start_build_def)
  from compile_chains_contract [OF assms(1) this published(3)] published(1,4) show ?thesis
    by (fastforce simp: publish_def Let_def NewSnapshot_def map_of_chain_of dest!: map_of_SomeD)
qed simp

lemma reachable_contract: "policy_reachable ops s \<Longrightarrow> held (mg_filters (ps_manager s))"
proof (induction rule: policy_reachable.induct)
  case (init x)
  show ?case by (simp add: policy_init_def NewManager_def held_def)
next
  case (step s s')
  from step.hyps(2) show ?case
  proof cases
    case (applied cfg rs cs p m')
    with Apply_contract step.IH show ?thesis by simp
  next
    case (rejected cfg rs cs e m')
    with failed_apply_filters [OF rejected(3)] step.IH show ?thesis by simp
  qed (use step.IH in \<open>simp_all add: manager_Close_def held_def\<close>)
qed

lemma published_contract:
  assumes "policy_reachable ops s" "p \<in> set (ps_pubs s)" "sd_Chains (pub_snapshot p) name = Some chain"
  shows "\<exists>ps. chain = chain_of ps \<and> (\<forall>x \<in> set ps. P (fi_filter (fst x)))"
  using assms
proof (induction arbitrary: p name chain rule: policy_reachable.induct)
  case (init x)
  then show ?case by (simp add: policy_init_def)
next
  case (step s s')
  from step.hyps(2) show ?case
  proof cases
    case (applied cfg rs cs p' m')
    with Apply_contract [OF reachable_contract [OF step.hyps(1)]] step show ?thesis by fastforce
  qed (use step in auto)
qed

end

text \<open>The manager as the engine runs it: with the factory above.\<close>

definition engine_ops ::
  "('r, 'c, 'k, 'w) factory_env \<Rightarrow> (bool \<Rightarrow> string \<Rightarrow> RedisServiceConfig \<Rightarrow> 'w \<Rightarrow> (string, unit) result \<times> 'w) \<Rightarrow> ('w, 'w) manager_ops" where
  "engine_ops env dial =
     \<lparr>mo_newRedis = dial, mo_newFilter = (\<lambda>ty opts lk w. CreateFilter env ty opts (Some lk) w), mo_Marshal = fe_Marshal env\<rparr>"

interpretation engine: filter_contract "engine_ops env dial" "\<lambda>b. lawful_exec (bf_exec b)" for env dial
  by unfold_locales (auto simp: engine_ops_def dest: CreateFilter_lawful)

lemma engine_ops_laws:
  assumes "\<And>opts y. fe_Marshal env opts = Ok y \<Longrightarrow> CHR 0x00 \<notin> set y"
  shows "policy_laws (engine_ops env dial)"
proof -
  have "\<forall>ty \<in> set filter_types. CHR 0x00 \<notin> set ty" by code_simp
  with assms CreateFilter_known show ?thesis unfolding policy_laws_def engine_ops_def by fastforce
qed

end
