(* ===== verification/Engine.thy ===== *)
theory Engine
  imports Filter_Factory Ext_Proc_Server
begin

text \<open>
  The engine put together: the configuration a file yields, the policy the manager builds from it with the filter factory,
  and the streams served on that policy.
\<close>

subsection \<open>The chains of a policy\<close>

lemma compile_chains_names: "compile_chains ops m cs b = (Ok chs, b') \<Longrightarrow> map fst chs = map fst cs"
proof (induction cs arbitrary: b b' chs)
  case (Cons c cs)
  obtain nm fcs where c: "c = (nm, fcs)" by (cases c)
  obtain r1 b1 where d: "compile_chain ops m nm 0 fcs b = (r1, b1)" by fastforce
  obtain r2 b2 where e: "compile_chains ops m cs b1 = (r2, b2)" by fastforce
  from Cons.IH Cons.prems c d e show ?case by (cases r1; cases r2) auto
qed simp

lemma Apply_chains:
  assumes "Apply ops rs cs cfg m = (Ok p, m')" "iterates cfg rs cs"
  shows "sd_Config (pub_snapshot p) = Some cfg \<and> dom (sd_Chains (pub_snapshot p)) = dom (cfg_Chains cfg)"
  using assms(1)
proof (cases rule: Apply_cases)
  case (published b1 chs b p')
  have "dom (map_of chs) = dom (cfg_Chains cfg)"
    using compile_chains_names [OF published(3)] assms(2)
    by (simp add: iterates_def dom_map_of_conv_image_fst flip: set_map) (metis dom_map_of_conv_image_fst set_map)
  moreover have "sd_Config (pub_snapshot p) = Some cfg"
    "sd_Chains (pub_snapshot p) = (\<lambda>name. map_option chain_of (map_of chs name))"
    using published(1,4) by (auto simp: publish_def Let_def NewSnapshot_def map_of_chain_of)
  ultimately show ?thesis by (simp add: dom_def)
qed simp

lemma chain_of_lawful:
  assumes "\<forall>x \<in> set ps. lawful_exec (bf_exec (fi_filter (fst x)))"
  shows "lawful_chain (chain_of ps)"
proof -
  have "filter_Execute (Base b) = bf_exec b" "filter_Execute (Audit (Base b)) = bf_exec b" for b :: "'a base_filter"
    by (simp_all add: fun_eq_iff Audit_def)
  with assms show ?thesis by (auto simp: lawful_chain_def chain_of_def)
qed

subsection \<open>Streams keep the context well-formed\<close>

definition lawful_snapshot :: "'w snapshot_data \<Rightarrow> bool" where
  "lawful_snapshot snap \<longleftrightarrow> (\<forall>name chain. sd_Chains snap name = Some chain \<longrightarrow> lawful_chain chain)"

text \<open>The state of a stream on a snapshot: the context is well-formed, and the chain is the one compiled under the name
  routing gave.\<close>

definition stream_ok :: "'w snapshot_data \<Rightarrow> 'w handler_state \<Rightarrow> bool" where
  "stream_ok snap hst \<longleftrightarrow> (case hst of (st, ctx, s) \<Rightarrow>
     st_snap st = snap \<and> context_wf ctx \<and> (st_chain st = [] \<or> sd_Chains snap (st_name st) = Some (st_chain st)) \<and>
     (\<not> st_resolved st \<longrightarrow> st_chain st = [] \<and> st_name st = []))"

lemma context_wf_frame [simp]:
  "context_wf (ctx\<lparr>ctx_Headers := a\<rparr>) = context_wf ctx"
  "context_wf (ctx\<lparr>ctx_ResponseHeaders := a\<rparr>) = context_wf ctx"
  "context_wf (ctx\<lparr>ctx_RequestBody := b\<rparr>) = context_wf ctx"
  "context_wf (ctx\<lparr>ctx_RequestBodySeen := d\<rparr>) = context_wf ctx"
  "context_wf (ctx\<lparr>ctx_ResponseBodyBytes := b\<rparr>) = context_wf ctx"
  "context_wf (ctx\<lparr>ctx_SetHeaderOptions := e\<rparr>) = context_wf ctx"
  "context_wf (ctx\<lparr>ctx_Ctx := f\<rparr>) = context_wf ctx"
  "context_wf (ctx\<lparr>ctx_Blocked := d\<rparr>) = context_wf ctx"
  "context_wf (ctx\<lparr>ctx_FilterFailed := d\<rparr>) = context_wf ctx"
  "context_wf (ctx\<lparr>ctx_ResponseStatus := i\<rparr>) = context_wf ctx"
  "context_wf (ctx\<lparr>ctx_ResponseBody := g\<rparr>) = context_wf ctx"
  "context_wf (ctx\<lparr>ctx_Traffic := t\<rparr>) = context_wf ctx"
  "context_wf (ctx\<lparr>ctx_SourceWorkload := w\<rparr>) = context_wf ctx"
  "context_wf (ctx\<lparr>ctx_DestinationServices := l\<rparr>) = context_wf ctx"
  "context_wf (ctx\<lparr>ctx_MatchedRoute := g\<rparr>) = context_wf ctx"
  by (simp_all add: context_wf_def)

lemma context_wf_steps [simp]:
  "context_wf (prepare_request st attrs hs eos ctx) = context_wf ctx"
  "context_wf (resolveIdentity ident ctx) = context_wf ctx"
  "context_wf (block_unavailable ctx) = context_wf ctx"
  "context_wf (require_body ctx) = context_wf ctx"
  "context_wf (snd (buildHeaderMutation add rm ctx)) = context_wf ctx"
  "context_wf (snd (RouteWith rc ctx)) = context_wf ctx"
proof -
  have loop: "route_loop rs ctx = Some (nm, c) \<Longrightarrow> context_wf c = context_wf ctx" for rs nm c
    by (induction rs) (auto split: if_splits)
  then show "context_wf (snd (RouteWith rc ctx)) = context_wf ctx"
    by (auto simp: RouteWith_def split: option.split)
qed (simp_all add: prepare_request_def resolveIdentity_def block_unavailable_def require_body_def buildHeaderMutation_def
    Block_def Let_def context_wf_def split: option.split)

lemma resolve_ok:
  assumes "stream_ok snap (st, ctx, s)" "resolve st ctx s = (st', c, s')"
  shows "stream_ok snap (st', c, s') \<and> st_resolved st'"
proof -
  have "context_wf c2" if "RouteWith rc (resolveIdentity i ctx) = (nm, c2)" for rc i nm c2
    using context_wf_steps(6) [of rc "resolveIdentity i ctx"] that assms(1) by (simp add: stream_ok_def)
  with assms show ?thesis
    by (auto simp: resolve_def stream_ok_def Let_def split: if_splits option.splits prod.splits)
qed

lemma run_limited_ok:
  assumes "lawful_chain (st_chain st)" "context_wf ctx" "run_limited expired limits st ctx phase s = (c, s')"
  shows "context_wf c"
proof -
  have "context_wf d" if "Execute (ctx\<lparr>ctx_Ctx := h\<rparr>) (st_chain st) phase (srv_world s) = (err, d, w)" for h err d w
    using wf.Execute_inv [OF _ _ that] assms(1,2) by (simp add: lawful_chain_def)
  moreover have "context_wf d" if "Execute ctx (st_chain st) phase (srv_world s) = (err, d, w)" for err d w
    using wf.Execute_inv [OF _ _ that] assms(1,2) by (simp add: lawful_chain_def)
  ultimately show ?thesis
    using assms(3) by (auto simp: run_limited_def Let_def split: if_splits prod.splits)
qed

lemma run_ok:
  assumes "lawful_chain (st_chain st)" "context_wf ctx" "run expired st ctx phase s = (c, s')"
  shows "context_wf c"
  using assms by (auto simp: run_def Let_def split: if_splits prod.splits dest!: run_limited_ok)

lemma route_and_run_ok:
  assumes "lawful_snapshot snap" "stream_ok snap (st, ctx, s)" "\<And>c. context_wf c \<Longrightarrow> context_wf (check c)"
    "route_and_run expired phase check (st, ctx, s) = (st', c', s')"
  shows "stream_ok snap (st', c', s') \<and> st_resolved st'"
proof -
  obtain st1 c1 s1 where r: "resolve st ctx s = (st1, c1, s1)" by (metis prod_cases3)
  obtain c2 s2 where u: "run expired st1 (check c1) phase s1 = (c2, s2)" by fastforce
  from resolve_ok [OF assms(2) r] have ok: "stream_ok snap (st1, c1, s1)" "st_resolved st1" by simp_all
  then have "lawful_chain (st_chain st1)" using assms(1) by (auto simp: stream_ok_def lawful_snapshot_def lawful_chain_def)
  with run_ok [OF _ _ u] ok assms(3,4) r u show ?thesis by (auto simp: route_and_run_def stream_ok_def)
qed

lemma answer_or_ok:
  assumes "stream_ok snap hst" "\<And>c. context_wf c \<Longrightarrow> context_wf (snd (k c))" "answer_or hst k = (r, hst')"
  shows "stream_ok snap hst' \<and> st_resolved (fst hst') = st_resolved (fst hst)"
proof -
  obtain st ctx s where h: "hst = (st, ctx, s)" by (metis prod_cases3)
  have "context_wf (snd (immediateResponse ctx))" if "context_wf ctx"
    using that context_wf_steps(5) [of "ctx_ResponseHeadersToAdd ctx" "[]" ctx]
    by (simp add: immediateResponse_def Let_def case_prod_beta)
  moreover have "context_wf (snd (k ctx))" if "context_wf ctx" by (rule assms(2) [OF that])
  ultimately show ?thesis using assms(1,3) h by (auto simp: answer_or_def stream_ok_def Let_def case_prod_beta split: if_splits)
qed

lemma handle_message_ok:
  assumes "lawful_snapshot snap" "stream_ok snap hst" "handle_message expired msg hst = Some (r, hst')"
  shows "stream_ok snap hst' \<and> st_resolved (fst hst')"
proof -
  obtain st ctx s where h: "hst = (st, ctx, s)" by (metis prod_cases3)
  have frame: "stream_ok snap (st, c, s)" if "context_wf c" for c using assms(2) h that by (simp add: stream_ok_def)
  have wf: "context_wf ctx" using assms(2) h by (simp add: stream_ok_def)
  have step: "stream_ok snap hst' \<and> st_resolved (fst hst')"
    if a: "answer_or (route_and_run expired phase check (st, c, s)) k = (r, hst')"
      and "context_wf c" "\<And>c. context_wf c \<Longrightarrow> context_wf (check c)" "\<And>c. context_wf c \<Longrightarrow> context_wf (snd (k c))" for phase check c k
  proof -
    obtain st' c' s' where u: "route_and_run expired phase check (st, c, s) = (st', c', s')" by (metis prod_cases3)
    have "stream_ok snap (st', c', s') \<and> st_resolved st'" by (rule route_and_run_ok [OF assms(1) frame [OF that(2)] that(3) u])
    with answer_or_ok [of snap "(st', c', s')" k, OF _ that(4)] u a show ?thesis by simp
  qed
  note handlers = handle_message_def handleRequestHeaders_def handleRequestBody_def handleRequestTrailers_def
    handleResponseHeaders_def handleResponseBody_def handleResponseTrailers_def
  show ?thesis
  proof (cases msg)
    case (ResponseTrailersMsg ts)
    obtain st' c' s' where u: "route_and_run expired PhaseResponseTrailers id
        (st, ctx\<lparr>ctx_ResponseHeaders := copyHeaders (ctx_ResponseHeaders ctx) ts\<rparr>, s) = (st', c', s')" by (metis prod_cases3)
    from route_and_run_ok [OF assms(1) frame _ u] wf have "stream_ok snap (st', c', s') \<and> st_resolved st'" by simp
    with ResponseTrailersMsg h u assms(3) show ?thesis
      by (auto simp: handlers stream_ok_def Let_def case_prod_beta)
  next
    case OtherMsg
    with assms(3) show ?thesis by (simp add: handlers)
  qed (use assms(3) in \<open>simp_all add: h handlers\<close>, (erule step; simp add: wf Let_def case_prod_beta)+)
qed

lemma process_loop_ok:
  assumes "lawful_snapshot snap"
  shows "stream_ok snap hst \<Longrightarrow> process_loop expired es hst = (e, rs, hst') \<Longrightarrow> stream_ok snap hst'"
proof (induction expired es hst arbitrary: e rs rule: process_loop.induct)
  case (4 expired msg sent cancelled es hst)
  show ?case
  proof (cases "handle_message expired msg hst")
    case None
    with 4 show ?thesis by simp
  next
    case (Some p)
    obtain r h where p: "p = (r, h)" by (cases p)
    obtain e2 rs2 h2 where l: "process_loop expired es h = (e2, rs2, h2)" by (metis prod_cases3)
    from handle_message_ok [OF assms "4.prems"(1)] Some p have ok: "stream_ok snap h" by blast
    from "4.IH" [OF Some p [symmetric]] Some p l ok "4.prems"(2) show ?thesis by (cases sent) auto
  qed
qed simp_all


subsection \<open>Example\<close>

definition ex_factory :: "(unit, unit, nat, nat) factory_env" where
  "ex_factory =
     \<lparr>fe_Marshal = (\<lambda>_. Ok ''{}''), fe_APIKey = (\<lambda>_. Err ''bad''), fe_Enricher = (\<lambda>_. Ok ex_enricher_config),
      fe_RateLimiter = (\<lambda>_. Err ''bad''), fe_HeaderModifier = (\<lambda>_. Ok ex_modifier), fe_Deny = (\<lambda>_. Ok ex_deny),
      fe_Correlation = (\<lambda>preset _. Ok preset), fe_ExternalAuth = (\<lambda>_. Ok ex_auth_config), fe_Firewall = (\<lambda>_. Ok ex_waf_config),
      fe_CORS = (\<lambda>_. Ok ex_cors), fe_JWT = (\<lambda>_. Err ''bad''),
      fe_keyOps = (\<lambda>_. \<lparr>ko_GET = (\<lambda>_ w. (Err ''down'', w)), ko_EXISTS = (\<lambda>_ w. (Err ''down'', w)), ko_HMGET = (\<lambda>_ _ w. (Err ''down'', w)),
        ko_gjson = (\<lambda>_ _. None), ko_cached = (\<lambda>_ _. None), ko_cacheSet = (\<lambda>_ _ _ w. w), ko_range = (\<lambda>_ _ hv. hv)\<rparr>),
      fe_enricherOps = (\<lambda>_. ex_enricher_ops),
      fe_redis = (\<lambda>_. \<lparr>ro_incrby_expire = (\<lambda>_ _ _ r. (Err ''down'', r)), ro_evalsha = (\<lambda>_ _ r. (Err ''down'', r)), ro_script_load = (\<lambda>_ r. (Err ''down'', r))\<rparr>),
      fe_cache = \<lparr>co_Get = (\<lambda>_ _. False), co_Set = (\<lambda>_ _ c. c)\<rparr>, fe_scripts = (\<lambda>_. []),
      fe_getLimiter = (\<lambda>_ _. \<lparr>lw_redis = (), lw_cache = (), lw_clock = (\<lambda>_. 0), lw_rand = (\<lambda>_. 0), lw_logCounter = 0, lw_sha = []\<rparr>),
      fe_putLimiter = (\<lambda>_ _ w. w), fe_regexp = (\<lambda>_. None), fe_submatch = (\<lambda>_. None), fe_generate = (\<lambda>_ w. (''id'', w)),
      fe_sidecar = \<lparr>so_range = (\<lambda>_. []), so_ValidRequest = (\<lambda>_ _. True), so_Do = (\<lambda>_ w. (Err ''down'', w)), so_Check = (\<lambda>_ w. (Err ''down'', w)),
        so_Process = (\<lambda>w. (Err ''down'', w)), so_Send = (\<lambda>_ _ w. (Err ''down'', w)), so_Recv = (\<lambda>_ w. (Err ''down'', w))\<rparr>, fe_NewClient = (\<lambda>_ w. (Ok 0, w)), fe_ReadFile = (\<lambda>_. Err ''no file''),
      fe_jwtOps = \<lparr>jo_ParseString = (\<lambda>_ _ _ _ w. (Err ''bad'', w)), jo_Fetch = (\<lambda>_ w. (Err ''down'', w)), jo_now = (\<lambda>w. (int w, Suc w)),
        jo_ValidURL = (\<lambda>_. True), jo_Do = (\<lambda>_ _ _ w. (Err ''down'', w)), jo_Decode = (\<lambda>_. Err ''bad''), jo_lock = (\<lambda>sw. sw)\<rparr>,
      fe_allocJWT = (\<lambda>_ w. (0, w)), fe_getJWT = (\<lambda>_ _. \<lparr>js_keySet = None, js_lastFetch = 0\<rparr>), fe_putJWT = (\<lambda>_ _ w. w)\<rparr>"

definition ex_dial :: "bool \<Rightarrow> string \<Rightarrow> RedisServiceConfig \<Rightarrow> nat \<Rightarrow> (string, unit) result \<times> nat" where
  "ex_dial strict name svc w = (Ok (), w)"

definition ex_engine_chains :: "(string \<times> FilterConfig list) list" where
  "ex_engine_chains = [(''main'', [\<lparr>fc_Name = ''admin'', fc_Audit = False, fc_Type = ''deny'', fc_Options = []\<rparr>]), (''fallback'', [])]"

definition ex_engine_parse :: "(config_error, Config) result" where
  "ex_engine_parse = ParseBytes (\<lambda>_. Some (ex_config\<lparr>cfg_Chains := map_of ex_engine_chains\<rparr>)) (\<lambda>_. None) (\<lambda>_. []) []"

definition ex_engine_apply :: "Config \<Rightarrow> (apply_error, nat publication) result \<times> (nat, nat) manager" where
  "ex_engine_apply cfg = Apply (engine_ops ex_factory ex_dial) [] ex_engine_chains cfg (ps_manager (policy_init 0))"

lemma ex_engine_ok:
  "case ex_engine_parse of Err _ \<Rightarrow> False | Ok cfg \<Rightarrow> is_ok (fst (ex_engine_apply cfg)) \<and> fst (RouteWith (cfg_Router cfg) ex_request) = ''main''"
  by code_simp


end
