(* ===== verification/Operator_Index.thy ===== *)
theory Operator_Index
  imports Netip_Text "HOL-Library.AList" "HOL-Library.Product_Lexorder"
begin

text \<open>
  The operator's map from addresses to workloads (\<^verbatim>\<open>hyper-operator/internal/identity/index.go\<close>). Every method runs under the
  mutex of the index and is one step of the model. Go maps that are iterated are association lists, the others are HOL maps.
  Writing to a nil map panics in Go: the one place where the source could do so, \<^verbatim>\<open>dropRef\<close>, returns \<open>None\<close> there.
\<close>

subsection \<open>The order of addresses\<close>

text \<open>\<^verbatim>\<open>netip.Addr.Compare\<close>: the length of the address, then its value, then its zone.\<close>

fun addr_key :: "addr \<Rightarrow> nat \<times> nat \<times> string" where
  "addr_key AddrInvalid = (0, 0, [])"
| "addr_key (AddrV4 w) = (32, unat w, [])"
| "addr_key (AddrV6 w z) = (128, unat w, z)"

lemma addr_key_inject: "addr_key a = addr_key b \<longleftrightarrow> a = b"
  by (cases a; cases b) (auto simp: word_unat_eq_iff)

instantiation addr :: linorder
begin

definition less_eq_addr :: "addr \<Rightarrow> addr \<Rightarrow> bool" where
  "less_eq_addr a b = (addr_key a \<le> addr_key b)"

definition less_addr :: "addr \<Rightarrow> addr \<Rightarrow> bool" where
  "less_addr a b = (addr_key a < addr_key b)"

instance
proof
  fix a b c :: addr
  show "a < b \<longleftrightarrow> a \<le> b \<and> \<not> b \<le> a" unfolding less_eq_addr_def less_addr_def by (rule less_le_not_le)
  show "a \<le> a" unfolding less_eq_addr_def by simp
  show "a \<le> b \<Longrightarrow> b \<le> c \<Longrightarrow> a \<le> c" unfolding less_eq_addr_def by (rule order_trans)
  show "a \<le> b \<Longrightarrow> b \<le> a \<Longrightarrow> a = b" unfolding less_eq_addr_def using addr_key_inject by (meson antisym)
  show "a \<le> b \<or> b \<le> a" unfolding less_eq_addr_def by (rule linear)
qed

end

subsection \<open>Records\<close>

datatype WorkloadKind = NoKind | PodKind | NodeKind

definition WorkloadKind_String :: "WorkloadKind \<Rightarrow> string" where
  "WorkloadKind_String k = (case k of PodKind \<Rightarrow> ''pod'' | NodeKind \<Rightarrow> ''node'' | NoKind \<Rightarrow> ''unknown'')"

text \<open>A reference to a Service: its namespace and its name.\<close>

type_synonym ServiceRef = "string \<times> string"

definition string_Compare :: "string \<Rightarrow> string \<Rightarrow> int" where
  "string_Compare a b = (if a < b then - 1 else if a = b then 0 else 1)"

definition compareServiceRef :: "ServiceRef \<Rightarrow> ServiceRef \<Rightarrow> int" where
  "compareServiceRef a b =
     (let c = string_Compare (fst a) (fst b) in if c \<noteq> 0 then c else string_Compare (snd a) (snd b))"

text \<open>The comparison the source sorts references with is the lexicographic order of pairs.\<close>

lemma compareServiceRef_less: "compareServiceRef a b < 0 \<longleftrightarrow> a < b"
  by (cases a; cases b) (auto simp: compareServiceRef_def string_Compare_def Let_def less_prod_def)

record Workload =
  wk_Kind :: WorkloadKind
  wk_IP :: addr
  wk_Node :: string
  wk_PodUID :: string
  wk_Namespace :: string
  wk_Pod :: string
  wk_ServiceAccount :: string
  wk_SPIFFEID :: string
  wk_Labels :: "string \<rightharpoonup> string"
  wk_Services :: "ServiceRef list"
  wk_SecurityIdentity :: "32 word"
  wk_CiliumLabels :: "string list"

record op_service =
  os_Namespace :: string
  os_Name :: string
  os_ClusterIPs :: "addr list"
  os_Ports :: "32 word list"

record PodRecord =
  pr_UID :: string
  pr_Namespace :: string
  pr_Name :: string
  pr_ServiceAccount :: string
  pr_Node :: string
  pr_Labels :: "string \<rightharpoonup> string"
  pr_IPs :: "addr list"
  pr_HostNetwork :: bool
  pr_Finished :: bool
  pr_Created :: int

record SliceRecord =
  sr_Namespace :: string
  sr_Name :: string
  sr_Service :: string
  sr_PodUIDs :: "string list"
  sr_IPs :: "addr list"

record CiliumEndpointRecord =
  ce_Namespace :: string
  ce_Name :: string
  ce_Identity :: "32 word"
  ce_Labels :: "string list"

record NodeRecord =
  nr_Name :: string
  nr_IPs :: "addr list"

record index_options =
  io_TrustDomain :: string
  io_LabelKeys :: "string list"

definition DefaultLabelKeys :: "string list" where
  "DefaultLabelKeys = [''app'', ''version'', ''app.kubernetes.io/name'', ''app.kubernetes.io/instance'',
     ''app.kubernetes.io/component'', ''app.kubernetes.io/version'']"

type_synonym ref_counts = "(ServiceRef \<times> int) list"

record op_index =
  ox_trustDomain :: string
  ox_labelKeys :: "string list"
  ox_pods :: "string \<rightharpoonup> PodRecord"
  ox_claims :: "(addr \<times> string list) list"
  ox_slices :: "string \<times> string \<rightharpoonup> SliceRecord"
  ox_podServices :: "string \<rightharpoonup> ref_counts"
  ox_ipServices :: "addr \<rightharpoonup> ref_counts"
  ox_services :: "(ServiceRef \<times> op_service) list"
  ox_byClusterIP :: "addr \<rightharpoonup> ServiceRef"
  ox_cilium :: "string \<times> string \<rightharpoonup> CiliumEndpointRecord"
  ox_nodes :: "string \<rightharpoonup> NodeRecord"
  ox_nodeIP :: "(addr \<times> string) list"
  ox_generation :: "64 word"
  ox_changed :: bool \<comment> \<open>a notification waits in the channel\<close>

definition op_NewIndex :: "index_options \<Rightarrow> op_index" where
  "op_NewIndex opts =
     \<lparr>ox_trustDomain = (if io_TrustDomain opts = [] then ''cluster.local'' else io_TrustDomain opts),
      ox_labelKeys = (if io_LabelKeys opts = [] then DefaultLabelKeys else io_LabelKeys opts),
      ox_pods = Map.empty, ox_claims = [], ox_slices = Map.empty, ox_podServices = Map.empty, ox_ipServices = Map.empty,
      ox_services = [], ox_byClusterIP = Map.empty, ox_cilium = Map.empty, ox_nodes = Map.empty, ox_nodeIP = [],
      ox_generation = 0, ox_changed = False\<rparr>"

definition bump :: "op_index \<Rightarrow> op_index" where
  "bump x = x\<lparr>ox_generation := ox_generation x + 1, ox_changed := True\<rparr>"

definition LabelAllowed :: "op_index \<Rightarrow> string \<Rightarrow> bool" where
  "LabelAllowed x k \<longleftrightarrow> k \<in> set (ox_labelKeys x)"

subsection \<open>Helpers\<close>

definition uniqueAddrs :: "addr list \<Rightarrow> addr list" where
  "uniqueAddrs ips =
     fold (\<lambda>a out. if \<not> addr_is_valid a then out
                    else let b = addr_unmap a in if b \<in> set out then out else out @ [b]) ips []"

definition uniqueStrings :: "string list \<Rightarrow> string list" where
  "uniqueStrings ss = fold (\<lambda>s out. if s \<noteq> [] \<and> s \<notin> set out then out @ [s] else out) ss []"

definition filterLabels :: "op_index \<Rightarrow> (string \<rightharpoonup> string) \<Rightarrow> (string \<rightharpoonup> string)" where
  "filterLabels x labels = (\<lambda>k. if k \<in> set (ox_labelKeys x) then labels k else None)"

definition count_in :: "ref_counts \<Rightarrow> ServiceRef \<Rightarrow> int" where
  "count_in refs r = (case map_of refs r of None \<Rightarrow> 0 | Some n \<Rightarrow> n)"

definition addRef :: "('k \<rightharpoonup> ref_counts) \<Rightarrow> 'k \<Rightarrow> ServiceRef \<Rightarrow> ('k \<rightharpoonup> ref_counts)" where
  "addRef m k r =
     (let refs = (case m k of None \<Rightarrow> [] | Some rs \<Rightarrow> rs) in m(k \<mapsto> AList.update r (count_in refs r + 1) refs))"

definition dropRef :: "('k \<rightharpoonup> ref_counts) \<Rightarrow> 'k \<Rightarrow> ServiceRef \<Rightarrow> ('k \<rightharpoonup> ref_counts) option" where
  "dropRef m k r =
     (case m k of
        None \<Rightarrow> None
      | Some refs \<Rightarrow>
          (let n = count_in refs r - 1;
               rs = (if n \<le> 0 then AList.delete r refs else AList.update r n refs)
           in Some (if rs = [] then m(k := None) else m(k \<mapsto> rs))))"

text \<open>A loop of \<^verbatim>\<open>dropRef\<close>.\<close>

fun drop_refs :: "('k \<rightharpoonup> ref_counts) \<Rightarrow> 'k list \<Rightarrow> ServiceRef \<Rightarrow> ('k \<rightharpoonup> ref_counts) option" where
  "drop_refs m [] r = Some m"
| "drop_refs m (k # ks) r = (case dropRef m k r of None \<Rightarrow> None | Some m' \<Rightarrow> drop_refs m' ks r)"

subsection \<open>Pods\<close>

definition claims_at :: "(addr \<times> string list) list \<Rightarrow> addr \<Rightarrow> string list" where
  "claims_at cs ip = (case map_of cs ip of None \<Rightarrow> [] | Some us \<Rightarrow> us)"

definition release :: "string \<Rightarrow> addr \<Rightarrow> (addr \<times> string list) list \<Rightarrow> (addr \<times> string list) list" where
  "release uid ip cs =
     (let us = filter (\<lambda>u. u \<noteq> uid) (claims_at cs ip) in if us = [] then AList.delete ip cs else AList.update ip us cs)"

definition removePodLocked :: "string \<Rightarrow> op_index \<Rightarrow> op_index" where
  "removePodLocked uid x =
     (case ox_pods x uid of
        None \<Rightarrow> x
      | Some old \<Rightarrow> x\<lparr>ox_claims := fold (release uid) (pr_IPs old) (ox_claims x), ox_pods := (ox_pods x)(uid := None)\<rparr>)"

definition UpsertPod :: "PodRecord \<Rightarrow> op_index \<Rightarrow> op_index" where
  "UpsertPod p x0 =
     (let x = removePodLocked (pr_UID p) x0 in
      if pr_HostNetwork p \<or> pr_Finished p \<or> pr_UID p = [] then bump x
      else
        (let rec = p\<lparr>pr_IPs := uniqueAddrs (pr_IPs p), pr_Labels := filterLabels x (pr_Labels p)\<rparr>
         in bump (x\<lparr>ox_pods := (ox_pods x)(pr_UID p \<mapsto> rec),
                    ox_claims := fold (\<lambda>ip cs. AList.update ip (claims_at cs ip @ [pr_UID p]) cs) (pr_IPs rec) (ox_claims x)\<rparr>)))"

definition DeletePod :: "string \<Rightarrow> op_index \<Rightarrow> op_index" where
  "DeletePod uid x = bump (removePodLocked uid x)"

definition better :: "PodRecord \<Rightarrow> PodRecord \<Rightarrow> bool" where
  "better p best \<longleftrightarrow> pr_Created p > pr_Created best \<or> pr_Created p = pr_Created best \<and> pr_UID p > pr_UID best"

definition owner :: "op_index \<Rightarrow> addr \<Rightarrow> PodRecord option" where
  "owner x ip =
     fold (\<lambda>uid best. case ox_pods x uid of
                         None \<Rightarrow> best
                       | Some p \<Rightarrow> (case best of None \<Rightarrow> Some p | Some b \<Rightarrow> if better p b then Some p else Some b))
       (claims_at (ox_claims x) ip) None"

subsection \<open>Endpoint slices\<close>

definition slice_service :: "SliceRecord \<Rightarrow> ServiceRef" where
  "slice_service s = (sr_Namespace s, sr_Service s)"

definition removeSliceLocked :: "string \<times> string \<Rightarrow> op_index \<Rightarrow> op_index option" where
  "removeSliceLocked key x =
     (case ox_slices x key of
        None \<Rightarrow> Some x
      | Some old \<Rightarrow>
          (case drop_refs (ox_podServices x) (sr_PodUIDs old) (slice_service old) of
             None \<Rightarrow> None
           | Some ps \<Rightarrow>
               (case drop_refs (ox_ipServices x) (sr_IPs old) (slice_service old) of
                  None \<Rightarrow> None
                | Some is \<Rightarrow>
                    Some (x\<lparr>ox_podServices := ps, ox_ipServices := is, ox_slices := (ox_slices x)(key := None)\<rparr>))))"

definition slice_record :: "SliceRecord \<Rightarrow> SliceRecord" where
  "slice_record s = s\<lparr>sr_PodUIDs := uniqueStrings (sr_PodUIDs s), sr_IPs := uniqueAddrs (sr_IPs s)\<rparr>"

definition UpsertSlice :: "SliceRecord \<Rightarrow> op_index \<Rightarrow> op_index option" where
  "UpsertSlice s x0 =
     (case removeSliceLocked (sr_Namespace s, sr_Name s) x0 of
        None \<Rightarrow> None
      | Some x \<Rightarrow>
          if sr_Service s = [] then Some (bump x)
          else
            (let svc = (sr_Namespace s, sr_Service s);
                 rec = slice_record s
             in Some (bump (x\<lparr>ox_podServices := fold (\<lambda>uid m. addRef m uid svc) (sr_PodUIDs rec) (ox_podServices x),
                              ox_ipServices := fold (\<lambda>ip m. addRef m ip svc) (sr_IPs rec) (ox_ipServices x),
                              ox_slices := (ox_slices x)((sr_Namespace s, sr_Name s) \<mapsto> rec)\<rparr>))))"

definition DeleteSlice :: "string \<Rightarrow> string \<Rightarrow> op_index \<Rightarrow> op_index option" where
  "DeleteSlice ns nm x = map_option bump (removeSliceLocked (ns, nm) x)"

subsection \<open>Services, Cilium endpoints and nodes\<close>

definition removeServiceLocked :: "ServiceRef \<Rightarrow> op_index \<Rightarrow> op_index" where
  "removeServiceLocked ref x =
     (case map_of (ox_services x) ref of
        None \<Rightarrow> x
      | Some old \<Rightarrow>
          x\<lparr>ox_byClusterIP := fold (\<lambda>ip m. if m ip = Some ref then m(ip := None) else m) (os_ClusterIPs old) (ox_byClusterIP x),
            ox_services := AList.delete ref (ox_services x)\<rparr>)"

definition UpsertService :: "op_service \<Rightarrow> op_index \<Rightarrow> op_index" where
  "UpsertService s0 x0 =
     (let ref = (os_Namespace s0, os_Name s0);
          x = removeServiceLocked ref x0;
          s = s0\<lparr>os_ClusterIPs := uniqueAddrs (os_ClusterIPs s0)\<rparr>
      in bump (x\<lparr>ox_services := AList.update ref s (ox_services x),
                 ox_byClusterIP := fold (\<lambda>ip m. m(ip \<mapsto> ref)) (os_ClusterIPs s) (ox_byClusterIP x)\<rparr>))"

definition DeleteService :: "string \<Rightarrow> string \<Rightarrow> op_index \<Rightarrow> op_index" where
  "DeleteService ns nm x = bump (removeServiceLocked (ns, nm) x)"

definition UpsertCiliumEndpoint :: "CiliumEndpointRecord \<Rightarrow> op_index \<Rightarrow> op_index" where
  "UpsertCiliumEndpoint c x =
     bump (x\<lparr>ox_cilium := (ox_cilium x)((ce_Namespace c, ce_Name c) \<mapsto> c\<lparr>ce_Labels := sort (ce_Labels c)\<rparr>)\<rparr>)"

definition DeleteCiliumEndpoint :: "string \<Rightarrow> string \<Rightarrow> op_index \<Rightarrow> op_index" where
  "DeleteCiliumEndpoint ns nm x = bump (x\<lparr>ox_cilium := (ox_cilium x)((ns, nm) := None)\<rparr>)"

definition removeNodeLocked :: "string \<Rightarrow> op_index \<Rightarrow> op_index" where
  "removeNodeLocked nm x =
     (case ox_nodes x nm of
        None \<Rightarrow> x
      | Some old \<Rightarrow>
          x\<lparr>ox_nodeIP := fold (\<lambda>ip m. if map_of m ip = Some nm then AList.delete ip m else m) (nr_IPs old) (ox_nodeIP x),
            ox_nodes := (ox_nodes x)(nm := None)\<rparr>)"

definition UpsertNode :: "NodeRecord \<Rightarrow> op_index \<Rightarrow> op_index" where
  "UpsertNode n0 x0 =
     (let x = removeNodeLocked (nr_Name n0) x0;
          n = n0\<lparr>nr_IPs := uniqueAddrs (nr_IPs n0)\<rparr>
      in bump (x\<lparr>ox_nodes := (ox_nodes x)(nr_Name n \<mapsto> n),
                 ox_nodeIP := fold (\<lambda>ip m. AList.update ip (nr_Name n) m) (nr_IPs n) (ox_nodeIP x)\<rparr>))"

definition DeleteNode :: "string \<Rightarrow> op_index \<Rightarrow> op_index" where
  "DeleteNode nm x = bump (removeNodeLocked nm x)"

subsection \<open>Lookups\<close>

definition podWorkloadLocked :: "op_index \<Rightarrow> PodRecord \<Rightarrow> addr \<Rightarrow> Workload" where
  "podWorkloadLocked x p ip =
     (let sa = (if pr_ServiceAccount p = [] then ''default'' else pr_ServiceAccount p);
          refs_at = (\<lambda>r. map fst (case r of None \<Rightarrow> [] | Some rs \<Rightarrow> rs));
          refs = remdups (refs_at (ox_podServices x (pr_UID p)) @ refs_at (ox_ipServices x ip));
          c = ox_cilium x (pr_Namespace p, pr_Name p)
      in \<lparr>wk_Kind = PodKind, wk_IP = ip, wk_Node = pr_Node p, wk_PodUID = pr_UID p, wk_Namespace = pr_Namespace p,
          wk_Pod = pr_Name p, wk_ServiceAccount = sa,
          wk_SPIFFEID = ''spiffe://'' @ ox_trustDomain x @ ''/ns/'' @ pr_Namespace p @ ''/sa/'' @ sa,
          wk_Labels = pr_Labels p, wk_Services = sort refs,
          wk_SecurityIdentity = (case c of None \<Rightarrow> 0 | Some e \<Rightarrow> ce_Identity e),
          wk_CiliumLabels = (case c of None \<Rightarrow> [] | Some e \<Rightarrow> ce_Labels e)\<rparr>)"

definition nodeWorkload :: "addr \<Rightarrow> string \<Rightarrow> Workload" where
  "nodeWorkload ip node =
     \<lparr>wk_Kind = NodeKind, wk_IP = ip, wk_Node = node, wk_PodUID = [], wk_Namespace = [], wk_Pod = [], wk_ServiceAccount = [],
      wk_SPIFFEID = [], wk_Labels = Map.empty, wk_Services = [], wk_SecurityIdentity = 0, wk_CiliumLabels = []\<rparr>"

definition op_Lookup :: "op_index \<Rightarrow> addr \<Rightarrow> Workload option" where
  "op_Lookup x ip0 =
     (let ip = addr_unmap ip0 in
      case owner x ip of
        Some p \<Rightarrow> Some (podWorkloadLocked x p ip)
      | None \<Rightarrow> map_option (nodeWorkload ip) (map_of (ox_nodeIP x) ip))"

definition zero_service :: op_service where
  "zero_service = \<lparr>os_Namespace = [], os_Name = [], os_ClusterIPs = [], os_Ports = []\<rparr>"

definition op_ServiceByClusterIP :: "op_index \<Rightarrow> addr \<Rightarrow> op_service option" where
  "op_ServiceByClusterIP x ip =
     (case ox_byClusterIP x (addr_unmap ip) of
        None \<Rightarrow> None
      | Some ref \<Rightarrow> Some (case map_of (ox_services x) ref of None \<Rightarrow> zero_service | Some s \<Rightarrow> s))"

definition op_Service :: "op_index \<Rightarrow> string \<Rightarrow> string \<Rightarrow> op_service option" where
  "op_Service x ns nm = map_of (ox_services x) (ns, nm)"

definition Workloads :: "op_index \<Rightarrow> Workload list" where
  "Workloads x =
     sort_key wk_IP
       (List.map_filter (\<lambda>(ip, _). map_option (\<lambda>p. podWorkloadLocked x p ip) (owner x ip)) (ox_claims x) @
        List.map_filter (\<lambda>(ip, node). if map_of (ox_claims x) ip = None then Some (nodeWorkload ip node) else None) (ox_nodeIP x))"

definition Services :: "op_index \<Rightarrow> op_service list" where
  "Services x = sort_key (\<lambda>s. (os_Namespace s, os_Name s)) (map snd (ox_services x))"

definition Counts :: "op_index \<Rightarrow> nat \<times> nat \<times> nat" where
  "Counts x = (length (ox_claims x), length (ox_nodeIP x), length (ox_services x))"

subsection \<open>Events\<close>

text \<open>The calls the cache makes, and a sequence of them. \<open>None\<close> is a panic.\<close>

datatype op_event =
    PodSeen PodRecord
  | PodGone string
  | SliceSeen SliceRecord
  | SliceGone string string
  | ServiceSeen op_service
  | ServiceGone string string
  | CiliumSeen CiliumEndpointRecord
  | CiliumGone string string
  | NodeSeen NodeRecord
  | NodeGone string

definition index_apply :: "op_event \<Rightarrow> op_index \<Rightarrow> op_index option" where
  "index_apply e x =
     (case e of
        PodSeen p \<Rightarrow> Some (UpsertPod p x)
      | PodGone uid \<Rightarrow> Some (DeletePod uid x)
      | SliceSeen s \<Rightarrow> UpsertSlice s x
      | SliceGone ns nm \<Rightarrow> DeleteSlice ns nm x
      | ServiceSeen s \<Rightarrow> Some (UpsertService s x)
      | ServiceGone ns nm \<Rightarrow> Some (DeleteService ns nm x)
      | CiliumSeen c \<Rightarrow> Some (UpsertCiliumEndpoint c x)
      | CiliumGone ns nm \<Rightarrow> Some (DeleteCiliumEndpoint ns nm x)
      | NodeSeen n \<Rightarrow> Some (UpsertNode n x)
      | NodeGone nm \<Rightarrow> Some (DeleteNode nm x))"

fun index_run :: "op_event list \<Rightarrow> op_index \<Rightarrow> op_index option" where
  "index_run [] x = Some x"
| "index_run (e # es) x = (case index_apply e x of None \<Rightarrow> None | Some y \<Rightarrow> index_run es y)"

subsection \<open>Lists without repetitions\<close>

declare map_of_eq_Some_iff [simp del] Some_eq_map_of_iff [simp del]

lemma uniqueAddrs_props:
  "distinct (uniqueAddrs ips)" "set (uniqueAddrs ips) = addr_unmap ` {a \<in> set ips. addr_is_valid a}"
proof -
  let ?f = "\<lambda>a out. if \<not> addr_is_valid a then out else let b = addr_unmap a in if b \<in> set out then out else out @ [b]"
  have "distinct out \<Longrightarrow> distinct (fold ?f ips out) \<and> set (fold ?f ips out) = set out \<union> addr_unmap ` {a \<in> set ips. addr_is_valid a}" for out
    by (induction ips arbitrary: out) (auto simp: Let_def)
  from this [of "[]"] show "distinct (uniqueAddrs ips)" "set (uniqueAddrs ips) = addr_unmap ` {a \<in> set ips. addr_is_valid a}"
    by (simp_all add: uniqueAddrs_def)
qed

lemma uniqueStrings_props:
  "distinct (uniqueStrings ss)" "set (uniqueStrings ss) = set ss - {[]}"
proof -
  let ?f = "\<lambda>s out. if s \<noteq> [] \<and> s \<notin> set out then out @ [s] else out"
  have "distinct out \<Longrightarrow> distinct (fold ?f ss out) \<and> set (fold ?f ss out) = set out \<union> (set ss - {[]})" for out
    by (induction ss arbitrary: out) auto
  from this [of "[]"] show "distinct (uniqueStrings ss)" "set (uniqueStrings ss) = set ss - {[]}"
    by (simp_all add: uniqueStrings_def)
qed

text \<open>An address as the index stores it.\<close>

definition stored_addr :: "addr \<Rightarrow> bool" where
  "stored_addr a \<longleftrightarrow> addr_is_valid a \<and> addr_unmap a = a"

lemma uniqueAddrs_stored: "a \<in> set (uniqueAddrs ips) \<Longrightarrow> stored_addr a"
  by (auto simp: uniqueAddrs_props(2) stored_addr_def addr_is_valid_def)

subsection \<open>Reference counts\<close>

locale ref_store =
  fixes add :: "'m \<Rightarrow> 'k \<Rightarrow> 'r \<Rightarrow> 'm" and drop_one :: "'m \<Rightarrow> 'k \<Rightarrow> 'r \<Rightarrow> 'm option"
    and drop_all :: "'m \<Rightarrow> 'k list \<Rightarrow> 'r \<Rightarrow> 'm option" and counted :: "'m \<Rightarrow> 'k \<Rightarrow> 'r \<Rightarrow> int" and ok :: "'m \<Rightarrow> bool"
  assumes ok_add: "ok m \<Longrightarrow> ok (add m k r)"
    and count_add: "ok m \<Longrightarrow> counted (add m k r) k' r' = counted m k' r' + (if k' = k \<and> r' = r then 1 else 0)"
    and drop_one_some: "ok m \<Longrightarrow> 0 < counted m k r \<Longrightarrow> \<exists>m'. drop_one m k r = Some m' \<and> ok m' \<and>
      (\<forall>k' r'. counted m' k' r' = counted m k' r' - (if k' = k \<and> r' = r then 1 else 0))"
    and drop_all_Nil: "drop_all m [] r = Some m"
    and drop_all_Cons: "drop_all m (k # ks) r = (case drop_one m k r of None \<Rightarrow> None | Some m' \<Rightarrow> drop_all m' ks r)"
begin

lemma add_all:
  "ok m \<Longrightarrow> distinct ks \<Longrightarrow> ok (fold (\<lambda>k m. add m k r) ks m) \<and>
     (\<forall>k' r'. counted (fold (\<lambda>k m. add m k r) ks m) k' r' = counted m k' r' + (if k' \<in> set ks \<and> r' = r then 1 else 0))"
proof (induction ks arbitrary: m)
  case (Cons k ks)
  from Cons.IH [OF ok_add [OF Cons.prems(1)]] Cons.prems show ?case by (auto simp: count_add)
qed simp

lemma drop_all_some:
  "ok m \<Longrightarrow> distinct ks \<Longrightarrow> \<forall>k \<in> set ks. 0 < counted m k r \<Longrightarrow> \<exists>m'. drop_all m ks r = Some m' \<and> ok m' \<and>
     (\<forall>k' r'. counted m' k' r' = counted m k' r' - (if k' \<in> set ks \<and> r' = r then 1 else 0))"
proof (induction ks arbitrary: m)
  case Nil
  then show ?case by (simp add: drop_all_Nil)
next
  case (Cons k ks)
  obtain m1 where m1: "drop_one m k r = Some m1" "ok m1"
    "\<And>k' r'. counted m1 k' r' = counted m k' r' - (if k' = k \<and> r' = r then 1 else 0)"
    using drop_one_some [OF Cons.prems(1), of k r] Cons.prems(3) by auto
  have "\<forall>k' \<in> set ks. 0 < counted m1 k' r" using Cons.prems(2,3) m1(3) by auto
  from Cons.IH [OF m1(2) _ this] Cons.prems(2) obtain m2 where m2: "drop_all m1 ks r = Some m2" "ok m2"
    "\<And>k' r'. counted m2 k' r' = counted m1 k' r' - (if k' \<in> set ks \<and> r' = r then 1 else 0)" by auto
  from m1 m2 Cons.prems(2) show ?case by (auto simp: drop_all_Cons)
qed

end

definition ref_count :: "('k \<rightharpoonup> ref_counts) \<Rightarrow> 'k \<Rightarrow> ServiceRef \<Rightarrow> int" where
  "ref_count m k r = (case m k of None \<Rightarrow> 0 | Some refs \<Rightarrow> count_in refs r)"

definition refs_ok :: "('k \<rightharpoonup> ref_counts) \<Rightarrow> bool" where
  "refs_ok m \<longleftrightarrow> (\<forall>k refs. m k = Some refs \<longrightarrow> refs \<noteq> [] \<and> distinct (map fst refs) \<and> (\<forall>r n. map_of refs r = Some n \<longrightarrow> 0 < n))"

lemma dropRef_some:
  assumes "refs_ok m" "0 < ref_count m k r"
  shows "\<exists>m'. dropRef m k r = Some m' \<and> refs_ok m' \<and>
    (\<forall>k' r'. ref_count m' k' r' = ref_count m k' r' - (if k' = k \<and> r' = r then 1 else 0))"
proof -
  obtain refs where refs: "m k = Some refs" using assms(2) by (auto simp: ref_count_def split: option.splits)
  obtain n where n: "map_of refs r = Some n" "0 < n" using assms(2) refs by (auto simp: ref_count_def count_in_def split: option.splits)
  have d: "distinct (map fst refs)" "\<And>r n. map_of refs r = Some n \<Longrightarrow> 0 < n" using assms(1) refs by (auto simp: refs_ok_def)
  let ?rs = "if n - 1 \<le> 0 then AList.delete r refs else AList.update r (n - 1) refs"
  have m: "map_of ?rs = (if n - 1 \<le> 0 then (map_of refs)(r := None) else (map_of refs)(r \<mapsto> n - 1))"
    by (simp add: delete_conv' update_conv')
  have rs: "distinct (map fst ?rs)" "\<And>r n. map_of ?rs r = Some n \<Longrightarrow> 0 < n"
    "\<And>r'. count_in ?rs r' = count_in refs r' - (if r' = r then 1 else 0)"
  proof -
    show "distinct (map fst ?rs)" using d(1) by (simp add: distinct_update distinct_delete)
    show "0 < n'" if "map_of ?rs r' = Some n'" for r' n' using that d(2) unfolding m by (auto split: if_splits)
    show "count_in ?rs r' = count_in refs r' - (if r' = r then 1 else 0)" for r'
      using n unfolding count_in_def m by simp
  qed
  have drop: "dropRef m k r = Some (if ?rs = [] then m(k := None) else m(k \<mapsto> ?rs))"
    using refs n by (simp add: dropRef_def count_in_def Let_def)
  have empty: "count_in refs r' = (if r' = r then 1 else 0)" if "?rs = []" for r'
    using rs(3) [of r'] that by (simp add: count_in_def split: if_splits)
  show ?thesis
  proof (cases "?rs = []")
    case True
    then have "dropRef m k r = Some (m(k := None))" using drop by simp
    with assms(1) refs empty [OF True] show ?thesis by (auto simp: refs_ok_def ref_count_def)
  next
    case False
    then have "dropRef m k r = Some (m(k \<mapsto> ?rs))" using drop by simp
    with assms(1) refs rs False show ?thesis by (auto simp: refs_ok_def ref_count_def)
  qed
qed

lemma addRef_props:
  assumes "refs_ok m"
  shows "refs_ok (addRef m k r)" "ref_count (addRef m k r) k' r' = ref_count m k' r' + (if k' = k \<and> r' = r then 1 else 0)"
proof -
  let ?refs = "case m k of None \<Rightarrow> [] | Some rs \<Rightarrow> rs"
  have old: "distinct (map fst ?refs)" "map_of ?refs r' = Some n \<Longrightarrow> 0 < n" for r' n
  proof -
    have ok: "m k = Some refs \<Longrightarrow> distinct (map fst refs)" "m k = Some refs \<Longrightarrow> map_of refs r' = Some n \<Longrightarrow> 0 < n" for refs
      using assms unfolding refs_ok_def by blast+
    show "distinct (map fst ?refs)" using ok(1) by (cases "m k") auto
    show "map_of ?refs r' = Some n \<Longrightarrow> 0 < n" using ok(2) by (cases "m k") simp_all
  qed
  have "0 \<le> count_in ?refs r" using old(2) [of r] by (cases "map_of ?refs r") (auto simp: count_in_def less_imp_le)
  moreover have "map_of (AList.update r (count_in ?refs r + 1) ?refs) = (map_of ?refs)(r \<mapsto> count_in ?refs r + 1)"
    by (simp add: update_conv')
  moreover have "AList.update r (count_in ?refs r + 1) ?refs \<noteq> []" by (cases ?refs) auto
  ultimately show "refs_ok (addRef m k r)"
    using assms old distinct_update [OF old(1)] unfolding refs_ok_def addRef_def Let_def by (auto split: if_splits)
  show "ref_count (addRef m k r) k' r' = ref_count m k' r' + (if k' = k \<and> r' = r then 1 else 0)"
    by (auto simp: ref_count_def addRef_def Let_def update_conv' count_in_def split: option.split)
qed

interpretation refs: ref_store addRef dropRef drop_refs ref_count refs_ok
  by unfold_locales (rule addRef_props dropRef_some drop_refs.simps; assumption)+

lemma refs_members:
  assumes "refs_ok m"
  shows "r \<in> fst ` set (case m k of None \<Rightarrow> [] | Some rs \<Rightarrow> rs) \<longleftrightarrow> 0 < ref_count m k r"
proof (cases "m k")
  case (Some refs)
  then have "map_of refs r = Some n \<Longrightarrow> 0 < n" for n using assms unfolding refs_ok_def by blast
  then have "0 < count_in refs r \<longleftrightarrow> map_of refs r \<noteq> None" by (cases "map_of refs r") (simp_all add: count_in_def)
  with Some show ?thesis by (simp add: ref_count_def map_of_eq_None_iff)
qed (simp add: ref_count_def)

subsection \<open>Membership of Services\<close>

text \<open>The slices that list something under a Service, and counts that agree with them.\<close>

definition slice_keys ::
  "(string \<times> string \<rightharpoonup> SliceRecord) \<Rightarrow> (SliceRecord \<Rightarrow> 'k list) \<Rightarrow> 'k \<Rightarrow> ServiceRef \<Rightarrow> (string \<times> string) set" where
  "slice_keys sl f k r = {key. \<exists>s. sl key = Some s \<and> slice_service s = r \<and> k \<in> set (f s)}"

definition counts_slices ::
  "(string \<times> string \<rightharpoonup> SliceRecord) \<Rightarrow> (SliceRecord \<Rightarrow> 'k list) \<Rightarrow> ('k \<rightharpoonup> ref_counts) \<Rightarrow> bool" where
  "counts_slices sl f m \<longleftrightarrow> refs_ok m \<and> (\<forall>k r. ref_count m k r = int (card (slice_keys sl f k r)))"

lemma slice_keys_finite: "finite (dom sl) \<Longrightarrow> finite (slice_keys sl f k r)"
  by (rule finite_subset [of _ "dom sl"]) (auto simp: slice_keys_def)

lemma counts_remove:
  assumes "finite (dom sl)" "sl key = Some old" "distinct (f old)" "counts_slices sl f m"
  shows "\<exists>m'. drop_refs m (f old) (slice_service old) = Some m' \<and> counts_slices (sl(key := None)) f m'"
proof -
  let ?r = "slice_service old"
  have keys: "slice_keys (sl(key := None)) f k r = slice_keys sl f k r - {key}" for k r by (auto simp: slice_keys_def)
  have mem: "key \<in> slice_keys sl f k r \<longleftrightarrow> k \<in> set (f old) \<and> r = ?r" for k r using assms(2) by (auto simp: slice_keys_def)
  have fin: "finite (slice_keys sl f k r)" for k r using assms(1) by (rule slice_keys_finite)
  have cnt: "refs_ok m" "ref_count m k r = int (card (slice_keys sl f k r))" for k r
    using assms(4) unfolding counts_slices_def by blast+
  have "0 < ref_count m k ?r" if "k \<in> set (f old)" for k
  proof -
    have "slice_keys sl f k ?r \<noteq> {}" using mem that by blast
    with fin cnt(2) show ?thesis by (simp add: card_gt_0_iff)
  qed
  then obtain m' where m': "drop_refs m (f old) ?r = Some m'" "refs_ok m'"
    "\<And>k r. ref_count m' k r = ref_count m k r - (if k \<in> set (f old) \<and> r = ?r then 1 else 0)"
    using refs.drop_all_some [OF cnt(1) assms(3)] by metis
  have "ref_count m' k r = int (card (slice_keys (sl(key := None)) f k r))" for k r
  proof (cases "key \<in> slice_keys sl f k r")
    case True
    then have "0 < card (slice_keys sl f k r)" using fin card_gt_0_iff by blast
    with True mem m'(3) cnt(2) show ?thesis by (simp add: keys of_nat_diff)
  next
    case False
    with mem m'(3) cnt(2) show ?thesis by (simp add: keys)
  qed
  with m'(1,2) show ?thesis unfolding counts_slices_def by blast
qed

lemma counts_add:
  assumes "finite (dom sl)" "sl key = None" "distinct (f s)" "counts_slices sl f m"
  shows "counts_slices (sl(key \<mapsto> s)) f (fold (\<lambda>k m. addRef m k (slice_service s)) (f s) m)"
proof -
  have keys: "slice_keys (sl(key \<mapsto> s)) f k r =
      (if k \<in> set (f s) \<and> r = slice_service s then insert key (slice_keys sl f k r) else slice_keys sl f k r)" for k r
    using assms(2) by (auto simp: slice_keys_def)
  have new: "key \<notin> slice_keys sl f k r" for k r using assms(2) by (auto simp: slice_keys_def)
  have cnt: "refs_ok m" "ref_count m k r = int (card (slice_keys sl f k r))" for k r
    using assms(4) unfolding counts_slices_def by blast+
  note add = refs.add_all [OF cnt(1) assms(3), of "slice_service s"]
  show ?thesis
    unfolding counts_slices_def
  proof (intro conjI allI)
    show "refs_ok (fold (\<lambda>k m. addRef m k (slice_service s)) (f s) m)" using add by blast
    fix k r
    have "ref_count (fold (\<lambda>k m. addRef m k (slice_service s)) (f s) m) k r =
        int (card (slice_keys sl f k r)) + (if k \<in> set (f s) \<and> r = slice_service s then 1 else 0)"
      using add cnt(2) by metis
    then show "ref_count (fold (\<lambda>k m. addRef m k (slice_service s)) (f s) m) k r = int (card (slice_keys (sl(key \<mapsto> s)) f k r))"
      using card_insert_disjoint [OF slice_keys_finite [OF assms(1)] new [of k r]]
      by (cases "k \<in> set (f s) \<and> r = slice_service s") (simp_all only: keys if_True if_False of_nat_Suc add_0_right, simp_all)
  qed
qed

subsection \<open>The invariant\<close>

definition slices_ok :: "op_index \<Rightarrow> bool" where
  "slices_ok x \<longleftrightarrow> finite (dom (ox_slices x)) \<and>
     (\<forall>key s. ox_slices x key = Some s \<longrightarrow> distinct (sr_PodUIDs s) \<and> distinct (sr_IPs s)) \<and>
     counts_slices (ox_slices x) sr_PodUIDs (ox_podServices x) \<and> counts_slices (ox_slices x) sr_IPs (ox_ipServices x)"

definition claims_wf :: "(addr \<times> string list) list \<Rightarrow> bool" where
  "claims_wf cs \<longleftrightarrow> distinct (map fst cs) \<and> (\<forall>ip us. map_of cs ip = Some us \<longrightarrow> us \<noteq> [])"

definition claims_ok :: "op_index \<Rightarrow> bool" where
  "claims_ok x \<longleftrightarrow> claims_wf (ox_claims x) \<and>
     (\<forall>ip uid. uid \<in> set (claims_at (ox_claims x) ip) \<longleftrightarrow> (\<exists>p. ox_pods x uid = Some p \<and> ip \<in> set (pr_IPs p))) \<and>
     (\<forall>uid p. ox_pods x uid = Some p \<longrightarrow> pr_UID p = uid \<and> distinct (pr_IPs p) \<and> (\<forall>ip \<in> set (pr_IPs p). stored_addr ip))"

definition services_ok :: "op_index \<Rightarrow> bool" where
  "services_ok x \<longleftrightarrow> distinct (map fst (ox_services x)) \<and>
     (\<forall>ref s. map_of (ox_services x) ref = Some s \<longrightarrow> ref = (os_Namespace s, os_Name s) \<and> (\<forall>ip \<in> set (os_ClusterIPs s). stored_addr ip)) \<and>
     (\<forall>ip ref. ox_byClusterIP x ip = Some ref \<longrightarrow> (\<exists>s. map_of (ox_services x) ref = Some s \<and> ip \<in> set (os_ClusterIPs s)))"

definition nodes_ok :: "op_index \<Rightarrow> bool" where
  "nodes_ok x \<longleftrightarrow> distinct (map fst (ox_nodeIP x)) \<and>
     (\<forall>nm n. ox_nodes x nm = Some n \<longrightarrow> nr_Name n = nm \<and> (\<forall>ip \<in> set (nr_IPs n). stored_addr ip)) \<and>
     (\<forall>ip nm. map_of (ox_nodeIP x) ip = Some nm \<longrightarrow> (\<exists>n. ox_nodes x nm = Some n \<and> ip \<in> set (nr_IPs n)))"

definition op_index_wf :: "op_index \<Rightarrow> bool" where
  "op_index_wf x \<longleftrightarrow> claims_ok x \<and> slices_ok x \<and> services_ok x \<and> nodes_ok x"

lemmas index_invariants = claims_ok_def slices_ok_def services_ok_def nodes_ok_def

lemma bump_fields [simp]:
  "ox_trustDomain (bump x) = ox_trustDomain x" "ox_labelKeys (bump x) = ox_labelKeys x" "ox_pods (bump x) = ox_pods x"
  "ox_claims (bump x) = ox_claims x" "ox_slices (bump x) = ox_slices x" "ox_podServices (bump x) = ox_podServices x"
  "ox_ipServices (bump x) = ox_ipServices x" "ox_services (bump x) = ox_services x" "ox_byClusterIP (bump x) = ox_byClusterIP x"
  "ox_cilium (bump x) = ox_cilium x" "ox_nodes (bump x) = ox_nodes x" "ox_nodeIP (bump x) = ox_nodeIP x"
  by (simp_all add: bump_def)

lemma invariant_frames:
  "claims_ok x \<Longrightarrow> ox_claims y = ox_claims x \<Longrightarrow> ox_pods y = ox_pods x \<Longrightarrow> claims_ok y"
  "slices_ok x \<Longrightarrow> ox_slices y = ox_slices x \<Longrightarrow> ox_podServices y = ox_podServices x \<Longrightarrow> ox_ipServices y = ox_ipServices x \<Longrightarrow> slices_ok y"
  "services_ok x \<Longrightarrow> ox_services y = ox_services x \<Longrightarrow> ox_byClusterIP y = ox_byClusterIP x \<Longrightarrow> services_ok y"
  "nodes_ok x \<Longrightarrow> ox_nodes y = ox_nodes x \<Longrightarrow> ox_nodeIP y = ox_nodeIP x \<Longrightarrow> nodes_ok y"
  unfolding index_invariants by presburger+

lemma op_index_wf_new: "op_index_wf (op_NewIndex opts)"
  by (simp add: op_index_wf_def index_invariants op_NewIndex_def claims_wf_def claims_at_def counts_slices_def refs_ok_def
      ref_count_def slice_keys_def)

subsection \<open>Pods\<close>

lemma claims_at_release: "claims_at (release uid ip cs) ip' = (if ip' = ip then filter (\<lambda>u. u \<noteq> uid) (claims_at cs ip) else claims_at cs ip')"
  by (auto simp: release_def claims_at_def Let_def delete_conv' update_conv' split: option.splits)

lemma claims_at_release_all:
  "claims_at (fold (release uid) ips cs) ip = (if ip \<in> set ips then filter (\<lambda>u. u \<noteq> uid) (claims_at cs ip) else claims_at cs ip)"
  by (induction ips arbitrary: cs) (auto simp: claims_at_release)

lemma claims_wf_release: "claims_wf cs \<Longrightarrow> claims_wf (release uid ip cs)"
  by (auto simp: claims_wf_def release_def Let_def delete_conv' update_conv' distinct_update distinct_delete split: if_splits)

lemma claims_wf_release_all: "claims_wf cs \<Longrightarrow> claims_wf (fold (release uid) ips cs)"
  by (induction ips arbitrary: cs) (simp_all add: claims_wf_release)

lemma claim_all:
  assumes "distinct ips"
  shows "claims_at (fold (\<lambda>ip cs. AList.update ip (claims_at cs ip @ [uid]) cs) ips cs) ip = claims_at cs ip @ (if ip \<in> set ips then [uid] else [])"
    and "claims_wf cs \<Longrightarrow> claims_wf (fold (\<lambda>ip cs. AList.update ip (claims_at cs ip @ [uid]) cs) ips cs)"
proof -
  have step: "claims_at (AList.update i (claims_at cs i @ [uid]) cs) ip = claims_at cs ip @ (if ip = i then [uid] else [])" for i cs ip
    by (simp add: claims_at_def update_conv')
  show "claims_at (fold (\<lambda>ip cs. AList.update ip (claims_at cs ip @ [uid]) cs) ips cs) ip = claims_at cs ip @ (if ip \<in> set ips then [uid] else [])"
    using assms by (induction ips arbitrary: cs) (auto simp: step)
  have "claims_wf (AList.update i (claims_at cs i @ [uid]) cs)" if "claims_wf cs" for i cs
    using that by (auto simp: claims_wf_def update_conv' distinct_update split: if_splits)
  then show "claims_wf cs \<Longrightarrow> claims_wf (fold (\<lambda>ip cs. AList.update ip (claims_at cs ip @ [uid]) cs) ips cs)"
    by (induction ips arbitrary: cs) simp_all
qed

lemma removePod_claims:
  assumes "claims_ok x"
  shows "claims_ok (removePodLocked uid x)" "ox_pods (removePodLocked uid x) = (ox_pods x)(uid := None)"
    "claims_at (ox_claims (removePodLocked uid x)) ip = filter (\<lambda>u. u \<noteq> uid) (claims_at (ox_claims x) ip)"
proof -
  show pods: "ox_pods (removePodLocked uid x) = (ox_pods x)(uid := None)"
    by (auto simp: removePodLocked_def split: option.split)
  have at: "claims_at (ox_claims (removePodLocked uid x)) ip = filter (\<lambda>u. u \<noteq> uid) (claims_at (ox_claims x) ip)" for ip
  proof (cases "uid \<in> set (claims_at (ox_claims x) ip)")
    case True
    with assms obtain p where "ox_pods x uid = Some p" "ip \<in> set (pr_IPs p)" by (auto simp: claims_ok_def)
    then show ?thesis by (simp add: removePodLocked_def claims_at_release_all)
  next
    case False
    then have "filter (\<lambda>u. u \<noteq> uid) (claims_at (ox_claims x) ip) = claims_at (ox_claims x) ip" by (auto simp: filter_id_conv)
    then show ?thesis by (simp add: removePodLocked_def claims_at_release_all split: option.split)
  qed
  then show "claims_at (ox_claims (removePodLocked uid x)) ip = filter (\<lambda>u. u \<noteq> uid) (claims_at (ox_claims x) ip)" .
  have "claims_wf (ox_claims (removePodLocked uid x))"
    using assms claims_wf_release_all by (auto simp: claims_ok_def removePodLocked_def split: option.split)
  with assms at pods show "claims_ok (removePodLocked uid x)" by (auto simp: claims_ok_def)
qed

lemma removePod_frame [simp]:
  "ox_trustDomain (removePodLocked uid x) = ox_trustDomain x" "ox_labelKeys (removePodLocked uid x) = ox_labelKeys x"
  "ox_slices (removePodLocked uid x) = ox_slices x" "ox_podServices (removePodLocked uid x) = ox_podServices x"
  "ox_ipServices (removePodLocked uid x) = ox_ipServices x" "ox_services (removePodLocked uid x) = ox_services x"
  "ox_byClusterIP (removePodLocked uid x) = ox_byClusterIP x" "ox_cilium (removePodLocked uid x) = ox_cilium x"
  "ox_nodes (removePodLocked uid x) = ox_nodes x" "ox_nodeIP (removePodLocked uid x) = ox_nodeIP x"
  by (simp_all add: removePodLocked_def split: option.split)

text \<open>What the index keeps of a pod, nothing if the pod has no address of its own or has finished.\<close>

definition pod_kept :: "string list \<Rightarrow> PodRecord \<Rightarrow> PodRecord option" where
  "pod_kept keys p =
     (if pr_HostNetwork p \<or> pr_Finished p \<or> pr_UID p = [] then None
      else Some (p\<lparr>pr_IPs := uniqueAddrs (pr_IPs p), pr_Labels := (\<lambda>k. if k \<in> set keys then pr_Labels p k else None)\<rparr>))"

lemma UpsertPod_ok:
  assumes "claims_ok x"
  shows "claims_ok (UpsertPod p x)" "ox_pods (UpsertPod p x) = (ox_pods x)(pr_UID p := pod_kept (ox_labelKeys x) p)"
proof -
  note rm = removePod_claims [OF assms, of "pr_UID p"]
  show "ox_pods (UpsertPod p x) = (ox_pods x)(pr_UID p := pod_kept (ox_labelKeys x) p)"
    by (simp add: UpsertPod_def Let_def rm pod_kept_def filterLabels_def)
  show "claims_ok (UpsertPod p x)"
  proof (cases "pr_HostNetwork p \<or> pr_Finished p \<or> pr_UID p = []")
    case True
    with rm(1) show ?thesis by (simp add: UpsertPod_def claims_ok_def)
  next
    case False
    let ?ips = "uniqueAddrs (pr_IPs p)"
    have at: "claims_at (ox_claims (UpsertPod p x)) ip = filter (\<lambda>u. u \<noteq> pr_UID p) (claims_at (ox_claims x) ip) @ (if ip \<in> set ?ips then [pr_UID p] else [])" for ip
      using False by (simp add: UpsertPod_def Let_def rm(3) claim_all(1) uniqueAddrs_props(1))
    have wf: "claims_wf (ox_claims (UpsertPod p x))"
      using False rm(1) by (simp add: UpsertPod_def Let_def claims_ok_def claim_all(2) uniqueAddrs_props(1))
    have pods: "ox_pods (UpsertPod p x) = (ox_pods x)(pr_UID p \<mapsto> p\<lparr>pr_IPs := ?ips, pr_Labels := filterLabels x (pr_Labels p)\<rparr>)"
      using False by (simp add: UpsertPod_def Let_def rm(2) filterLabels_def)
    show ?thesis
      using assms at wf pods uniqueAddrs_props(1) uniqueAddrs_stored by (auto simp: claims_ok_def)
  qed
qed

lemma UpsertPod_frame [simp]:
  "ox_trustDomain (UpsertPod p x) = ox_trustDomain x" "ox_labelKeys (UpsertPod p x) = ox_labelKeys x"
  "ox_slices (UpsertPod p x) = ox_slices x" "ox_podServices (UpsertPod p x) = ox_podServices x"
  "ox_ipServices (UpsertPod p x) = ox_ipServices x" "ox_services (UpsertPod p x) = ox_services x"
  "ox_byClusterIP (UpsertPod p x) = ox_byClusterIP x" "ox_cilium (UpsertPod p x) = ox_cilium x"
  "ox_nodes (UpsertPod p x) = ox_nodes x" "ox_nodeIP (UpsertPod p x) = ox_nodeIP x"
  by (simp_all add: UpsertPod_def Let_def)

subsection \<open>Slices\<close>

lemma removeSlice_ok:
  assumes "slices_ok x"
  shows "\<exists>ps qs. removeSliceLocked key x = Some (x\<lparr>ox_podServices := ps, ox_ipServices := qs, ox_slices := (ox_slices x)(key := None)\<rparr>) \<and>
    slices_ok (x\<lparr>ox_podServices := ps, ox_ipServices := qs, ox_slices := (ox_slices x)(key := None)\<rparr>)"
proof (cases "ox_slices x key")
  case None
  then have "x\<lparr>ox_podServices := ox_podServices x, ox_ipServices := ox_ipServices x, ox_slices := (ox_slices x)(key := None)\<rparr> = x"
    by (simp add: fun_upd_idem)
  moreover have "removeSliceLocked key x = Some x" by (simp add: removeSliceLocked_def None)
  ultimately show ?thesis using assms by (intro exI [of _ "ox_podServices x"] exI [of _ "ox_ipServices x"]) (simp only: simp_thms)
next
  case (Some old)
  have d: "finite (dom (ox_slices x))" "distinct (sr_PodUIDs old)" "distinct (sr_IPs old)"
    using assms Some unfolding slices_ok_def by blast+
  obtain ps where ps: "drop_refs (ox_podServices x) (sr_PodUIDs old) (slice_service old) = Some ps"
      "counts_slices ((ox_slices x)(key := None)) sr_PodUIDs ps"
    using counts_remove [OF d(1) Some, of sr_PodUIDs] d(2) assms unfolding slices_ok_def by blast
  obtain qs where qs: "drop_refs (ox_ipServices x) (sr_IPs old) (slice_service old) = Some qs"
      "counts_slices ((ox_slices x)(key := None)) sr_IPs qs"
    using counts_remove [OF d(1) Some, of sr_IPs] d(3) assms unfolding slices_ok_def by blast
  have "removeSliceLocked key x = Some (x\<lparr>ox_podServices := ps, ox_ipServices := qs, ox_slices := (ox_slices x)(key := None)\<rparr>)"
    by (simp add: removeSliceLocked_def Some ps(1) qs(1))
  moreover have "\<forall>k t. ((ox_slices x)(key := None)) k = Some t \<longrightarrow> distinct (sr_PodUIDs t) \<and> distinct (sr_IPs t)"
    using assms unfolding slices_ok_def by (metis fun_upd_apply option.distinct(1))
  then have "slices_ok (x\<lparr>ox_podServices := ps, ox_ipServices := qs, ox_slices := (ox_slices x)(key := None)\<rparr>)"
    using d(1) ps(2) qs(2) by (simp add: slices_ok_def)
  ultimately show ?thesis by blast
qed

definition slice_kept :: "SliceRecord \<Rightarrow> SliceRecord option" where
  "slice_kept s = (if sr_Service s = [] then None else Some (slice_record s))"

lemma UpsertSlice_ok:
  assumes "slices_ok x"
  shows "\<exists>ps qs g c. UpsertSlice s x = Some (x\<lparr>ox_podServices := ps, ox_ipServices := qs,
      ox_slices := (ox_slices x)((sr_Namespace s, sr_Name s) := slice_kept s), ox_generation := g, ox_changed := c\<rparr>) \<and>
    slices_ok (x\<lparr>ox_podServices := ps, ox_ipServices := qs, ox_slices := (ox_slices x)((sr_Namespace s, sr_Name s) := slice_kept s)\<rparr>)"
proof -
  let ?key = "(sr_Namespace s, sr_Name s)" and ?sl = "(ox_slices x)((sr_Namespace s, sr_Name s) := None)"
  obtain ps qs where r: "removeSliceLocked ?key x = Some (x\<lparr>ox_podServices := ps, ox_ipServices := qs, ox_slices := ?sl\<rparr>)"
      "slices_ok (x\<lparr>ox_podServices := ps, ox_ipServices := qs, ox_slices := ?sl\<rparr>)"
    using removeSlice_ok [OF assms] by blast
  show ?thesis
  proof (cases "sr_Service s = []")
    case True
    then have "UpsertSlice s x = Some (x\<lparr>ox_podServices := ps, ox_ipServices := qs, ox_slices := ?sl, ox_generation := ox_generation x + 1,
        ox_changed := True\<rparr>)" by (simp add: UpsertSlice_def r(1) bump_def)
    with r(2) True show ?thesis unfolding slice_kept_def by auto
  next
    case False
    have svc: "slice_service (slice_record s) = (sr_Namespace s, sr_Service s)" by (simp add: slice_service_def slice_record_def)
    have d: "distinct (sr_PodUIDs (slice_record s))" "distinct (sr_IPs (slice_record s))"
      by (simp_all add: slice_record_def uniqueAddrs_props uniqueStrings_props)
    have fin: "finite (dom ?sl)" using r(2) by (simp add: slices_ok_def)
    let ?ps = "fold (\<lambda>k m. addRef m k (sr_Namespace s, sr_Service s)) (sr_PodUIDs (slice_record s)) ps"
      and ?qs = "fold (\<lambda>k m. addRef m k (sr_Namespace s, sr_Service s)) (sr_IPs (slice_record s)) qs"
    have upd: "UpsertSlice s x = Some (x\<lparr>ox_podServices := ?ps, ox_ipServices := ?qs, ox_slices := ?sl(?key \<mapsto> slice_record s),
        ox_generation := ox_generation x + 1, ox_changed := True\<rparr>)"
      using False by (simp add: UpsertSlice_def r(1) bump_def Let_def)
    have "counts_slices (?sl(?key \<mapsto> slice_record s)) sr_PodUIDs ?ps"
      using counts_add [OF fin, of ?key sr_PodUIDs "slice_record s" ps] d(1) r(2) svc by (simp add: slices_ok_def)
    moreover have "counts_slices (?sl(?key \<mapsto> slice_record s)) sr_IPs ?qs"
      using counts_add [OF fin, of ?key sr_IPs "slice_record s" qs] d(2) r(2) svc by (simp add: slices_ok_def)
    moreover have "\<forall>k t. (?sl(?key \<mapsto> slice_record s)) k = Some t \<longrightarrow> distinct (sr_PodUIDs t) \<and> distinct (sr_IPs t)"
      using assms d by (auto simp: slices_ok_def)
    ultimately have "slices_ok (x\<lparr>ox_podServices := ?ps, ox_ipServices := ?qs, ox_slices := ?sl(?key \<mapsto> slice_record s)\<rparr>)"
      using fin by (simp add: slices_ok_def)
    then show ?thesis
      using upd False unfolding slice_kept_def by auto
  qed
qed

lemma DeleteSlice_ok:
  assumes "slices_ok x"
  shows "\<exists>ps qs g c. DeleteSlice ns nm x = Some (x\<lparr>ox_podServices := ps, ox_ipServices := qs,
      ox_slices := (ox_slices x)((ns, nm) := None), ox_generation := g, ox_changed := c\<rparr>) \<and>
    slices_ok (x\<lparr>ox_podServices := ps, ox_ipServices := qs, ox_slices := (ox_slices x)((ns, nm) := None)\<rparr>)"
proof -
  obtain ps qs where r: "removeSliceLocked (ns, nm) x = Some (x\<lparr>ox_podServices := ps, ox_ipServices := qs, ox_slices := (ox_slices x)((ns, nm) := None)\<rparr>)"
      "slices_ok (x\<lparr>ox_podServices := ps, ox_ipServices := qs, ox_slices := (ox_slices x)((ns, nm) := None)\<rparr>)"
    using removeSlice_ok [OF assms] by blast
  have "DeleteSlice ns nm x = Some (x\<lparr>ox_podServices := ps, ox_ipServices := qs, ox_slices := (ox_slices x)((ns, nm) := None),
      ox_generation := ox_generation x + 1, ox_changed := True\<rparr>)" by (simp add: DeleteSlice_def r(1) bump_def)
  with r(2) show ?thesis by blast
qed


subsection \<open>Services and nodes\<close>

lemma drop_ips: "fold (\<lambda>ip m. if m ip = Some ref then m(ip := None) else m) ips m ip = (if ip \<in> set ips \<and> m ip = Some ref then None else m ip)"
  by (induction ips arbitrary: m) auto

lemma set_ips: "fold (\<lambda>ip m. m(ip \<mapsto> v)) ips m ip = (if ip \<in> set ips then Some v else m ip)"
  by (induction ips arbitrary: m) auto

lemma drop_keys:
  "map_of (fold (\<lambda>ip m. if map_of m ip = Some v then AList.delete ip m else m) ips m) ip = (if ip \<in> set ips \<and> map_of m ip = Some v then None else map_of m ip)"
  "distinct (map fst m) \<Longrightarrow> distinct (map fst (fold (\<lambda>ip m. if map_of m ip = Some v then AList.delete ip m else m) ips m))"
  by (induction ips arbitrary: m) (auto simp: delete_conv' distinct_delete)

lemma update_keys:
  "map_of (fold (\<lambda>ip m. AList.update ip v m) ips m) ip = (if ip \<in> set ips then Some v else map_of m ip)"
  "distinct (map fst m) \<Longrightarrow> distinct (map fst (fold (\<lambda>ip m. AList.update ip v m) ips m))"
  by (induction ips arbitrary: m) (auto simp: update_conv' distinct_update)

lemma removeService_ok:
  assumes "services_ok x"
  shows "services_ok (removeServiceLocked ref x)" "map_of (ox_services (removeServiceLocked ref x)) = (map_of (ox_services x))(ref := None)"
  using assms by (fastforce simp: services_ok_def removeServiceLocked_def delete_conv' distinct_delete drop_ips split: option.splits if_splits)+

definition service_kept :: "op_service \<Rightarrow> op_service" where
  "service_kept s = s\<lparr>os_ClusterIPs := uniqueAddrs (os_ClusterIPs s)\<rparr>"

lemma UpsertService_ok:
  assumes "services_ok x"
  shows "services_ok (UpsertService s x)" "map_of (ox_services (UpsertService s x)) = (map_of (ox_services x))((os_Namespace s, os_Name s) \<mapsto> service_kept s)"
proof -
  let ?ref = "(os_Namespace s, os_Name s)"
  note rm = removeService_ok [OF assms, of ?ref]
  show m: "map_of (ox_services (UpsertService s x)) = (map_of (ox_services x))(?ref \<mapsto> service_kept s)"
    by (simp add: UpsertService_def Let_def update_conv' rm(2) service_kept_def)
  have ips: "ox_byClusterIP (UpsertService s x) ip = (if ip \<in> set (uniqueAddrs (os_ClusterIPs s)) then Some ?ref else ox_byClusterIP (removeServiceLocked ?ref x) ip)" for ip
    by (simp add: UpsertService_def Let_def set_ips)
  have "distinct (map fst (ox_services (removeServiceLocked ?ref x)))" using rm(1) unfolding services_ok_def by blast
  then have d: "distinct (map fst (ox_services (UpsertService s x)))" by (simp add: UpsertService_def Let_def distinct_update)
  show "services_ok (UpsertService s x)"
    unfolding services_ok_def m
  proof (intro conjI allI impI d)
    fix ref t
    assume "((map_of (ox_services x))(?ref \<mapsto> service_kept s)) ref = Some t"
    then consider "ref = ?ref" "t = service_kept s" | "map_of (ox_services x) ref = Some t" by (metis fun_upd_apply option.inject)
    then have "ref = (os_Namespace t, os_Name t) \<and> (\<forall>ip \<in> set (os_ClusterIPs t). stored_addr ip)"
    proof cases
      case 2
      then show ?thesis using assms unfolding services_ok_def by blast
    qed (simp add: service_kept_def uniqueAddrs_stored)
    then show "ref = (os_Namespace t, os_Name t)" "\<forall>ip \<in> set (os_ClusterIPs t). stored_addr ip" by blast+
  next
    fix ip ref
    assume "ox_byClusterIP (UpsertService s x) ip = Some ref"
    then consider "ref = ?ref" "ip \<in> set (uniqueAddrs (os_ClusterIPs s))" | "ox_byClusterIP (removeServiceLocked ?ref x) ip = Some ref"
      by (metis ips option.inject)
    then show "\<exists>t. ((map_of (ox_services x))(?ref \<mapsto> service_kept s)) ref = Some t \<and> ip \<in> set (os_ClusterIPs t)"
    proof cases
      case 2
      with rm obtain t where "((map_of (ox_services x))(?ref := None)) ref = Some t" "ip \<in> set (os_ClusterIPs t)"
        unfolding services_ok_def by metis
      then show ?thesis by (metis fun_upd_apply option.distinct(1))
    qed (simp add: service_kept_def)
  qed
qed

lemma removeNode_ok:
  assumes "nodes_ok x"
  shows "nodes_ok (removeNodeLocked nm x)" "ox_nodes (removeNodeLocked nm x) = (ox_nodes x)(nm := None)"
  using assms by (fastforce simp: nodes_ok_def removeNodeLocked_def drop_keys split: option.splits if_splits)+

definition node_kept :: "NodeRecord \<Rightarrow> NodeRecord" where
  "node_kept n = n\<lparr>nr_IPs := uniqueAddrs (nr_IPs n)\<rparr>"

lemma UpsertNode_ok:
  assumes "nodes_ok x"
  shows "nodes_ok (UpsertNode n x)" "ox_nodes (UpsertNode n x) = (ox_nodes x)(nr_Name n \<mapsto> node_kept n)"
proof -
  note rm = removeNode_ok [OF assms, of "nr_Name n"]
  show nd: "ox_nodes (UpsertNode n x) = (ox_nodes x)(nr_Name n \<mapsto> node_kept n)"
    by (simp add: UpsertNode_def Let_def rm(2) node_kept_def)
  have ips: "map_of (ox_nodeIP (UpsertNode n x)) ip = (if ip \<in> set (uniqueAddrs (nr_IPs n)) then Some (nr_Name n) else map_of (ox_nodeIP (removeNodeLocked (nr_Name n) x)) ip)" for ip
    by (simp add: UpsertNode_def Let_def update_keys)
  have "distinct (map fst (ox_nodeIP (removeNodeLocked (nr_Name n) x)))" using rm(1) unfolding nodes_ok_def by blast
  then have d: "distinct (map fst (ox_nodeIP (UpsertNode n x)))" by (simp add: UpsertNode_def Let_def update_keys)
  show "nodes_ok (UpsertNode n x)"
    unfolding nodes_ok_def nd
  proof (intro conjI allI impI d)
    fix nm t
    assume "((ox_nodes x)(nr_Name n \<mapsto> node_kept n)) nm = Some t"
    then consider "nm = nr_Name n" "t = node_kept n" | "ox_nodes x nm = Some t" by (metis fun_upd_apply option.inject)
    then have "nr_Name t = nm \<and> (\<forall>ip \<in> set (nr_IPs t). stored_addr ip)"
    proof cases
      case 2
      then show ?thesis using assms unfolding nodes_ok_def by blast
    qed (simp add: node_kept_def uniqueAddrs_stored)
    then show "nr_Name t = nm" "\<forall>ip \<in> set (nr_IPs t). stored_addr ip" by blast+
  next
    fix ip nm
    assume "map_of (ox_nodeIP (UpsertNode n x)) ip = Some nm"
    then consider "nm = nr_Name n" "ip \<in> set (uniqueAddrs (nr_IPs n))" | "map_of (ox_nodeIP (removeNodeLocked (nr_Name n) x)) ip = Some nm"
      by (metis ips option.inject)
    then show "\<exists>t. ((ox_nodes x)(nr_Name n \<mapsto> node_kept n)) nm = Some t \<and> ip \<in> set (nr_IPs t)"
    proof cases
      case 2
      with rm obtain t where "((ox_nodes x)(nr_Name n := None)) nm = Some t" "ip \<in> set (nr_IPs t)"
        unfolding nodes_ok_def by metis
      then show ?thesis by (metis fun_upd_apply option.distinct(1))
    qed (simp add: node_kept_def)
  qed
qed

lemma other_frames [simp]:
  "ox_trustDomain (removeServiceLocked r x) = ox_trustDomain x" "ox_labelKeys (removeServiceLocked r x) = ox_labelKeys x"
  "ox_pods (removeServiceLocked r x) = ox_pods x" "ox_claims (removeServiceLocked r x) = ox_claims x"
  "ox_slices (removeServiceLocked r x) = ox_slices x" "ox_podServices (removeServiceLocked r x) = ox_podServices x"
  "ox_ipServices (removeServiceLocked r x) = ox_ipServices x" "ox_cilium (removeServiceLocked r x) = ox_cilium x"
  "ox_nodes (removeServiceLocked r x) = ox_nodes x" "ox_nodeIP (removeServiceLocked r x) = ox_nodeIP x"
  "ox_trustDomain (removeNodeLocked nm x) = ox_trustDomain x" "ox_labelKeys (removeNodeLocked nm x) = ox_labelKeys x"
  "ox_pods (removeNodeLocked nm x) = ox_pods x" "ox_claims (removeNodeLocked nm x) = ox_claims x"
  "ox_slices (removeNodeLocked nm x) = ox_slices x" "ox_podServices (removeNodeLocked nm x) = ox_podServices x"
  "ox_ipServices (removeNodeLocked nm x) = ox_ipServices x" "ox_cilium (removeNodeLocked nm x) = ox_cilium x"
  "ox_services (removeNodeLocked nm x) = ox_services x" "ox_byClusterIP (removeNodeLocked nm x) = ox_byClusterIP x"
  by (simp_all add: removeServiceLocked_def removeNodeLocked_def split: option.split)

lemma upsert_frames [simp]:
  "ox_trustDomain (UpsertService s x) = ox_trustDomain x" "ox_labelKeys (UpsertService s x) = ox_labelKeys x"
  "ox_pods (UpsertService s x) = ox_pods x" "ox_claims (UpsertService s x) = ox_claims x"
  "ox_slices (UpsertService s x) = ox_slices x" "ox_podServices (UpsertService s x) = ox_podServices x"
  "ox_ipServices (UpsertService s x) = ox_ipServices x" "ox_cilium (UpsertService s x) = ox_cilium x"
  "ox_nodes (UpsertService s x) = ox_nodes x" "ox_nodeIP (UpsertService s x) = ox_nodeIP x"
  "ox_trustDomain (UpsertNode n x) = ox_trustDomain x" "ox_labelKeys (UpsertNode n x) = ox_labelKeys x"
  "ox_pods (UpsertNode n x) = ox_pods x" "ox_claims (UpsertNode n x) = ox_claims x"
  "ox_slices (UpsertNode n x) = ox_slices x" "ox_podServices (UpsertNode n x) = ox_podServices x"
  "ox_ipServices (UpsertNode n x) = ox_ipServices x" "ox_cilium (UpsertNode n x) = ox_cilium x"
  "ox_services (UpsertNode n x) = ox_services x" "ox_byClusterIP (UpsertNode n x) = ox_byClusterIP x"
  by (simp_all add: UpsertService_def UpsertNode_def Let_def)

subsection \<open>The objects of the cluster\<close>

text \<open>What the events say: the last state of every object, in the form the index keeps it.\<close>

record cluster =
  cl_pods :: "string \<rightharpoonup> PodRecord"
  cl_slices :: "string \<times> string \<rightharpoonup> SliceRecord"
  cl_services :: "ServiceRef \<rightharpoonup> op_service"
  cl_cilium :: "string \<times> string \<rightharpoonup> CiliumEndpointRecord"
  cl_nodes :: "string \<rightharpoonup> NodeRecord"

definition empty_cluster :: cluster where
  "empty_cluster = \<lparr>cl_pods = Map.empty, cl_slices = Map.empty, cl_services = Map.empty, cl_cilium = Map.empty, cl_nodes = Map.empty\<rparr>"

definition observe :: "string list \<Rightarrow> op_event \<Rightarrow> cluster \<Rightarrow> cluster" where
  "observe keys e c =
     (case e of
        PodSeen p \<Rightarrow> c\<lparr>cl_pods := (cl_pods c)(pr_UID p := pod_kept keys p)\<rparr>
      | PodGone uid \<Rightarrow> c\<lparr>cl_pods := (cl_pods c)(uid := None)\<rparr>
      | SliceSeen s \<Rightarrow> c\<lparr>cl_slices := (cl_slices c)((sr_Namespace s, sr_Name s) := slice_kept s)\<rparr>
      | SliceGone ns nm \<Rightarrow> c\<lparr>cl_slices := (cl_slices c)((ns, nm) := None)\<rparr>
      | ServiceSeen s \<Rightarrow> c\<lparr>cl_services := (cl_services c)((os_Namespace s, os_Name s) \<mapsto> service_kept s)\<rparr>
      | ServiceGone ns nm \<Rightarrow> c\<lparr>cl_services := (cl_services c)((ns, nm) := None)\<rparr>
      | CiliumSeen d \<Rightarrow> c\<lparr>cl_cilium := (cl_cilium c)((ce_Namespace d, ce_Name d) \<mapsto> d\<lparr>ce_Labels := sort (ce_Labels d)\<rparr>)\<rparr>
      | CiliumGone ns nm \<Rightarrow> c\<lparr>cl_cilium := (cl_cilium c)((ns, nm) := None)\<rparr>
      | NodeSeen n \<Rightarrow> c\<lparr>cl_nodes := (cl_nodes c)(nr_Name n \<mapsto> node_kept n)\<rparr>
      | NodeGone nm \<Rightarrow> c\<lparr>cl_nodes := (cl_nodes c)(nm := None)\<rparr>)"

definition cluster_of :: "op_index \<Rightarrow> cluster" where
  "cluster_of x = \<lparr>cl_pods = ox_pods x, cl_slices = ox_slices x, cl_services = map_of (ox_services x), cl_cilium = ox_cilium x,
     cl_nodes = ox_nodes x\<rparr>"

lemma index_apply_ok:
  assumes "op_index_wf x"
  shows "\<exists>y. index_apply e x = Some y \<and> op_index_wf y \<and> cluster_of y = observe (ox_labelKeys x) e (cluster_of x) \<and>
    ox_labelKeys y = ox_labelKeys x \<and> ox_trustDomain y = ox_trustDomain x"
proof -
  have ok: "claims_ok x" "slices_ok x" "services_ok x" "nodes_ok x" using assms by (simp_all add: op_index_wf_def)
  note keep = invariant_frames(1) [OF ok(1)] invariant_frames(2) [OF ok(2)] invariant_frames(3) [OF ok(3)] invariant_frames(4) [OF ok(4)]
  show ?thesis
  proof (cases e)
    case (PodSeen p)
    then show ?thesis using UpsertPod_ok [OF ok(1), of p]
      by (simp add: op_index_wf_def keep index_apply_def observe_def cluster_of_def)
  next
    case (PodGone uid)
    then show ?thesis using removePod_claims(1,2) [OF ok(1), of uid] invariant_frames(1) [of "removePodLocked uid x"]
      by (simp add: op_index_wf_def keep index_apply_def observe_def cluster_of_def DeletePod_def)
  next
    case (SliceSeen s)
    obtain ps qs g c where u: "UpsertSlice s x = Some (x\<lparr>ox_podServices := ps, ox_ipServices := qs,
        ox_slices := (ox_slices x)((sr_Namespace s, sr_Name s) := slice_kept s), ox_generation := g, ox_changed := c\<rparr>)"
      "slices_ok (x\<lparr>ox_podServices := ps, ox_ipServices := qs, ox_slices := (ox_slices x)((sr_Namespace s, sr_Name s) := slice_kept s)\<rparr>)"
      using UpsertSlice_ok [OF ok(2)] by blast
    show ?thesis using invariant_frames(2) [OF u(2)] by (simp add: SliceSeen u(1) op_index_wf_def keep index_apply_def observe_def cluster_of_def)
  next
    case (SliceGone ns nm)
    obtain ps qs g c where u: "DeleteSlice ns nm x = Some (x\<lparr>ox_podServices := ps, ox_ipServices := qs,
        ox_slices := (ox_slices x)((ns, nm) := None), ox_generation := g, ox_changed := c\<rparr>)"
      "slices_ok (x\<lparr>ox_podServices := ps, ox_ipServices := qs, ox_slices := (ox_slices x)((ns, nm) := None)\<rparr>)"
      using DeleteSlice_ok [OF ok(2)] by blast
    show ?thesis using invariant_frames(2) [OF u(2)] by (simp add: SliceGone u(1) op_index_wf_def keep index_apply_def observe_def cluster_of_def)
  next
    case (ServiceSeen s)
    then show ?thesis using UpsertService_ok [OF ok(3), of s]
      by (simp add: op_index_wf_def keep index_apply_def observe_def cluster_of_def)
  next
    case (ServiceGone ns nm)
    then show ?thesis using removeService_ok [OF ok(3), of "(ns, nm)"] invariant_frames(3) [of "removeServiceLocked (ns, nm) x"]
      by (simp add: op_index_wf_def keep index_apply_def observe_def cluster_of_def DeleteService_def)
  next
    case (CiliumSeen c)
    then show ?thesis by (simp add: op_index_wf_def keep index_apply_def observe_def cluster_of_def UpsertCiliumEndpoint_def)
  next
    case (CiliumGone ns nm)
    then show ?thesis by (simp add: op_index_wf_def keep index_apply_def observe_def cluster_of_def DeleteCiliumEndpoint_def)
  next
    case (NodeSeen n)
    then show ?thesis using UpsertNode_ok [OF ok(4), of n]
      by (simp add: op_index_wf_def keep index_apply_def observe_def cluster_of_def)
  next
    case (NodeGone nm)
    then show ?thesis using removeNode_ok [OF ok(4), of nm] invariant_frames(4) [of "removeNodeLocked nm x"]
      by (simp add: op_index_wf_def keep index_apply_def observe_def cluster_of_def DeleteNode_def)
  qed
qed

lemma index_run_ok:
  "op_index_wf x \<Longrightarrow> \<exists>y. index_run es x = Some y \<and> op_index_wf y \<and> cluster_of y = fold (observe (ox_labelKeys x)) es (cluster_of x) \<and>
     ox_labelKeys y = ox_labelKeys x \<and> ox_trustDomain y = ox_trustDomain x"
proof (induction es arbitrary: x)
  case (Cons e es)
  obtain y where "index_apply e x = Some y" "op_index_wf y" "cluster_of y = observe (ox_labelKeys x) e (cluster_of x)"
    "ox_labelKeys y = ox_labelKeys x" "ox_trustDomain y = ox_trustDomain x"
    using index_apply_ok [OF Cons.prems] by blast
  with Cons.IH [of y] show ?case by simp
qed simp

subsection \<open>The owner of an address\<close>

definition pod_rank :: "PodRecord \<Rightarrow> int \<times> string" where
  "pod_rank p = (pr_Created p, pr_UID p)"

lemma better_rank: "better p q \<longleftrightarrow> pod_rank q < pod_rank p"
  by (auto simp: better_def pod_rank_def less_prod_def)

definition claims_address :: "cluster \<Rightarrow> addr \<Rightarrow> PodRecord \<Rightarrow> bool" where
  "claims_address c ip p \<longleftrightarrow> cl_pods c (pr_UID p) = Some p \<and> ip \<in> set (pr_IPs p)"

text \<open>The pod an address belongs to: of the live pods that have it, the one created last.\<close>

definition newest_claimant :: "cluster \<Rightarrow> addr \<Rightarrow> PodRecord \<Rightarrow> bool" where
  "newest_claimant c ip p \<longleftrightarrow> claims_address c ip p \<and> (\<forall>q. claims_address c ip q \<longrightarrow> pod_rank q \<le> pod_rank p)"

lemma fold_best:
  fixes pods :: "string \<rightharpoonup> PodRecord"
  defines "f \<equiv> \<lambda>uid best. case pods uid of
      None \<Rightarrow> best | Some p \<Rightarrow> (case best of None \<Rightarrow> Some p | Some b \<Rightarrow> if better p b then Some p else Some b)"
  shows "fold f us best = None \<longleftrightarrow> best = None \<and> (\<forall>u \<in> set us. pods u = None)"
    and "fold f us best = Some p \<Longrightarrow> (best = Some p \<or> (\<exists>u \<in> set us. pods u = Some p)) \<and>
      (\<forall>b. best = Some b \<longrightarrow> pod_rank b \<le> pod_rank p) \<and> (\<forall>u \<in> set us. \<forall>q. pods u = Some q \<longrightarrow> pod_rank q \<le> pod_rank p)"
proof -
  show "fold f us best = None \<longleftrightarrow> best = None \<and> (\<forall>u \<in> set us. pods u = None)"
    by (induction us arbitrary: best) (auto simp: f_def split: option.splits if_splits)
  show "fold f us best = Some p \<Longrightarrow> (best = Some p \<or> (\<exists>u \<in> set us. pods u = Some p)) \<and>
      (\<forall>b. best = Some b \<longrightarrow> pod_rank b \<le> pod_rank p) \<and> (\<forall>u \<in> set us. \<forall>q. pods u = Some q \<longrightarrow> pod_rank q \<le> pod_rank p)"
  proof (induction us arbitrary: best)
    case (Cons u us)
    have ih: "(f u best = Some p \<or> (\<exists>u \<in> set us. pods u = Some p)) \<and>
      (\<forall>b. f u best = Some b \<longrightarrow> pod_rank b \<le> pod_rank p) \<and> (\<forall>u \<in> set us. \<forall>q. pods u = Some q \<longrightarrow> pod_rank q \<le> pod_rank p)"
      using Cons.IH [of "f u best"] Cons.prems by simp
    have low: "f u best = Some p \<Longrightarrow> best = Some p \<or> pods u = Some p"
      by (auto simp: f_def split: option.splits if_splits)
    have up: "\<exists>b'. f u best = Some b' \<and> pod_rank b \<le> pod_rank b'" if "best = Some b \<or> pods u = Some b" for b
      using that by (auto simp: f_def better_rank not_less less_imp_le split: option.splits)
    have "pod_rank b \<le> pod_rank p" if "best = Some b \<or> pods u = Some b" for b
      using ih up [OF that] order_trans by blast
    moreover have "best = Some p \<or> (\<exists>v \<in> set (u # us). pods v = Some p)" using ih low by (metis list.set_intros)
    ultimately show ?case using ih by auto
  qed simp
qed

lemma owner_newest:
  assumes "claims_ok x"
  shows "owner x ip = Some p \<longleftrightarrow> newest_claimant (cluster_of x) ip p" (is ?some)
    and "owner x ip = None \<longleftrightarrow> (\<nexists>p. claims_address (cluster_of x) ip p)" (is ?none)
proof -
  note best = fold_best [where pods = "ox_pods x" and us = "claims_at (ox_claims x) ip" and best = None, folded owner_def]
  have own: "ox_pods x u = Some q \<Longrightarrow> pr_UID q = u" for u q using assms by (auto simp: claims_ok_def)
  have mem: "u \<in> set (claims_at (ox_claims x) ip) \<longleftrightarrow> (\<exists>p. ox_pods x u = Some p \<and> ip \<in> set (pr_IPs p))" for u
    using assms unfolding claims_ok_def by blast
  have claim: "claims_address (cluster_of x) ip q \<longleftrightarrow> (\<exists>u \<in> set (claims_at (ox_claims x) ip). ox_pods x u = Some q)" for q
    using own mem by (simp add: claims_address_def cluster_of_def) (metis option.inject)
  have "owner x ip = None \<longleftrightarrow> (\<forall>u \<in> set (claims_at (ox_claims x) ip). ox_pods x u = None)" using best(1) by simp
  then show ?none by (auto simp: claim)
  have uniq: "q = p" if "claims_address (cluster_of x) ip q" "claims_address (cluster_of x) ip p" "pod_rank q = pod_rank p" for q
    using that unfolding claims_address_def pod_rank_def by (metis Pair_inject option.inject)
  have newest: "newest_claimant (cluster_of x) ip q" if "owner x ip = Some q" for q
    using best(2) [OF that] unfolding newest_claimant_def claim by blast
  show ?some
  proof
    assume "owner x ip = Some p"
    then show "newest_claimant (cluster_of x) ip p" by (rule newest)
  next
    assume n: "newest_claimant (cluster_of x) ip p"
    then obtain q where q: "owner x ip = Some q" using \<open>?none\<close> unfolding newest_claimant_def by blast
    with n newest uniq [of q] have "q = p" unfolding newest_claimant_def by (meson antisym)
    with q show "owner x ip = Some p" by simp
  qed
qed

subsection \<open>The identity of a pod\<close>

definition memberships :: "cluster \<Rightarrow> string \<Rightarrow> addr \<Rightarrow> ServiceRef set" where
  "memberships c uid ip = {slice_service s |s. \<exists>key. cl_slices c key = Some s \<and> (uid \<in> set (sr_PodUIDs s) \<or> ip \<in> set (sr_IPs s))}"

definition pod_identity :: "string \<Rightarrow> cluster \<Rightarrow> PodRecord \<Rightarrow> addr \<Rightarrow> Workload" where
  "pod_identity td c p ip =
     (let sa = (if pr_ServiceAccount p = [] then ''default'' else pr_ServiceAccount p); ce = cl_cilium c (pr_Namespace p, pr_Name p) in
      \<lparr>wk_Kind = PodKind, wk_IP = ip, wk_Node = pr_Node p, wk_PodUID = pr_UID p, wk_Namespace = pr_Namespace p, wk_Pod = pr_Name p,
       wk_ServiceAccount = sa, wk_SPIFFEID = ''spiffe://'' @ td @ ''/ns/'' @ pr_Namespace p @ ''/sa/'' @ sa, wk_Labels = pr_Labels p,
       wk_Services = sorted_list_of_set (memberships c (pr_UID p) ip),
       wk_SecurityIdentity = (case ce of None \<Rightarrow> 0 | Some e \<Rightarrow> ce_Identity e),
       wk_CiliumLabels = (case ce of None \<Rightarrow> [] | Some e \<Rightarrow> ce_Labels e)\<rparr>)"

lemma counted_members:
  assumes "finite (dom sl)" "counts_slices sl f m"
  shows "r \<in> fst ` set (case m k of None \<Rightarrow> [] | Some rs \<Rightarrow> rs) \<longleftrightarrow> (\<exists>key s. sl key = Some s \<and> slice_service s = r \<and> k \<in> set (f s))"
proof -
  have "r \<in> fst ` set (case m k of None \<Rightarrow> [] | Some rs \<Rightarrow> rs) \<longleftrightarrow> slice_keys sl f k r \<noteq> {}"
  proof -
    have "refs_ok m" "ref_count m k r = int (card (slice_keys sl f k r))" using assms(2) unfolding counts_slices_def by blast+
    moreover have "0 < int (card (slice_keys sl f k r)) \<longleftrightarrow> slice_keys sl f k r \<noteq> {}"
      using slice_keys_finite [OF assms(1), of f k r] by (simp add: card_gt_0_iff)
    ultimately show ?thesis using refs_members by metis
  qed
  then show ?thesis by (auto simp: slice_keys_def)
qed

lemma podWorkload_identity:
  assumes "slices_ok x"
  shows "podWorkloadLocked x p ip = pod_identity (ox_trustDomain x) (cluster_of x) p ip"
proof -
  let ?at = "\<lambda>r. map fst (case r of None \<Rightarrow> [] | Some rs \<Rightarrow> rs)"
  have fin: "finite (dom (ox_slices x))" using assms by (simp add: slices_ok_def)
  have cnt: "counts_slices (ox_slices x) sr_PodUIDs (ox_podServices x)" "counts_slices (ox_slices x) sr_IPs (ox_ipServices x)"
    using assms unfolding slices_ok_def by blast+
  have "r \<in> set (?at (ox_podServices x (pr_UID p)) @ ?at (ox_ipServices x ip)) \<longleftrightarrow> r \<in> memberships (cluster_of x) (pr_UID p) ip" for r
    unfolding set_append set_map Un_iff counted_members [OF fin cnt(1)] counted_members [OF fin cnt(2)]
    by (auto simp: memberships_def cluster_of_def)
  then have "set (?at (ox_podServices x (pr_UID p)) @ ?at (ox_ipServices x ip)) = memberships (cluster_of x) (pr_UID p) ip" by blast
  then have "sort (remdups (?at (ox_podServices x (pr_UID p)) @ ?at (ox_ipServices x ip))) = sorted_list_of_set (memberships (cluster_of x) (pr_UID p) ip)"
    by (metis sorted_list_of_set_sort_remdups)
  then show ?thesis by (simp add: podWorkloadLocked_def pod_identity_def Let_def cluster_of_def)
qed


text \<open>a late delete of an old pod never removes the pod that reuses its address: deleting any other pod leaves the
  answer for the address as it was.\<close>

theorem late_delete_harmless:
  assumes "index_run evs (op_NewIndex opts) = Some x" "op_Lookup x ip = Some w" "wk_Kind w = PodKind" "wk_PodUID w \<noteq> uid"
  shows "op_Lookup (DeletePod uid x) ip = Some w"
proof -
  have wf: "op_index_wf x" using index_run_ok [OF op_index_wf_new] assms(1) by (metis option.inject)
  then have ok: "claims_ok x" "slices_ok x" by (simp_all add: op_index_wf_def)
  let ?y = "DeletePod uid x" and ?ip = "addr_unmap ip"
  obtain p where p: "owner x ?ip = Some p" "w = podWorkloadLocked x p ?ip"
    using assms(2,3) by (auto simp: op_Lookup_def Let_def nodeWorkload_def split: option.splits)
  have "pr_UID p \<noteq> uid" using assms(4) p(2) by (simp add: podWorkloadLocked_def Let_def)
  have y: "claims_ok ?y" "ox_pods ?y = (ox_pods x)(uid := None)"
    using removePod_claims [OF ok(1), of uid] by (simp_all add: DeletePod_def claims_ok_def)
  have "claims_address (cluster_of ?y) ?ip q \<longleftrightarrow> claims_address (cluster_of x) ?ip q \<and> pr_UID q \<noteq> uid" for q
    using y(2) by (auto simp: claims_address_def cluster_of_def)
  with owner_newest(1) [OF ok(1)] p(1) \<open>pr_UID p \<noteq> uid\<close> have "newest_claimant (cluster_of ?y) ?ip p"
    by (auto simp: newest_claimant_def)
  then have "owner ?y ?ip = Some p" using owner_newest(1) [OF y(1)] by simp
  then show ?thesis by (simp add: op_Lookup_def Let_def p(2) podWorkloadLocked_def DeletePod_def)
qed

text \<open>Two pods with one address: the delete of the old pod arrives after the new pod has been seen.\<close>

definition ex_pod :: "string \<Rightarrow> int \<Rightarrow> PodRecord" where
  "ex_pod uid created =
     \<lparr>pr_UID = uid, pr_Namespace = ''shop'', pr_Name = ''cart-'' @ uid, pr_ServiceAccount = [], pr_Node = ''n1'', pr_Labels = Map.empty,
      pr_IPs = [AddrV4 167772161], pr_HostNetwork = False, pr_Finished = False, pr_Created = created\<rparr>"

definition ex_index_options :: index_options where
  "ex_index_options = \<lparr>io_TrustDomain = [], io_LabelKeys = []\<rparr>"

definition ex_op_index :: op_index where
  "ex_op_index = UpsertPod (ex_pod ''b'' 2) (UpsertPod (ex_pod ''a'' 1) (op_NewIndex ex_index_options))"

lemma ex_op_index_owner: "owner ex_op_index (AddrV4 167772161) = Some (ex_pod ''b'' 2)"
  by (simp add: owner_def ex_op_index_def ex_pod_def UpsertPod_def removePodLocked_def op_NewIndex_def ex_index_options_def bump_def Let_def
      uniqueAddrs_def claims_at_def filterLabels_def better_def addr_is_valid_def)

lemma late_delete_harmless_witness:
  "op_Lookup (DeletePod ''a'' ex_op_index) (AddrV4 167772161) = Some (podWorkloadLocked ex_op_index (ex_pod ''b'' 2) (AddrV4 167772161))"
proof (rule late_delete_harmless [where evs = "[PodSeen (ex_pod ''a'' 1), PodSeen (ex_pod ''b'' 2)]" and opts = ex_index_options])
  show "op_Lookup ex_op_index (AddrV4 167772161) = Some (podWorkloadLocked ex_op_index (ex_pod ''b'' 2) (AddrV4 167772161))"
    by (simp add: op_Lookup_def Let_def ex_op_index_owner)
qed (simp_all add: index_apply_def ex_op_index_def podWorkloadLocked_def Let_def ex_pod_def)


text \<open>
  Nodes have no such protection. An address moves from an old node to a new one; an update of the old node arrives and takes
  the address back, and the delete of the old node then removes the entry although the new node still has the address.
\<close>

definition ex_node :: "string \<Rightarrow> NodeRecord" where
  "ex_node nm = \<lparr>nr_Name = nm, nr_IPs = [AddrV4 167772162]\<rparr>"

lemma node_address_lost:
  "\<exists>x. index_run [NodeSeen (ex_node ''old''), NodeSeen (ex_node ''new''), NodeSeen (ex_node ''old''), NodeGone ''old''] (op_NewIndex ex_index_options) = Some x \<and>
     ox_nodes x ''new'' = Some (ex_node ''new'') \<and> op_Lookup x (AddrV4 167772162) = None"
  by (simp add: index_apply_def UpsertNode_def DeleteNode_def removeNodeLocked_def op_NewIndex_def bump_def Let_def ex_node_def uniqueAddrs_def
      addr_is_valid_def op_Lookup_def owner_def claims_at_def)

subsection \<open>All workloads\<close>

lemma mem_map_filter: "y \<in> set (List.map_filter f xs) \<longleftrightarrow> (\<exists>x \<in> set xs. f x = Some y)"
  by (induction xs) (auto simp: List.map_filter_simps split: option.splits)

lemma workload_ip [simp]: "wk_IP (podWorkloadLocked x p ip) = ip" "wk_IP (nodeWorkload ip nm) = ip"
  by (simp_all add: podWorkloadLocked_def nodeWorkload_def Let_def)

lemma Workloads_set:
  assumes "op_index_wf x"
  shows "w \<in> set (Workloads x) \<longleftrightarrow> stored_addr (wk_IP w) \<and> op_Lookup x (wk_IP w) = Some w"
proof -
  have ok: "claims_ok x" "nodes_ok x" using assms by (simp_all add: op_index_wf_def)
  have claimed: "map_of (ox_claims x) ip \<noteq> None \<longleftrightarrow> (\<exists>p. owner x ip = Some p)" for ip
  proof -
    have "claims_wf (ox_claims x)" using ok(1) unfolding claims_ok_def by blast
    then have "map_of (ox_claims x) ip \<noteq> None \<longleftrightarrow> claims_at (ox_claims x) ip \<noteq> []"
      by (auto simp: claims_at_def claims_wf_def split: option.split)
    also have "\<dots> \<longleftrightarrow> (\<exists>u. u \<in> set (claims_at (ox_claims x) ip))" by (simp add: neq_Nil_conv ex_in_conv)
    also have "\<dots> \<longleftrightarrow> (\<exists>u p. ox_pods x u = Some p \<and> ip \<in> set (pr_IPs p))"
      using ok(1) unfolding claims_ok_def by blast
    also have "\<dots> \<longleftrightarrow> (\<exists>p. claims_address (cluster_of x) ip p)"
      using ok(1) unfolding claims_ok_def claims_address_def cluster_of_def by (simp, metis)
    also have "\<dots> \<longleftrightarrow> (\<exists>p. owner x ip = Some p)" using owner_newest(2) [OF ok(1)] by (metis not_None_eq)
    finally show ?thesis .
  qed
  have stored: "owner x ip = Some p \<Longrightarrow> stored_addr ip" "map_of (ox_nodeIP x) ip = Some nm \<Longrightarrow> stored_addr ip" for ip p nm
    using ok owner_newest(1) [OF ok(1)] by (fastforce simp: newest_claimant_def claims_address_def cluster_of_def claims_ok_def nodes_ok_def)+
  have pods: "w \<in> set (List.map_filter (\<lambda>(ip, _). map_option (\<lambda>p. podWorkloadLocked x p ip) (owner x ip)) (ox_claims x)) \<longleftrightarrow>
      (\<exists>p. owner x (wk_IP w) = Some p \<and> w = podWorkloadLocked x p (wk_IP w))"
  proof
    assume "w \<in> set (List.map_filter (\<lambda>(ip, _). map_option (\<lambda>p. podWorkloadLocked x p ip) (owner x ip)) (ox_claims x))"
    then show "\<exists>p. owner x (wk_IP w) = Some p \<and> w = podWorkloadLocked x p (wk_IP w)" by (auto simp: mem_map_filter)
  next
    assume "\<exists>p. owner x (wk_IP w) = Some p \<and> w = podWorkloadLocked x p (wk_IP w)"
    moreover from this claimed obtain us where "(wk_IP w, us) \<in> set (ox_claims x)" by (metis map_of_SomeD not_None_eq)
    ultimately show "w \<in> set (List.map_filter (\<lambda>(ip, _). map_option (\<lambda>p. podWorkloadLocked x p ip) (owner x ip)) (ox_claims x))"
      by (force simp: mem_map_filter)
  qed
  have free: "map_of (ox_claims x) ip = None \<longleftrightarrow> owner x ip = None" for ip
    using claimed [of ip] by (metis not_None_eq)
  have nodes: "w \<in> set (List.map_filter (\<lambda>(ip, node). if map_of (ox_claims x) ip = None then Some (nodeWorkload ip node) else None) (ox_nodeIP x)) \<longleftrightarrow>
      owner x (wk_IP w) = None \<and> (\<exists>nm. map_of (ox_nodeIP x) (wk_IP w) = Some nm \<and> w = nodeWorkload (wk_IP w) nm)"
    using ok(2) by (force simp: mem_map_filter free nodes_ok_def split: if_splits dest: map_of_SomeD)
  show ?thesis
    using stored [of "wk_IP w"] by (auto simp: Workloads_def pods nodes op_Lookup_def Let_def stored_addr_def split: option.splits)
qed

lemma Workloads_distinct:
  assumes "op_index_wf x"
  shows "distinct (map wk_IP (Workloads x))"
proof -
  have d: "distinct (map fst (ox_claims x))" "distinct (map fst (ox_nodeIP x))" using assms
    by (simp_all add: op_index_wf_def claims_ok_def claims_wf_def nodes_ok_def)
  have part: "distinct (map wk_IP (List.map_filter f xs)) \<and> wk_IP ` set (List.map_filter f xs) \<subseteq> fst ` set xs"
    if "distinct (map fst xs)" "\<And>a w. a \<in> set xs \<Longrightarrow> f a = Some w \<Longrightarrow> wk_IP w = fst a" for f and xs :: "(addr \<times> 'b) list"
    using that
  proof (induction xs)
    case (Cons a xs)
    then have ih: "distinct (map wk_IP (List.map_filter f xs))" "wk_IP ` set (List.map_filter f xs) \<subseteq> fst ` set xs" by simp_all
    show ?case
    proof (cases "f a")
      case None
      with ih show ?thesis by (auto simp: List.map_filter_simps)
    next
      case (Some w)
      then have w: "wk_IP w = fst a" using Cons.prems(2) by simp
      moreover have "fst a \<notin> fst ` set xs" using Cons.prems(1) by simp
      ultimately have "wk_IP w \<notin> wk_IP ` set (List.map_filter f xs)" using ih(2) by (metis subsetD)
      with Some w ih show ?thesis by (auto simp: List.map_filter_simps)
    qed
  qed (simp add: List.map_filter_simps)
  define ps where "ps = List.map_filter (\<lambda>(ip, _). map_option (\<lambda>p. podWorkloadLocked x p ip) (owner x ip)) (ox_claims x)"
  define ns where "ns = List.map_filter (\<lambda>(ip, node). if map_of (ox_claims x) ip = None then Some (nodeWorkload ip node) else None) (ox_nodeIP x)"
  have p: "distinct (map wk_IP ps) \<and> wk_IP ` set ps \<subseteq> fst ` set (ox_claims x)"
    unfolding ps_def by (rule part [OF d(1)]) auto
  have n: "distinct (map wk_IP ns) \<and> wk_IP ` set ns \<subseteq> fst ` set (ox_nodeIP x)"
    unfolding ns_def by (rule part [OF d(2)]) (auto split: if_splits)
  have "wk_IP w \<notin> fst ` set (ox_claims x)" if "w \<in> set ns" for w
    using that unfolding ns_def by (force simp: mem_map_filter map_of_eq_None_iff split: if_splits)
  with p have "\<forall>i \<in> wk_IP ` set ps. i \<notin> wk_IP ` set ns" by (metis imageE subsetD)
  then have "wk_IP ` set ps \<inter> wk_IP ` set ns = {}" by (simp only: disjoint_iff simp_thms Ball_def)
  with p n have "distinct (map wk_IP (ps @ ns))" by simp
  then have "distinct (map wk_IP (sort_key wk_IP (ps @ ns)))" unfolding distinct_map by (simp del: set_append distinct_append)
  then show ?thesis by (simp add: Workloads_def ps_def ns_def)
qed

end
