(* ===== verification/Operator_Cache.thy ===== *)
theory Operator_Cache
  imports Operator_Index
begin

text \<open>
  The informer handlers that keep the operator's index current
  (\<^verbatim>\<open>hyper-operator/internal/identity/cache.go\<close>). A Kubernetes object is the record of the fields the
  transforms and the handlers read; the other fields, which the transforms drop, are one component of
  type \<open>'r\<close>. The value at \<^verbatim>\<open>status.identity\<close> of a CiliumEndpoint is opaque (type \<open>'j\<close>); the two accessors
  of the unstructured library that read its \<^verbatim>\<open>id\<close> and \<^verbatim>\<open>labels\<close>, with zero results on an error, are parameters.
  The metrics the handlers also update have no effect on the index.
\<close>

section \<open>Kubernetes objects\<close>

record object_meta =
  om_Name :: string
  om_Namespace :: string
  om_UID :: string
  om_ResourceVersion :: string
  om_Labels :: "string \<rightharpoonup> string"
  om_Created :: int
  om_Deleted :: "int option"

text \<open>An absent map key reads as the empty string.\<close>

definition label_at :: "(string \<rightharpoonup> string) \<Rightarrow> string \<Rightarrow> string" where
  "label_at m k = (case m k of None \<Rightarrow> [] | Some v \<Rightarrow> v)"

definition bare_meta :: object_meta where
  "bare_meta = \<lparr>om_Name = [], om_Namespace = [], om_UID = [], om_ResourceVersion = [], om_Labels = Map.empty, om_Created = 0,
     om_Deleted = None\<rparr>"

record 'r kube_pod =
  kp_Meta :: object_meta
  kp_ServiceAccountName :: string
  kp_NodeName :: string
  kp_HostNetwork :: bool
  kp_Phase :: string
  kp_PodIP :: string
  kp_PodIPs :: "string list"
  kp_Rest :: "'r option"

record service_port =
  sp_Port :: "32 word"
  sp_Protocol :: string
  sp_Name :: string

record 'r kube_service =
  ks_Meta :: object_meta
  ks_ClusterIP :: string
  ks_ClusterIPs :: "string list"
  ks_Ports :: "service_port list"
  ks_Rest :: "'r option"

record target_ref =
  tr_Kind :: string
  tr_UID :: string
  tr_Name :: string

record endpoint =
  ep_Addresses :: "string list"
  ep_TargetRef :: "target_ref option"

record 'r kube_slice =
  kl_Meta :: object_meta
  kl_AddressType :: string
  kl_Endpoints :: "endpoint list"
  kl_Rest :: "'r option"

record 'r kube_node =
  kn_Meta :: object_meta
  kn_Addresses :: "(string \<times> string) list" \<comment> \<open>type and address\<close>
  kn_Rest :: "'r option"

record ('r, 'j) kube_unstructured =
  ku_Meta :: object_meta
  ku_APIVersion :: string
  ku_Kind :: string
  ku_Identity :: "'j option" \<comment> \<open>the value at status.identity\<close>
  ku_Rest :: "'r option"

text \<open>What an informer hands to a handler (an \<^verbatim>\<open>any\<close>).\<close>

datatype ('r, 'j) kube_object =
    OPod "'r kube_pod"
  | OService "'r kube_service"
  | OSlice "'r kube_slice"
  | ONode "'r kube_node"
  | OUnstructured "('r, 'j) kube_unstructured"
  | OTombstone "('r, 'j) kube_object"
  | OOther

abbreviation LabelServiceName :: string where
  "LabelServiceName \<equiv> ''kubernetes.io/service-name''"

definition appendAddr :: "addr list \<Rightarrow> string \<Rightarrow> addr list" where
  "appendAddr addrs s = (case parse_addr s of Some a \<Rightarrow> addrs @ [addr_unmap a] | None \<Rightarrow> addrs)"

section \<open>Pods\<close>

definition trimPod :: "op_index \<Rightarrow> ('r, 'j) kube_object \<Rightarrow> ('r, 'j) kube_object" where
  "trimPod x obj =
     (case obj of
        OPod p \<Rightarrow>
          (let m = kp_Meta p;
               labels = (\<lambda>k. if LabelAllowed x k then om_Labels m k else None)
           in OPod \<lparr>kp_Meta = \<lparr>om_Name = om_Name m, om_Namespace = om_Namespace m, om_UID = om_UID m, om_ResourceVersion = om_ResourceVersion m,
                      om_Labels = labels, om_Created = om_Created m, om_Deleted = om_Deleted m\<rparr>,
                    kp_ServiceAccountName = kp_ServiceAccountName p, kp_NodeName = kp_NodeName p, kp_HostNetwork = kp_HostNetwork p,
                    kp_Phase = kp_Phase p, kp_PodIP = kp_PodIP p, kp_PodIPs = kp_PodIPs p, kp_Rest = None\<rparr>)
      | _ \<Rightarrow> obj)"

definition onPod :: "('r, 'j) kube_object \<Rightarrow> op_index \<Rightarrow> op_index" where
  "onPod obj x =
     (case obj of
        OPod p \<Rightarrow>
          (let addrs = fold (\<lambda>ip as. appendAddr as ip) (kp_PodIPs p) [];
               addrs' = (if addrs = [] then appendAddr addrs (kp_PodIP p) else addrs);
               m = kp_Meta p
           in UpsertPod \<lparr>pr_UID = om_UID m, pr_Namespace = om_Namespace m, pr_Name = om_Name m,
                pr_ServiceAccount = kp_ServiceAccountName p, pr_Node = kp_NodeName p, pr_Labels = om_Labels m, pr_IPs = addrs',
                pr_HostNetwork = kp_HostNetwork p, pr_Finished = (kp_Phase p = ''Succeeded'' \<or> kp_Phase p = ''Failed''),
                pr_Created = om_Created m\<rparr> x)
      | _ \<Rightarrow> x)"

definition onPodDelete :: "('r, 'j) kube_object \<Rightarrow> op_index \<Rightarrow> op_index" where
  "onPodDelete obj x = (case obj of OPod p \<Rightarrow> DeletePod (om_UID (kp_Meta p)) x | _ \<Rightarrow> x)"

section \<open>Services\<close>

definition trimService :: "('r, 'j) kube_object \<Rightarrow> ('r, 'j) kube_object" where
  "trimService obj =
     (case obj of
        OService s \<Rightarrow>
          (let m = ks_Meta s in
           OService \<lparr>ks_Meta = bare_meta\<lparr>om_Name := om_Name m, om_Namespace := om_Namespace m, om_UID := om_UID m,
                       om_ResourceVersion := om_ResourceVersion m\<rparr>,
                     ks_ClusterIP = ks_ClusterIP s, ks_ClusterIPs = ks_ClusterIPs s,
                     ks_Ports = map (\<lambda>p. \<lparr>sp_Port = sp_Port p, sp_Protocol = sp_Protocol p, sp_Name = []\<rparr>) (ks_Ports s), ks_Rest = None\<rparr>)
      | _ \<Rightarrow> obj)"

definition onService :: "('r, 'j) kube_object \<Rightarrow> op_index \<Rightarrow> op_index" where
  "onService obj x =
     (case obj of
        OService s \<Rightarrow>
          (let addrs = fold (\<lambda>ip as. appendAddr as ip) (ks_ClusterIPs s) [];
               addrs' = (if addrs = [] then appendAddr addrs (ks_ClusterIP s) else addrs)
           in UpsertService \<lparr>os_Namespace = om_Namespace (ks_Meta s), os_Name = om_Name (ks_Meta s), os_ClusterIPs = addrs',
                os_Ports = map sp_Port (ks_Ports s)\<rparr> x)
      | _ \<Rightarrow> x)"

definition onServiceDelete :: "('r, 'j) kube_object \<Rightarrow> op_index \<Rightarrow> op_index" where
  "onServiceDelete obj x =
     (case obj of OService s \<Rightarrow> DeleteService (om_Namespace (ks_Meta s)) (om_Name (ks_Meta s)) x | _ \<Rightarrow> x)"

section \<open>Endpoint slices\<close>

definition trim_endpoint :: "endpoint \<Rightarrow> endpoint" where
  "trim_endpoint e =
     \<lparr>ep_Addresses = ep_Addresses e,
      ep_TargetRef = (case ep_TargetRef e of
                        None \<Rightarrow> None
                      | Some t \<Rightarrow> if tr_Kind t = ''Pod'' then Some \<lparr>tr_Kind = ''Pod'', tr_UID = tr_UID t, tr_Name = []\<rparr> else None)\<rparr>"

definition trimSlice :: "('r, 'j) kube_object \<Rightarrow> ('r, 'j) kube_object" where
  "trimSlice obj =
     (case obj of
        OSlice s \<Rightarrow>
          (let m = kl_Meta s in
           OSlice \<lparr>kl_Meta = bare_meta\<lparr>om_Name := om_Name m, om_Namespace := om_Namespace m, om_ResourceVersion := om_ResourceVersion m,
                     om_Labels := [LabelServiceName \<mapsto> label_at (om_Labels m) LabelServiceName]\<rparr>,
                   kl_AddressType = kl_AddressType s, kl_Endpoints = map trim_endpoint (kl_Endpoints s), kl_Rest = None\<rparr>)
      | _ \<Rightarrow> obj)"

definition add_endpoint :: "endpoint \<Rightarrow> SliceRecord \<Rightarrow> SliceRecord" where
  "add_endpoint e r =
     (case ep_TargetRef e of
        Some t \<Rightarrow>
          if tr_Kind t = ''Pod'' \<and> tr_UID t \<noteq> [] then r\<lparr>sr_PodUIDs := sr_PodUIDs r @ [tr_UID t]\<rparr>
          else r\<lparr>sr_IPs := fold (\<lambda>a as. appendAddr as a) (ep_Addresses e) (sr_IPs r)\<rparr>
      | None \<Rightarrow> r\<lparr>sr_IPs := fold (\<lambda>a as. appendAddr as a) (ep_Addresses e) (sr_IPs r)\<rparr>)"

definition onSlice :: "('r, 'j) kube_object \<Rightarrow> op_index \<Rightarrow> op_index option" where
  "onSlice obj x =
     (case obj of
        OSlice s \<Rightarrow>
          UpsertSlice
            (fold add_endpoint (kl_Endpoints s)
               \<lparr>sr_Namespace = om_Namespace (kl_Meta s), sr_Name = om_Name (kl_Meta s),
                sr_Service = label_at (om_Labels (kl_Meta s)) LabelServiceName, sr_PodUIDs = [], sr_IPs = []\<rparr>) x
      | _ \<Rightarrow> Some x)"

definition onSliceDelete :: "('r, 'j) kube_object \<Rightarrow> op_index \<Rightarrow> op_index option" where
  "onSliceDelete obj x =
     (case obj of OSlice s \<Rightarrow> DeleteSlice (om_Namespace (kl_Meta s)) (om_Name (kl_Meta s)) x | _ \<Rightarrow> Some x)"

section \<open>Nodes\<close>

definition trimNode :: "('r, 'j) kube_object \<Rightarrow> ('r, 'j) kube_object" where
  "trimNode obj =
     (case obj of
        ONode n \<Rightarrow>
          (let m = kn_Meta n in
           ONode \<lparr>kn_Meta = bare_meta\<lparr>om_Name := om_Name m, om_UID := om_UID m, om_ResourceVersion := om_ResourceVersion m\<rparr>,
                  kn_Addresses = kn_Addresses n, kn_Rest = None\<rparr>)
      | _ \<Rightarrow> obj)"

definition onNode :: "('r, 'j) kube_object \<Rightarrow> op_index \<Rightarrow> op_index" where
  "onNode obj x =
     (case obj of
        ONode n \<Rightarrow>
          UpsertNode \<lparr>nr_Name = om_Name (kn_Meta n),
            nr_IPs = fold (\<lambda>(t, a) as. if t = ''InternalIP'' \<or> t = ''ExternalIP'' then appendAddr as a else as) (kn_Addresses n) []\<rparr> x
      | _ \<Rightarrow> x)"

definition onNodeDelete :: "('r, 'j) kube_object \<Rightarrow> op_index \<Rightarrow> op_index" where
  "onNodeDelete obj x = (case obj of ONode n \<Rightarrow> DeleteNode (om_Name (kn_Meta n)) x | _ \<Rightarrow> x)"

section \<open>Cilium endpoints\<close>

definition trimCiliumEndpoint :: "('r, 'j) kube_object \<Rightarrow> ('r, 'j) kube_object" where
  "trimCiliumEndpoint obj =
     (case obj of
        OUnstructured u \<Rightarrow>
          (let m = ku_Meta u in
           OUnstructured \<lparr>ku_Meta = bare_meta\<lparr>om_Name := om_Name m, om_Namespace := om_Namespace m, om_UID := om_UID m,
                            om_ResourceVersion := om_ResourceVersion m\<rparr>,
                          ku_APIVersion = ku_APIVersion u, ku_Kind = ku_Kind u, ku_Identity = ku_Identity u, ku_Rest = None\<rparr>)
      | _ \<Rightarrow> obj)"

record 'j nested_ops =
  no_Int64 :: "'j option \<Rightarrow> int" \<comment> \<open>NestedInt64 at status.identity.id, 0 if absent or of another type\<close>
  no_StringSlice :: "'j option \<Rightarrow> string list" \<comment> \<open>NestedStringSlice at status.identity.labels\<close>

definition onCiliumEndpoint :: "'j nested_ops \<Rightarrow> ('r, 'j) kube_object \<Rightarrow> op_index \<Rightarrow> op_index" where
  "onCiliumEndpoint ops obj x =
     (case obj of
        OUnstructured u \<Rightarrow>
          (let i = no_Int64 ops (ku_Identity u);
               i' = (if i < 0 \<or> i > 4294967295 then 0 else i)
           in UpsertCiliumEndpoint \<lparr>ce_Namespace = om_Namespace (ku_Meta u), ce_Name = om_Name (ku_Meta u), ce_Identity = word_of_int i',
                ce_Labels = no_StringSlice ops (ku_Identity u)\<rparr> x)
      | _ \<Rightarrow> x)"

definition onCiliumEndpointDelete :: "('r, 'j) kube_object \<Rightarrow> op_index \<Rightarrow> op_index" where
  "onCiliumEndpointDelete obj x =
     (case obj of OUnstructured u \<Rightarrow> DeleteCiliumEndpoint (om_Namespace (ku_Meta u)) (om_Name (ku_Meta u)) x | _ \<Rightarrow> x)"

section \<open>Event handlers\<close>

datatype ('r, 'j) informer_event =
    Added "('r, 'j) kube_object"
  | Updated "('r, 'j) kube_object" "('r, 'j) kube_object"
  | Deleted "('r, 'j) kube_object"

definition last_known :: "('r, 'j) kube_object \<Rightarrow> ('r, 'j) kube_object" where
  "last_known obj = (case obj of OTombstone known \<Rightarrow> known | _ \<Rightarrow> obj)"

definition handler :: "(('r, 'j) kube_object \<Rightarrow> 'x \<Rightarrow> 'y) \<Rightarrow> (('r, 'j) kube_object \<Rightarrow> 'x \<Rightarrow> 'y) \<Rightarrow> ('r, 'j) informer_event \<Rightarrow> 'x \<Rightarrow> 'y" where
  "handler upsert del ev x =
     (case ev of
        Added obj \<Rightarrow> upsert obj x
      | Updated _ obj \<Rightarrow> upsert obj x
      | Deleted obj \<Rightarrow> del (last_known obj) x)"

datatype informer = Pods | ServicesInformer | EndpointSlices | Nodes | CiliumEndpoints

text \<open>The transform and the handler \<^verbatim>\<open>Start\<close> sets up for every informer.\<close>

definition transform_of :: "op_index \<Rightarrow> informer \<Rightarrow> ('r, 'j) kube_object \<Rightarrow> ('r, 'j) kube_object" where
  "transform_of x res =
     (case res of Pods \<Rightarrow> trimPod x | ServicesInformer \<Rightarrow> trimService | EndpointSlices \<Rightarrow> trimSlice | Nodes \<Rightarrow> trimNode
      | CiliumEndpoints \<Rightarrow> trimCiliumEndpoint)"

definition handle :: "'j nested_ops \<Rightarrow> informer \<Rightarrow> ('r, 'j) informer_event \<Rightarrow> op_index \<Rightarrow> op_index option" where
  "handle ops res ev x =
     (case res of
        Pods \<Rightarrow> Some (handler onPod onPodDelete ev x)
      | ServicesInformer \<Rightarrow> Some (handler onService onServiceDelete ev x)
      | EndpointSlices \<Rightarrow> handler onSlice onSliceDelete ev x
      | Nodes \<Rightarrow> Some (handler onNode onNodeDelete ev x)
      | CiliumEndpoints \<Rightarrow> Some (handler (onCiliumEndpoint ops) onCiliumEndpointDelete ev x))"

text \<open>An informer keeps and delivers transformed objects; a tombstone holds the last transformed object.\<close>

fun transform_object :: "(('r, 'j) kube_object \<Rightarrow> ('r, 'j) kube_object) \<Rightarrow> ('r, 'j) kube_object \<Rightarrow> ('r, 'j) kube_object" where
  "transform_object f (OTombstone obj) = OTombstone (f obj)"
| "transform_object f obj = f obj"

definition transform_event :: "(('r, 'j) kube_object \<Rightarrow> ('r, 'j) kube_object) \<Rightarrow> ('r, 'j) informer_event \<Rightarrow> ('r, 'j) informer_event" where
  "transform_event f ev =
     (case ev of Added obj \<Rightarrow> Added (f obj) | Updated old obj \<Rightarrow> Updated (f old) (f obj) | Deleted obj \<Rightarrow> Deleted (transform_object f obj))"

fun cache_run :: "'j nested_ops \<Rightarrow> (informer \<times> ('r, 'j) informer_event) list \<Rightarrow> op_index \<Rightarrow> op_index option" where
  "cache_run ops [] x = Some x"
| "cache_run ops ((res, ev) # evs) x = (case handle ops res ev x of None \<Rightarrow> None | Some y \<Rightarrow> cache_run ops evs y)"

section \<open>The index never depends on what the transforms drop\<close>

lemma add_endpoint_trim [simp]: "add_endpoint (trim_endpoint e) = add_endpoint e"
  by (rule ext) (auto simp: add_endpoint_def trim_endpoint_def split: option.split)

lemma fold_trim_endpoints: "fold add_endpoint (map trim_endpoint es) r = fold add_endpoint es r"
  by (simp add: fold_map comp_def)

lemma label_at_singleton [simp]: "label_at [k \<mapsto> v] k = v"
  by (simp add: label_at_def)

lemma UpsertPod_labels:
  "UpsertPod (p\<lparr>pr_Labels := \<lambda>k. if k \<in> set (ox_labelKeys x) then pr_Labels p k else None\<rparr>) x = UpsertPod p x"
  by (simp add: UpsertPod_def Let_def filterLabels_def cong: if_cong)

lemma onPod_trim: "ox_labelKeys y = ox_labelKeys x \<Longrightarrow> onPod (trimPod y obj) x = onPod obj x"
proof (cases obj)
  case (OPod p)
  assume "ox_labelKeys y = ox_labelKeys x"
  then show ?thesis
    by (simp add: OPod onPod_def trimPod_def Let_def LabelAllowed_def) (simp add: UpsertPod_def Let_def filterLabels_def cong: if_cong)
qed (simp_all add: onPod_def trimPod_def)

lemma trim_handlers:
  "onPodDelete (trimPod y obj) = onPodDelete obj" "onService (trimService obj) = onService obj"
  "onServiceDelete (trimService obj) = onServiceDelete obj" "onSlice (trimSlice obj) = onSlice obj"
  "onSliceDelete (trimSlice obj) = onSliceDelete obj" "onNode (trimNode obj) = onNode obj"
  "onNodeDelete (trimNode obj) = onNodeDelete obj" "onCiliumEndpoint ops (trimCiliumEndpoint obj) = onCiliumEndpoint ops obj"
  "onCiliumEndpointDelete (trimCiliumEndpoint obj) = onCiliumEndpointDelete obj"
  by (cases obj; rule ext;
      simp add: onPodDelete_def trimPod_def onService_def trimService_def onServiceDelete_def onSlice_def trimSlice_def onSliceDelete_def
        onNode_def trimNode_def onNodeDelete_def onCiliumEndpoint_def trimCiliumEndpoint_def onCiliumEndpointDelete_def Let_def
        fold_trim_endpoints comp_def bare_meta_def)+

lemma transform_last_known:
  assumes "\<And>o' k. (\<And>k. o' \<noteq> OTombstone k) \<Longrightarrow> f o' \<noteq> OTombstone k"
  shows "last_known (transform_object f obj) = f (last_known obj)"
  using assms [of obj] by (cases obj; cases "f obj") (simp_all add: last_known_def)

lemma trim_no_tombstone:
  "(\<And>k. obj \<noteq> OTombstone k) \<Longrightarrow> transform_of y res obj \<noteq> OTombstone k"
  by (cases obj; cases res) (simp_all add: transform_of_def trimPod_def trimService_def trimSlice_def trimNode_def trimCiliumEndpoint_def Let_def)

lemma trim_last_known: "last_known (transform_object (transform_of y res) obj) = transform_of y res (last_known obj)"
  by (rule transform_last_known) (rule trim_no_tombstone)

lemma handle_trim:
  assumes "ox_labelKeys y = ox_labelKeys x"
  shows "handle ops res (transform_event (transform_of y res) ev) x = handle ops res ev x"
proof (cases ev)
  case (Deleted obj)
  then show ?thesis
    by (cases res) (simp_all only: handle_def handler_def transform_event_def informer_event.case informer.case trim_last_known,
        simp_all add: transform_of_def trim_handlers)
qed (cases res, simp_all add: handle_def handler_def transform_event_def transform_of_def onPod_trim [OF assms] trim_handlers)+

section \<open>The index calls of a sequence of events\<close>

definition handled :: "op_index option \<Rightarrow> op_index \<Rightarrow> bool" where
  "handled r x \<longleftrightarrow> (\<exists>es. r = index_run es x)"

lemma handled_calls:
  "handled (Some x) x" "handled (Some (UpsertPod p x)) x" "handled (Some (DeletePod u x)) x" "handled (UpsertSlice s x) x"
  "handled (DeleteSlice ns nm x) x" "handled (Some (UpsertService v x)) x" "handled (Some (DeleteService ns nm x)) x"
  "handled (Some (UpsertCiliumEndpoint c x)) x" "handled (Some (DeleteCiliumEndpoint ns nm x)) x" "handled (Some (UpsertNode n x)) x"
  "handled (Some (DeleteNode nm x)) x"
proof -
  have one: "handled (index_apply e x) x" for e
    unfolding handled_def by (rule exI [of _ "[e]"]) (simp split: option.split)
  show "handled (Some x) x" unfolding handled_def by (rule exI [of _ "[]"]) simp
  show "handled (Some (UpsertPod p x)) x" "handled (Some (DeletePod u x)) x" "handled (UpsertSlice s x) x"
    "handled (DeleteSlice ns nm x) x" "handled (Some (UpsertService v x)) x" "handled (Some (DeleteService ns nm x)) x"
    "handled (Some (UpsertCiliumEndpoint c x)) x" "handled (Some (DeleteCiliumEndpoint ns nm x)) x" "handled (Some (UpsertNode n x)) x"
    "handled (Some (DeleteNode nm x)) x"
    using one [of "PodSeen p"] one [of "PodGone u"] one [of "SliceSeen s"] one [of "SliceGone ns nm"] one [of "ServiceSeen v"]
      one [of "ServiceGone ns nm"] one [of "CiliumSeen c"] one [of "CiliumGone ns nm"] one [of "NodeSeen n"] one [of "NodeGone nm"]
    by (simp_all add: index_apply_def)
qed

lemma handle_handled: "handled (handle ops res ev x) x"
proof -
  have obj: "handled (Some (onPod obj x)) x" "handled (Some (onPodDelete obj x)) x" "handled (Some (onService obj x)) x"
    "handled (Some (onServiceDelete obj x)) x" "handled (onSlice obj x) x" "handled (onSliceDelete obj x) x" "handled (Some (onNode obj x)) x"
    "handled (Some (onNodeDelete obj x)) x" "handled (Some (onCiliumEndpoint ops obj x)) x" "handled (Some (onCiliumEndpointDelete obj x)) x" for obj
    by (cases obj; simp add: onPod_def onPodDelete_def onService_def onServiceDelete_def onSlice_def onSliceDelete_def onNode_def onNodeDelete_def
        onCiliumEndpoint_def onCiliumEndpointDelete_def Let_def handled_calls)+
  show ?thesis by (cases res; cases ev) (simp_all add: handle_def handler_def obj)
qed

lemma index_run_append: "index_run (es @ fs) x = (case index_run es x of None \<Rightarrow> None | Some y \<Rightarrow> index_run fs y)"
  by (induction es arbitrary: x) (simp_all split: option.split)

lemma cache_run_handled: "handled (cache_run ops evs x) x"
proof (induction evs arbitrary: x)
  case (Cons e evs)
  obtain res ev where e: "e = (res, ev)" by (cases e)
  obtain es where es: "handle ops res ev x = index_run es x" using handle_handled unfolding handled_def by blast
  show ?case
  proof (cases "index_run es x")
    case None
    then show ?thesis unfolding handled_def using es e by (intro exI [of _ es]) simp
  next
    case (Some y)
    obtain fs where "cache_run ops evs y = index_run fs y" using Cons.IH unfolding handled_def by blast
    with Some es e show ?thesis unfolding handled_def by (intro exI [of _ "es @ fs"]) (simp add: index_run_append)
  qed
qed (simp add: handled_calls)

lemma handle_ok:
  assumes "op_index_wf x"
  shows "\<exists>y. handle ops res ev x = Some y \<and> op_index_wf y \<and> ox_labelKeys y = ox_labelKeys x"
proof -
  obtain es where "handle ops res ev x = index_run es x" using handle_handled unfolding handled_def by blast
  with index_run_ok [OF assms, of es] show ?thesis by auto
qed

text \<open>C40: the transforms that keep the informers small never change an identity. For every sequence of informer events the index
  the handlers build from the transformed objects is the one they would build from the full objects, it keeps its invariant,
  and no handler panics.\<close>

theorem trimming_invisible:
  "\<exists>x. cache_run ops (map (\<lambda>(res, ev). (res, transform_event (transform_of (op_NewIndex opts) res) ev)) evs) (op_NewIndex opts) = Some x \<and>
     cache_run ops evs (op_NewIndex opts) = Some x \<and> op_index_wf x"
proof -
  have "\<exists>y. cache_run ops (map (\<lambda>(res, ev). (res, transform_event (transform_of z res) ev)) evs) x = Some y \<and>
     cache_run ops evs x = Some y \<and> op_index_wf y" if "op_index_wf x" "ox_labelKeys z = ox_labelKeys x" for x z
    using that
  proof (induction evs arbitrary: x)
    case (Cons e evs)
    obtain res ev where e: "e = (res, ev)" by (cases e)
    obtain y where y: "handle ops res ev x = Some y" "op_index_wf y" "ox_labelKeys y = ox_labelKeys x"
      using handle_ok [OF Cons.prems(1)] by blast
    have "ox_labelKeys z = ox_labelKeys y" using y(3) Cons.prems(2) by simp
    from Cons.IH [OF y(2) this] show ?case by (simp add: e handle_trim [OF Cons.prems(2)] y(1))
  qed simp
  then show ?thesis using op_index_wf_new by blast
qed

end
