(* ===== verification/Operator_Server.thy ===== *)
theory Operator_Server
  imports Operator_Index Identity_Index
begin

text \<open>
  The operator's identity stream server (\<^verbatim>\<open>hyper-operator/internal/identity/server.go\<close>) and what an engine's
  copy of the identity map makes of it. The server's two \<^verbatim>\<open>LinearCache\<close>s belong to the control-plane library:
  the type of their state, the update operation and the resources they hold are parameters, with one law for
  an update that succeeds. The messages are compared with \<^verbatim>\<open>proto.Equal\<close>, a parameter too. Files and TLS are read
  through operations of the environment.
\<close>

section \<open>Messages\<close>

record wire_workload = proto_workload +
  pw_CiliumLabels :: "string list"

definition workloadProto :: "Workload \<Rightarrow> wire_workload" where
  "workloadProto w =
     \<lparr>pw_Ip = show_addr (wk_IP w), pw_PodUid = wk_PodUID w, pw_Namespace = wk_Namespace w, pw_Pod = wk_Pod w,
      pw_ServiceAccount = wk_ServiceAccount w, pw_SpiffeId = wk_SPIFFEID w, pw_SecurityIdentity = wk_SecurityIdentity w,
      pw_Labels = wk_Labels w, pw_Services = wk_Services w, pw_Node = wk_Node w,
      pw_Kind = (case wk_Kind w of PodKind \<Rightarrow> 1 | NodeKind \<Rightarrow> 2 | _ \<Rightarrow> 0), pw_CiliumLabels = wk_CiliumLabels w\<rparr>"

definition serviceProto :: "op_service \<Rightarrow> proto_service" where
  "serviceProto s = \<lparr>ps_Name = os_Name s, ps_Namespace = os_Namespace s, ps_ClusterIps = map show_addr (os_ClusterIPs s), ps_Ports = os_Ports s\<rparr>"

section \<open>The server\<close>

datatype server_error = NoAuthenticator | NoCertificate

record 'a server_options =
  so_Address :: string
  so_CertFile :: string
  so_KeyFile :: string
  so_Insecure :: bool
  so_Authenticator :: "'a option"

record ('m, 'c) linear_cache =
  lc_UpdateResources :: "(string \<times> 'm) list \<Rightarrow> string list \<Rightarrow> 'c \<Rightarrow> string option \<times> 'c"
  lc_resources :: "'c \<Rightarrow> (string \<rightharpoonup> 'm)"

text \<open>What the library documents of an update that succeeds.\<close>

definition cache_law :: "('m, 'c) linear_cache \<Rightarrow> bool" where
  "cache_law lc \<longleftrightarrow> (\<forall>upd gone c c'. lc_UpdateResources lc upd gone c = (None, c') \<longrightarrow>
     lc_resources lc c' = (\<lambda>n. if n \<in> set gone then None else (lc_resources lc c ++ map_of upd) n))"

record ('a, 'c, 'd) op_server =
  sv_opts :: "'a server_options"
  sv_workloads :: 'c
  sv_services :: 'd
  sv_lastWorkloads :: "(string \<times> wire_workload) list"
  sv_lastServices :: "(string \<times> proto_service) list"

definition NewServer :: "'a server_options \<Rightarrow> 'c \<Rightarrow> 'd \<Rightarrow> (server_error, ('a, 'c, 'd) op_server) result" where
  "NewServer opts c d =
     (if so_Authenticator opts = None then Err NoAuthenticator
      else if \<not> so_Insecure opts \<and> (so_CertFile opts = [] \<or> so_KeyFile opts = []) then Err NoCertificate
      else Ok \<lparr>sv_opts = opts\<lparr>so_Address := (if so_Address opts = [] then '':9444'' else so_Address opts)\<rparr>,
               sv_workloads = c, sv_services = d, sv_lastWorkloads = [], sv_lastServices = []\<rparr>)"

text \<open>\<open>applyDiff\<close>: the maps are association lists in the order of the iteration.\<close>

definition applyDiff ::
  "('m \<Rightarrow> 'm \<Rightarrow> bool) \<Rightarrow> ('m, 'c) linear_cache \<Rightarrow> 'c \<Rightarrow> (string \<times> 'm) list \<Rightarrow> (string \<times> 'm) list \<Rightarrow> string option \<times> 'c" where
  "applyDiff eq lc c prev nxt =
     (let upd = filter (\<lambda>(nm, r). case map_of prev nm of None \<Rightarrow> True | Some old \<Rightarrow> \<not> eq old r) nxt;
          gone = map fst (filter (\<lambda>(nm, _). map_of nxt nm = None) prev)
      in if upd = [] \<and> gone = [] then (None, c) else lc_UpdateResources lc upd gone c)"

definition next_workloads :: "op_index \<Rightarrow> (string \<times> wire_workload) list" where
  "next_workloads x = fold (\<lambda>w m. AList.update (show_addr (wk_IP w)) (workloadProto w) m) (Workloads x) []"

definition next_services :: "op_index \<Rightarrow> (string \<times> proto_service) list" where
  "next_services x = fold (\<lambda>s m. AList.update (os_Namespace s @ ''/'' @ os_Name s) (serviceProto s) m) (Services x) []"

record ('c, 'd) stream_ops =
  st_equalW :: "wire_workload \<Rightarrow> wire_workload \<Rightarrow> bool"
  st_equalS :: "proto_service \<Rightarrow> proto_service \<Rightarrow> bool"
  st_cacheW :: "(wire_workload, 'c) linear_cache"
  st_cacheS :: "(proto_service, 'd) linear_cache"

text \<open>\<open>Sync\<close> only logs the errors of the two updates; they are returned for the statements below.\<close>

definition Sync :: "('c, 'd) stream_ops \<Rightarrow> op_index \<Rightarrow> ('a, 'c, 'd) op_server \<Rightarrow> (string option \<times> string option) \<times> ('a, 'c, 'd) op_server" where
  "Sync ops x s =
     (let nw = next_workloads x;
          ns = next_services x;
          (e1, c) = applyDiff (st_equalW ops) (st_cacheW ops) (sv_workloads s) (sv_lastWorkloads s) nw;
          (e2, d) = applyDiff (st_equalS ops) (st_cacheS ops) (sv_services s) (sv_lastServices s) ns
      in ((e1, e2), s\<lparr>sv_workloads := c, sv_services := d, sv_lastWorkloads := nw, sv_lastServices := ns\<rparr>))"

section \<open>Authentication\<close>

datatype auth_error = ErrUnauthenticated string | ErrForbidden string | AuthOther string

datatype grpc_status = Unauthenticated string | PermissionDenied string | Unavailable string

fun bearer_token :: "string list \<Rightarrow> string" where
  "bearer_token [] = []"
| "bearer_token (v # vs) =
     (if has_prefix v ''Bearer '' \<and> trim_prefix v ''Bearer '' \<noteq> [] then trim_prefix v ''Bearer '' else bearer_token vs)"

text \<open>The values of the authorization metadata, the authenticator and its state.\<close>

definition authenticate :: "(string \<Rightarrow> 's \<Rightarrow> (auth_error, string) result \<times> 's) \<Rightarrow> string list \<Rightarrow> 's \<Rightarrow> (grpc_status, string) result \<times> 's" where
  "authenticate auth md s =
     (let token = bearer_token md in
      if token = [] then (Err (Unauthenticated ''missing bearer token''), s)
      else
        (case auth token s of
           (r, s') \<Rightarrow>
             ((case r of
                 Inr i \<Rightarrow> Ok i
               | Inl (ErrUnauthenticated m) \<Rightarrow> Err (Unauthenticated m)
               | Inl (ErrForbidden m) \<Rightarrow> Err (PermissionDenied m)
               | Inl (AuthOther _) \<Rightarrow> Err (Unavailable ''token validation unavailable'')), s')))"

definition authStream ::
  "(string \<Rightarrow> 's \<Rightarrow> (auth_error, string) result \<times> 's) \<Rightarrow> string list \<Rightarrow> ('s \<Rightarrow> (grpc_status, 'r) result \<times> 's) \<Rightarrow> 's \<Rightarrow> (grpc_status, 'r) result \<times> 's" where
  "authStream auth md handler s =
     (case authenticate auth md s of
        (Inl e, s') \<Rightarrow> (Err e, s')
      | (Inr _, s') \<Rightarrow> handler s')"

section \<open>The certificate\<close>

record 'k file_ops =
  fo_Stat :: "string \<Rightarrow> int option" \<comment> \<open>the modification time, None when the file cannot be read\<close>
  fo_LoadX509KeyPair :: "string \<Rightarrow> string \<Rightarrow> 'k option"

record 'k certReloader =
  cr_certFile :: string
  cr_keyFile :: string
  cr_cert :: "'k option"
  cr_modTime :: int

datatype cert_error = CertificateMissing | CertificateInvalid

definition cert_get :: "'k file_ops \<Rightarrow> 'k certReloader \<Rightarrow> (cert_error, 'k) result \<times> 'k certReloader" where
  "cert_get fs r =
     (case fo_Stat fs (cr_certFile r) of
        None \<Rightarrow> (case cr_cert r of Some k \<Rightarrow> (Ok k, r) | None \<Rightarrow> (Err CertificateMissing, r))
      | Some t \<Rightarrow>
          (case (if t = cr_modTime r then cr_cert r else None) of
             Some k \<Rightarrow> (Ok k, r)
           | None \<Rightarrow>
               (case fo_LoadX509KeyPair fs (cr_certFile r) (cr_keyFile r) of
                  None \<Rightarrow> (case cr_cert r of Some k \<Rightarrow> (Ok k, r) | None \<Rightarrow> (Err CertificateInvalid, r))
                | Some k \<Rightarrow> (Ok k, r\<lparr>cr_cert := Some k, cr_modTime := t\<rparr>))))"

definition server_credentials :: "'k file_ops \<Rightarrow> 'a server_options \<Rightarrow> (cert_error, 'k certReloader option) result" where
  "server_credentials fs opts =
     (if so_Insecure opts then Ok None
      else
        (case cert_get fs \<lparr>cr_certFile = so_CertFile opts, cr_keyFile = so_KeyFile opts, cr_cert = None, cr_modTime = 0\<rparr> of
           (Inl e, _) \<Rightarrow> Err e
         | (Inr _, r) \<Rightarrow> Ok (Some r)))"

section \<open>What the caches publish\<close>

declare map_of_eq_Some_iff [simp del] Some_eq_map_of_iff [simp del]

lemma stored_parse: "stored_addr ip \<Longrightarrow> parse_addr (show_addr ip) = Some ip"
  by (rule parse_show_addr) (metis stored_addr_def, metis addr_unmap_not4in6 stored_addr_def)

lemma map_of_fold_update:
  "distinct (map f ws) \<Longrightarrow> map_of (fold (\<lambda>w m. AList.update (f w) (g w) m) ws m) = map_of m ++ map_of (map (\<lambda>w. (f w, g w)) ws)"
proof (induction ws arbitrary: m)
  case (Cons w ws)
  have "map_of (map (\<lambda>w. (f w, g w)) ws) (f w) = None" using Cons.prems by (auto simp: map_of_eq_None_iff)
  then have "((map_of m)(f w \<mapsto> g w) ++ map_of (map (\<lambda>w. (f w, g w)) ws)) n =
      (map_of m ++ (map_of (map (\<lambda>w. (f w, g w)) ws))(f w \<mapsto> g w)) n" for n
    by (cases "n = f w") (simp_all add: map_add_def split: option.split)
  then have "(map_of m)(f w \<mapsto> g w) ++ map_of (map (\<lambda>w. (f w, g w)) ws) =
      map_of m ++ (map_of (map (\<lambda>w. (f w, g w)) ws))(f w \<mapsto> g w)" by blast
  moreover have "distinct (map f ws)" using Cons.prems by simp
  ultimately show ?case by (simp only: fold_Cons comp_apply Cons.IH update_conv' list.map map_of.simps fst_conv snd_conv)
qed simp

lemma distinct_fold_update: "distinct (map fst m) \<Longrightarrow> distinct (map fst (fold (\<lambda>w m. AList.update (f w) (g w) m) ws m))"
  by (induction ws arbitrary: m) (simp_all add: distinct_update)

lemma next_distinct [simp]: "distinct (map fst (next_workloads x))" "distinct (map fst (next_services x))"
  by (simp_all add: next_workloads_def next_services_def distinct_fold_update)

lemma next_workloads_iff:
  assumes "op_index_wf x"
  shows "map_of (next_workloads x) n = Some m \<longleftrightarrow> (\<exists>w \<in> set (Workloads x). n = show_addr (wk_IP w) \<and> m = workloadProto w)"
proof -
  have inj: "inj_on show_addr (wk_IP ` set (Workloads x))"
    by (rule inj_onI) (metis (no_types, lifting) Workloads_set [OF assms] imageE option.inject stored_parse)
  have d: "distinct (map (\<lambda>w. show_addr (wk_IP w)) (Workloads x))"
    using Workloads_distinct [OF assms] inj by (simp add: distinct_map comp_inj_on [of wk_IP _ show_addr, unfolded comp_def])
  then have d': "distinct (map fst (map (\<lambda>w. (show_addr (wk_IP w), workloadProto w)) (Workloads x)))" by (simp add: comp_def)
  show ?thesis
    unfolding next_workloads_def map_of_fold_update [OF d] using map_of_eq_Some_iff [OF d'] by auto
qed

lemma next_workloads_lookup:
  assumes "op_index_wf x"
  shows "stored_addr ip \<Longrightarrow> map_of (next_workloads x) (show_addr ip) = map_option workloadProto (op_Lookup x ip)"
    and "map_of (next_workloads x) n = Some m \<Longrightarrow> \<exists>ip. stored_addr ip \<and> n = show_addr ip \<and> pw_Ip m = n"
proof -
  have ip: "op_Lookup x a = Some w \<Longrightarrow> wk_IP w = addr_unmap a" for a w
    by (auto simp: op_Lookup_def Let_def split: option.splits)
  show "map_of (next_workloads x) n = Some m \<Longrightarrow> \<exists>ip. stored_addr ip \<and> n = show_addr ip \<and> pw_Ip m = n"
    using next_workloads_iff [OF assms] Workloads_set [OF assms] by (auto simp: workloadProto_def)
  assume st: "stored_addr ip"
  show "map_of (next_workloads x) (show_addr ip) = map_option workloadProto (op_Lookup x ip)"
  proof (cases "op_Lookup x ip")
    case None
    have "map_of (next_workloads x) (show_addr ip) \<noteq> Some m" for m
      using next_workloads_iff [OF assms] Workloads_set [OF assms] None st stored_parse by (metis option.distinct(1) option.inject)
    then have "map_of (next_workloads x) (show_addr ip) = None" by (metis not_None_eq)
    with None show ?thesis by simp
  next
    case (Some w)
    have "wk_IP w = ip" using ip [OF Some] st by (simp add: stored_addr_def)
    with Some st have "w \<in> set (Workloads x)" by (simp add: Workloads_set [OF assms])
    with \<open>wk_IP w = ip\<close> Some show ?thesis using next_workloads_iff [OF assms] by auto
  qed
qed

lemma applyDiff_exact:
  assumes "\<And>a b. eq a b \<longleftrightarrow> a = b" "cache_law lc" "lc_resources lc c = map_of prev" "distinct (map fst nxt)"
    and "applyDiff eq lc c prev nxt = (None, c')"
  shows "lc_resources lc c' = map_of nxt"
proof -
  define upd where "upd = filter (\<lambda>(nm, r). case map_of prev nm of None \<Rightarrow> True | Some old \<Rightarrow> \<not> eq old r) nxt"
  define gone where "gone = map fst (filter (\<lambda>(nm, _). map_of nxt nm = None) prev)"
  have diff: "applyDiff eq lc c prev nxt = (if upd = [] \<and> gone = [] then (None, c) else lc_UpdateResources lc upd gone c)"
    by (simp only: applyDiff_def Let_def upd_def gone_def)
  have du: "distinct (map fst upd)" unfolding upd_def by (rule distinct_map_filter [OF assms(4)])
  have upd: "map_of upd n = Some r \<longleftrightarrow> map_of nxt n = Some r \<and> map_of prev n \<noteq> Some r" for n r
    using map_of_eq_Some_iff [OF du] map_of_eq_Some_iff [OF assms(4)] assms(1)
    by (auto simp: upd_def split: option.splits)
  have gone: "n \<in> set gone \<longleftrightarrow> map_of nxt n = None \<and> map_of prev n \<noteq> None" for n
  proof -
    have "n \<in> set gone \<longleftrightarrow> map_of nxt n = None \<and> (\<exists>b. (n, b) \<in> set prev)" by (force simp: gone_def)
    then show ?thesis by (metis map_of_SomeD not_None_eq weak_map_of_SomeI)
  qed
  have same: "map_of nxt n = (if n \<in> set gone then None else (map_of prev ++ map_of upd) n)" for n
  proof (cases "map_of nxt n")
    case None
    then have "map_of upd n = None" using upd by (metis not_None_eq)
    with None gone [of n] show ?thesis by (cases "map_of prev n") (simp_all add: map_add_def)
  next
    case (Some r)
    then have ng: "n \<notin> set gone" using gone by simp
    show ?thesis
    proof (cases "map_of prev n = Some r")
      case True
      then have "map_of upd n = None" using upd Some by (metis not_None_eq option.inject)
      with True Some ng show ?thesis by (simp add: map_add_def)
    next
      case False
      then have "map_of upd n = Some r" using upd Some by blast
      with Some ng show ?thesis by (simp add: map_add_def)
    qed
  qed
  show ?thesis
  proof (cases "upd = [] \<and> gone = []")
    case True
    then have "c' = c" using assms(5) by (simp add: diff)
    with True same assms(3) show ?thesis by (auto simp: fun_eq_iff)
  next
    case False
    then have "lc_UpdateResources lc upd gone c = (None, c')"
      using assms(5) unfolding diff by (simp only: if_False)
    then have "lc_resources lc c' = (\<lambda>n. if n \<in> set gone then None else (map_of prev ++ map_of upd) n)"
      using assms(2,3) unfolding cache_law_def by metis
    then show ?thesis using same by (simp add: fun_eq_iff)
  qed
qed

text \<open>Once \<open>Sync\<close> has run, another \<open>Sync\<close> of the same index does nothing, even when the first one failed: an update the
  cache refused is not attempted again until the object changes.\<close>

lemma applyDiff_same: "(\<And>a b. eq a b \<longleftrightarrow> a = b) \<Longrightarrow> distinct (map fst m) \<Longrightarrow> applyDiff eq lc c m m = (None, c)"
  by (auto simp: applyDiff_def Let_def filter_empty_conv map_of_eq_None_iff image_iff split: option.split)

lemma failed_sync_not_retried:
  assumes "\<And>a b. st_equalW ops a b \<longleftrightarrow> a = b" "\<And>a b. st_equalS ops a b \<longleftrightarrow> a = b" "Sync ops x s = (errs, s')"
  shows "Sync ops x s' = ((None, None), s')"
  using assms by (auto simp: Sync_def Let_def applyDiff_same split: prod.splits)

section \<open>From the cluster to the engine\<close>

text \<open>
  A delta from the resources \<open>R0\<close> an engine was sent before to the resources \<open>R1\<close> of the cache, as the control-plane library
  sends it: every resource it carries is current, it removes only resources the engine knows, and what it does not mention
  has not changed.
\<close>

definition delta :: "(string \<rightharpoonup> 'm) \<Rightarrow> (string \<rightharpoonup> 'm) \<Rightarrow> 'm versioned list \<Rightarrow> string list \<Rightarrow> bool" where
  "delta R0 R1 us rs \<longleftrightarrow> distinct (map fst us) \<and> (\<forall>n m v. (n, m, v) \<in> set us \<longrightarrow> R1 n = Some m) \<and> set rs \<subseteq> dom R0 \<and>
     (\<forall>n. n \<notin> fst ` set us \<longrightarrow> R1 n = (if n \<in> set rs then None else R0 n))"

text \<open>What the engine decodes of a message: its type has no field for the Cilium labels.\<close>

definition received :: "wire_workload versioned \<Rightarrow> proto_workload versioned" where
  "received u = (case u of (n, m, v) \<Rightarrow> (n, proto_workload.truncate m, v))"

definition decoded :: "wire_workload \<Rightarrow> workload" where
  "decoded m = workloadFromProto (proto_workload.truncate m)"

text \<open>A workload of the operator as an engine shows it.\<close>

definition engine_view :: "Workload \<Rightarrow> workload" where
  "engine_view w =
     \<lparr>wl_IP = wk_IP w, wl_Kind = (case wk_Kind w of PodKind \<Rightarrow> KindPod | NodeKind \<Rightarrow> KindNode | NoKind \<Rightarrow> KindUnknown),
      wl_Namespace = wk_Namespace w, wl_Pod = wk_Pod w, wl_PodUID = wk_PodUID w, wl_ServiceAccount = wk_ServiceAccount w,
      wl_SPIFFEID = wk_SPIFFEID w, wl_Node = wk_Node w, wl_Labels = wk_Labels w,
      wl_Services = sort (map (\<lambda>(ns, nm). ns @ ''/'' @ nm) (wk_Services w)), wl_SecurityIdentity = wk_SecurityIdentity w\<rparr>"

lemma decoded_workloadProto: "stored_addr (wk_IP w) \<Longrightarrow> decoded (workloadProto w) = engine_view w"
  by (simp add: decoded_def workloadProto_def workloadFromProto_def engine_view_def proto_workload.truncate_def stored_parse addr_or_zero_def
      stored_addr_def split: WorkloadKind.split)

definition well_named :: "(string \<rightharpoonup> wire_workload) \<Rightarrow> bool" where
  "well_named R \<longleftrightarrow> (\<forall>n m. R n = Some m \<longrightarrow> (\<exists>ip. stored_addr ip \<and> n = show_addr ip \<and> pw_Ip m = n))"

definition copy_of :: "(string \<rightharpoonup> wire_workload) \<Rightarrow> index \<Rightarrow> bool" where
  "copy_of R e \<longleftrightarrow> workloads_wf e \<and> (\<forall>ip. stored_addr ip \<longrightarrow> idx_workloads e ip = map_option decoded (R (show_addr ip)))"

lemma removed_workloads:
  assumes "\<forall>n \<in> set rs. \<exists>a. stored_addr a \<and> n = show_addr a" "stored_addr ip"
  shows "idx_workloads (fold remove_workload rs e) ip = (if show_addr ip \<in> set rs then None else idx_workloads e ip)"
  using assms(1)
proof (induction rs arbitrary: e)
  case (Cons n rs)
  from Cons.prems obtain a where a: "stored_addr a" "n = show_addr a" by auto
  have "idx_workloads (remove_workload n e) ip = (if show_addr ip = n then None else idx_workloads e ip)"
    using a assms(2) stored_parse [OF a(1)] stored_parse [OF assms(2)] by (auto simp: remove_workload_def Let_def stored_addr_def)
  with Cons show ?case by auto
qed simp

lemma updated_workloads:
  assumes "\<forall>n m v. (n, m, v) \<in> set us \<longrightarrow> (\<exists>a. stored_addr a \<and> n = show_addr a \<and> pw_Ip m = n)" "distinct (map fst us)" "stored_addr ip"
  shows "idx_workloads (fold update_workload (map received us) e) ip =
    (case map_of us (show_addr ip) of Some (m, _) \<Rightarrow> Some (decoded m) | None \<Rightarrow> idx_workloads e ip)"
  using assms(1,2)
proof (induction us arbitrary: e)
  case (Cons u us)
  obtain n m v where u: "u = (n, m, v)" by (cases u) auto
  obtain a where a: "stored_addr a" "n = show_addr a" "pw_Ip m = n"
    using Cons.prems(1) unfolding u by (metis list.set_intros(1))
  have ip: "wl_IP (decoded m) = a"
    using a stored_parse [OF a(1)] by (simp add: decoded_def workloadFromProto_def proto_workload.truncate_def addr_or_zero_def stored_addr_def)
  have step: "idx_workloads (update_workload (received u) e) ip = (if show_addr ip = n then Some (decoded m) else idx_workloads e ip)"
    using a ip assms(3) stored_parse [OF a(1)] stored_parse [OF assms(3)]
    by (auto simp: update_workload_def received_def u Let_def decoded_def [symmetric] stored_addr_def)
  have tl: "\<forall>n m v. (n, m, v) \<in> set us \<longrightarrow> (\<exists>a. stored_addr a \<and> n = show_addr a \<and> pw_Ip m = n)" "distinct (map fst us)"
    using Cons.prems by auto
  show ?case
  proof (cases "show_addr ip = n")
    case True
    then have "map_of us (show_addr ip) = None" using Cons.prems(2) u by (simp add: map_of_eq_None_iff)
    then have "idx_workloads (fold update_workload (map received (u # us)) e) ip = idx_workloads (update_workload (received u) e) ip"
      by (simp add: Cons.IH [OF tl])
    with True step u show ?thesis by simp
  next
    case False
    then have "idx_workloads (update_workload (received u) e) ip = idx_workloads e ip" using step by simp
    then have "idx_workloads (fold update_workload (map received (u # us)) e) ip =
        (case map_of us (show_addr ip) of Some (m, _) \<Rightarrow> Some (decoded m) | None \<Rightarrow> idx_workloads e ip)"
      by (simp only: list.map fold_Cons comp_apply Cons.IH [OF tl])
    with False u show ?thesis by simp
  qed
qed simp

lemma delivered_copy:
  assumes "copy_of R0 e" "well_named R0" "well_named R1" "delta R0 R1 us rs"
  shows "copy_of R1 (applyWorkloads now (map received us) rs e)"
proof -
  have d: "distinct (map fst us)" "\<And>n m v. (n, m, v) \<in> set us \<Longrightarrow> R1 n = Some m" "set rs \<subseteq> dom R0"
      "\<And>n. n \<notin> fst ` set us \<Longrightarrow> R1 n = (if n \<in> set rs then None else R0 n)"
    using assms(4) unfolding delta_def by blast+
  have us: "\<forall>n m v. (n, m, v) \<in> set us \<longrightarrow> (\<exists>a. stored_addr a \<and> n = show_addr a \<and> pw_Ip m = n)"
    using d(2) assms(3) unfolding well_named_def by blast
  have rs: "\<forall>n \<in> set rs. \<exists>a. stored_addr a \<and> n = show_addr a"
    using d(3) assms(2) unfolding well_named_def by (meson domD subsetD)
  have wf: "workloads_wf (applyWorkloads now (map received us) rs e)"
  proof -
    have "workloads_wf (fold remove_workload rs e)"
      using assms(1) fold_preserves [of workloads_wf remove_workload, OF remove_workload_wf] by (simp add: copy_of_def)
    then have "workloads_wf (fold update_workload (map received us) (fold remove_workload rs e))"
      using fold_preserves [of workloads_wf update_workload, OF update_workload_wf] by blast
    then show ?thesis by (simp add: applyWorkloads_def workloads_wf_def)
  qed
  have "idx_workloads (applyWorkloads now (map received us) rs e) ip = map_option decoded (R1 (show_addr ip))" if ip: "stored_addr ip" for ip
  proof -
    have e: "idx_workloads (applyWorkloads now (map received us) rs e) ip =
        (case map_of us (show_addr ip) of Some (m, _) \<Rightarrow> Some (decoded m)
         | None \<Rightarrow> if show_addr ip \<in> set rs then None else idx_workloads e ip)"
    proof -
      have "idx_workloads (applyWorkloads now (map received us) rs e) = idx_workloads (fold update_workload (map received us) (fold remove_workload rs e))"
        by (simp add: applyWorkloads_def)
      then show ?thesis by (simp only: updated_workloads [OF us d(1) ip] removed_workloads [OF rs ip])
    qed
    show ?thesis
    proof (cases "map_of us (show_addr ip)")
      case None
      then have "R1 (show_addr ip) = (if show_addr ip \<in> set rs then None else R0 (show_addr ip))" by (intro d(4)) (simp add: map_of_eq_None_iff)
      moreover have "idx_workloads e ip = map_option decoded (R0 (show_addr ip))" using assms(1) ip by (simp add: copy_of_def)
      ultimately show ?thesis by (simp add: e None)
    next
      case (Some mv)
      obtain m v where mv: "mv = (m, v)" by (cases mv)
      with Some have "R1 (show_addr ip) = Some m" using d(2) map_of_SomeD by metis
      with Some mv show ?thesis by (simp add: e)
    qed
  qed
  with wf show ?thesis unfolding copy_of_def by blast
qed

text \<open>
  The operator's index, its server and the copy of one engine, with the resources the engine was sent. The steps are the
  events of the cluster, \<open>Sync\<close> with an update of the workload cache that succeeds, and the delivery of deltas to the engine;
  they happen in any order.
\<close>

inductive distributed ::
  "('c, 'd) stream_ops \<Rightarrow> index_options \<Rightarrow> op_index \<Rightarrow> ('a, 'c, 'd) op_server \<Rightarrow> (string \<rightharpoonup> wire_workload) \<Rightarrow> index \<Rightarrow> bool"
  for ops opts where
  started: "NewServer so c d = Inr s \<Longrightarrow> lc_resources (st_cacheW ops) c = Map.empty \<Longrightarrow>
    distributed ops opts (op_NewIndex opts) s Map.empty NewIndex"
| observed: "distributed ops opts x s R e \<Longrightarrow> index_apply ev x = Some x' \<Longrightarrow> distributed ops opts x' s R e"
| synced: "distributed ops opts x s R e \<Longrightarrow> Sync ops x s = ((None, err), s') \<Longrightarrow> distributed ops opts x s' R e"
| delivered: "distributed ops opts x s R e \<Longrightarrow> delta R (lc_resources (st_cacheW ops) (sv_workloads s)) us rs \<Longrightarrow>
    distributed ops opts x s (lc_resources (st_cacheW ops) (sv_workloads s)) (applyWorkloads now (map received us) rs e)"
| services: "distributed ops opts x s R e \<Longrightarrow> distributed ops opts x s R (applyServices now us' rs e)"

lemma applyServices_workloads: "idx_workloads (applyServices now us rs e) = idx_workloads e"
proof -
  have "idx_workloads (remove_service n y) = idx_workloads y" "idx_workloads (update_service u y) = idx_workloads y" for n u y
    by (simp_all add: remove_service_def update_service_def Let_def split: prod.split)
  then have "idx_workloads (fold remove_service rs e) = idx_workloads e" "idx_workloads (fold update_service us y) = idx_workloads y" for y
    by (induction rs arbitrary: e, simp_all, induction us arbitrary: y, simp_all)
  then show ?thesis by (simp add: applyServices_def)
qed

lemma op_Lookup_valid:
  assumes "op_index_wf x" "op_Lookup x ip = Some w"
  shows "addr_is_valid (addr_unmap ip)"
proof (cases "owner x (addr_unmap ip)")
  case None
  then obtain nm where "map_of (ox_nodeIP x) (addr_unmap ip) = Some nm" using assms(2) by (auto simp: op_Lookup_def Let_def)
  then obtain n where "ox_nodes x nm = Some n" "addr_unmap ip \<in> set (nr_IPs n)" "\<forall>a \<in> set (nr_IPs n). stored_addr a"
    using assms(1) unfolding op_index_wf_def nodes_ok_def by metis
  then show ?thesis by (simp add: stored_addr_def)
next
  case (Some p)
  have ok: "claims_ok x" using assms(1) by (simp add: op_index_wf_def)
  from Some have "ox_pods x (pr_UID p) = Some p" "addr_unmap ip \<in> set (pr_IPs p)"
    using owner_newest(1) [OF ok] by (simp_all add: newest_claimant_def claims_address_def cluster_of_def)
  then show ?thesis using ok unfolding claims_ok_def stored_addr_def by metis
qed

lemma Sync_published:
  assumes "\<And>a b. st_equalW ops a b \<longleftrightarrow> a = b" "cache_law (st_cacheW ops)"
    and "lc_resources (st_cacheW ops) (sv_workloads s) = map_of (sv_lastWorkloads s)" "Sync ops x s = ((None, err), s')"
  shows "lc_resources (st_cacheW ops) (sv_workloads s') = map_of (next_workloads x)" "sv_lastWorkloads s' = next_workloads x"
proof -
  obtain c where c: "applyDiff (st_equalW ops) (st_cacheW ops) (sv_workloads s) (sv_lastWorkloads s) (next_workloads x) = (None, c)"
      "sv_workloads s' = c"
    using assms(4) by (auto simp: Sync_def Let_def split: prod.splits)
  show "lc_resources (st_cacheW ops) (sv_workloads s') = map_of (next_workloads x)"
    using applyDiff_exact [OF assms(1-3) _ c(1)] c(2) by simp
  show "sv_lastWorkloads s' = next_workloads x" using assms(4) by (auto simp: Sync_def Let_def split: prod.splits)
qed

lemma distributed_invariant:
  assumes "distributed ops opts x s R e" "\<And>a b. st_equalW ops a b \<longleftrightarrow> a = b" "cache_law (st_cacheW ops)"
  shows "op_index_wf x \<and> lc_resources (st_cacheW ops) (sv_workloads s) = map_of (sv_lastWorkloads s) \<and>
    well_named (map_of (sv_lastWorkloads s)) \<and> well_named R \<and> copy_of R e"
  using assms(1)
proof (induction rule: distributed.induct)
  case (started so c d s)
  then have "sv_lastWorkloads s = []" "sv_workloads s = c" by (auto simp: NewServer_def split: if_splits)
  with started show ?case by (simp add: op_index_wf_new well_named_def copy_of_def workloads_wf_def NewIndex_def)
next
  case (observed x s R e ev x')
  then have "op_index_wf x'" using index_apply_ok [of x ev] by auto
  with observed.IH show ?case by blast
next
  case (synced x s R e err s')
  then have wf: "op_index_wf x" by blast
  have p: "lc_resources (st_cacheW ops) (sv_workloads s') = map_of (next_workloads x)" "sv_lastWorkloads s' = next_workloads x"
    using Sync_published [OF assms(2,3) _ synced.hyps(2)] synced.IH by blast+
  have "well_named (map_of (next_workloads x))" unfolding well_named_def using next_workloads_lookup(2) [OF wf] by blast
  with p synced.IH show ?case by simp
next
  case (delivered x s R e us rs now)
  then show ?case using delivered_copy [OF _ _ _ delivered.hyps(2)] by metis
next
  case (services x s R e now us' rs)
  then show ?case by (simp add: copy_of_def workloads_wf_def applyServices_workloads)
qed


text \<open>A cache that is a map, one pod and the first delta to an engine.\<close>

definition ex_cache :: "('m, string \<rightharpoonup> 'm) linear_cache" where
  "ex_cache = \<lparr>lc_UpdateResources = (\<lambda>upd gone c. (None, \<lambda>n. if n \<in> set gone then None else (c ++ map_of upd) n)), lc_resources = id\<rparr>"

definition ex_stream_ops :: "(string \<rightharpoonup> wire_workload, string \<rightharpoonup> proto_service) stream_ops" where
  "ex_stream_ops = \<lparr>st_equalW = (=), st_equalS = (=), st_cacheW = ex_cache, st_cacheS = ex_cache\<rparr>"

definition ex_server_options :: "unit server_options" where
  "ex_server_options = \<lparr>so_Address = [], so_CertFile = ''tls.crt'', so_KeyFile = ''tls.key'', so_Insecure = False, so_Authenticator = Some ()\<rparr>"

definition ex_server :: "(unit, string \<rightharpoonup> wire_workload, string \<rightharpoonup> proto_service) op_server" where
  "ex_server = \<lparr>sv_opts = ex_server_options\<lparr>so_Address := '':9444''\<rparr>, sv_workloads = Map.empty, sv_services = Map.empty,
     sv_lastWorkloads = [], sv_lastServices = []\<rparr>"

definition ex_first_delta :: "wire_workload versioned list" where
  "ex_first_delta = map (\<lambda>(n, m). (n, m, ''1'')) (next_workloads ex_op_index)"

lemma ex_distributed: "distributed ex_stream_ops ex_index_options ex_op_index ex_server Map.empty NewIndex"
proof -
  have "distributed ex_stream_ops ex_index_options (op_NewIndex ex_index_options) ex_server Map.empty NewIndex"
    by (rule distributed.started [of ex_server_options Map.empty Map.empty])
      (simp_all add: NewServer_def ex_server_options_def ex_server_def ex_stream_ops_def ex_cache_def)
  then have "distributed ex_stream_ops ex_index_options (UpsertPod (ex_pod ''a'' 1) (op_NewIndex ex_index_options)) ex_server Map.empty NewIndex"
    by (rule distributed.observed [where ev = "PodSeen (ex_pod ''a'' 1)"]) (simp add: index_apply_def)
  then show ?thesis unfolding ex_op_index_def
    by (rule distributed.observed [where ev = "PodSeen (ex_pod ''b'' 2)"]) (simp add: index_apply_def)
qed

lemma ex_stream_laws: "cache_law (st_cacheW ex_stream_ops)" "st_equalW ex_stream_ops a b \<longleftrightarrow> a = b"
  by (auto simp: cache_law_def ex_stream_ops_def ex_cache_def)

lemma ex_Sync:
  "\<exists>s'. Sync ex_stream_ops ex_op_index ex_server = ((None, None), s') \<and>
     lc_resources (st_cacheW ex_stream_ops) (sv_workloads s') = map_of (next_workloads ex_op_index)"
proof -
  have ok: "\<exists>c'. applyDiff (=) (ex_cache :: ('m, string \<rightharpoonup> 'm) linear_cache) c prev nxt = (None, c')" for c prev and nxt :: "(string \<times> 'm) list"
    by (simp add: applyDiff_def Let_def ex_cache_def)
  obtain s' where s': "Sync ex_stream_ops ex_op_index ex_server = ((None, None), s')"
    using ok [of "sv_workloads ex_server" "sv_lastWorkloads ex_server" "next_workloads ex_op_index"]
      ok [of "sv_services ex_server" "sv_lastServices ex_server" "next_services ex_op_index"]
    by (auto simp: Sync_def Let_def ex_stream_ops_def)
  have "lc_resources (st_cacheW ex_stream_ops) (sv_workloads ex_server) = map_of (sv_lastWorkloads ex_server)"
    by (simp add: ex_stream_ops_def ex_cache_def ex_server_def)
  from Sync_published(1) [OF ex_stream_laws(2,1) this s'] s' show ?thesis by blast
qed


end
