(* ===== verification/Spec2Isabelle.thy ===== *)
theory Spec2Isabelle
  imports HG_Prelude Netip Identity_Index Selector Client_IP Request_Context Chain_Executor Chain_Registry Config
    Router Ext_Proc_Server Server_Lifecycle Rate_Limiter Rate_Algorithms Rate_Quota Simple_Filters
    Digest API_Key Policy_Manager Netip_Text JWT_Auth Sidecar_Filters Enricher Filter_Factory Engine
    Operator_Index Operator_Cache Operator_Server
begin

text \<open>
  \<^bold>\<open>HyperGate.\<close> The engine is an external processor for Envoy. It loads a configuration of routes and filter chains,
  answers each message of a request's ext_proc stream by running the chain that routing selects, and replaces its policy
  while streams are being served. A Kubernetes operator watches the cluster and streams to every engine which workload is
  behind which address; routes refer to these identities.

  \<^bold>\<open>Shared theories.\<close>
  \<^item> \<^verbatim>\<open>HG_Prelude\<close>: strings as lists of bytes with the operations of Go's \<^verbatim>\<open>strings\<close> and \<^verbatim>\<open>strconv\<close> that the sources
    use, results of fallible code, loops that stop at the first error, shared lemmas.
  \<^item> \<^verbatim>\<open>Netip\<close>, \<^verbatim>\<open>Netip_Text\<close>: \<^verbatim>\<open>net/netip\<close> addresses and prefixes as 32 and 128 bit words, their syntax, and that the
    text of an address parses to that address. \<^verbatim>\<open>Digest\<close>: SHA-256 and MD5, whose constants are computed.

  \<^bold>\<open>Requests.\<close>
  \<^item> \<^verbatim>\<open>Selector\<close> (\<^verbatim>\<open>internal/selector\<close>): parsing, compiling and matching of selectors; a compiled list matches exactly when
    an entry read on its own does.
  \<^item> \<^verbatim>\<open>Client_IP\<close> (\<^verbatim>\<open>internal/clientip\<close>): forged X-Forwarded-For entries are ignored.
  \<^item> \<^verbatim>\<open>Request_Context\<close> (\<^verbatim>\<open>internal/engine/context.go\<close>, \<^verbatim>\<open>internal/memory/pool.go\<close>): the context filters share, its
    invariant, reading after writing (locale \<open>header_store\<close>), and that a pooled context carries nothing over.
  \<^item> \<^verbatim>\<open>Chain_Executor\<close> (\<^verbatim>\<open>executor.go\<close>, \<^verbatim>\<open>audit.go\<close>): the loop over the filters; the first denial decides, an audited denial
    is rolled back, and what every filter keeps the chain keeps (locale \<open>chain_invariant\<close>).
  \<^item> \<^verbatim>\<open>Router\<close> (\<^verbatim>\<open>internal/router\<close>): routing decides as the routes read as written.
  \<^item> \<^verbatim>\<open>Ext_Proc_Server\<close> (\<^verbatim>\<open>internal/grpc\<close>): one handler per kind of message, the stream loop, and the mutations sent to
    Envoy. Requests continue only when everything needed for a decision is there, denials are final, one response of the right
    kind per message, and Envoy's result is what the filters read.
  \<^item> \<^verbatim>\<open>Server_Lifecycle\<close>: the concurrency limiter under interleaving, and the wait before shutdown. \<open>WaitForQuiet\<close> takes as many
    passes as fuel; the number of ticks in the maximal delay is shown to be enough.

  \<^bold>\<open>Filters.\<close> Each is a function on the context and the state of the world that may return an error.
  \<^item> \<^verbatim>\<open>Simple_Filters\<close>: deny, header modifier, correlation id and CORS. \<^verbatim>\<open>API_Key\<close>, \<^verbatim>\<open>JWT_Auth\<close>, \<^verbatim>\<open>Sidecar_Filters\<close> (external
    authorization and firewall), \<^verbatim>\<open>Enricher\<close>: who passes, and which headers the upstream can trust.
  \<^item> \<^verbatim>\<open>Rate_Limiter\<close>, \<^verbatim>\<open>Rate_Algorithms\<close>, \<^verbatim>\<open>Rate_Quota\<close>: the choice of the policy, the five algorithms with their Redis scripts,
    and the quotas that hold over many interleaved requests. Counters and limits keep their width where overflow matters.
  \<^item> \<^verbatim>\<open>Filter_Factory\<close>: the filter made for each type; all of them satisfy the contract the executor's proofs use (locale
    \<open>filter_contract\<close>).

  \<^bold>\<open>Policies.\<close>
  \<^item> \<^verbatim>\<open>Config\<close> (\<^verbatim>\<open>internal/config\<close>): defaults, validation and compilation of a decoded file; what a file that loads satisfies.
  \<^item> \<^verbatim>\<open>Chain_Registry\<close> (\<^verbatim>\<open>internal/engine/registry.go\<close>): snapshots with atomic counters, as a step relation over the atomic
    accesses of all threads; a cleanup runs once, only after retirement, and is not lost.
  \<^item> \<^verbatim>\<open>Policy_Manager\<close> (\<^verbatim>\<open>internal/policy\<close>): building a snapshot with reuse of clients and filters; published chains are the
    configured ones, every resource is accounted for over all sequences of reloads, and a failed reload changes nothing.
  \<^item> \<^verbatim>\<open>Engine\<close>: the composition; every stream served on a policy built from a configuration that loads finds its chain and keeps
    its context consistent.

  \<^bold>\<open>Identities.\<close>
  \<^item> \<^verbatim>\<open>Operator_Index\<close> (\<^verbatim>\<open>hyper-operator/internal/identity/index.go\<close>): the operator's map. It never panics, and its answers are a
    function of the last state of the cluster's objects (\<open>observe\<close>, \<open>newest_claimant\<close>, \<open>pod_identity\<close>), whatever the order of the
    events. Reference counts are the interface \<open>ref_store\<close>.
  \<^item> \<^verbatim>\<open>Operator_Cache\<close> (\<^verbatim>\<open>cache.go\<close>): the informers' transforms and handlers; what the transforms drop never matters.
  \<^item> \<^verbatim>\<open>Identity_Index\<close> (\<^verbatim>\<open>internal/identity\<close>): the engine's copy, filled from delta updates.
  \<^item> \<^verbatim>\<open>Operator_Server\<close> (\<^verbatim>\<open>server.go\<close>): diffing into the resource caches, messages, authentication, certificates; and the relation
    \<open>distributed\<close> over operator, server and engine, with the theorem that the engine answers every lookup as the operator does.

  \<^bold>\<open>Parameters.\<close> Code outside the repository is an argument: Redis commands, HTTP and gRPC sidecars, the JWT and JSON path
  libraries, regular expressions, the YAML decoder, protobuf decoding and equality, the control plane's resource caches,
  clocks and random draws. What is assumed of them is stated as laws (\<open>cache_law\<close>, \<open>ticker_law\<close>, the laws of the Redis operations) and
  every theorem that uses one has an instance in which it holds. Go maps are functions, or association lists in the order of
  the iteration where the code iterates; the theorems hold for every order. A panic is \<open>None\<close>.

  \<^bold>\<open>Not modelled.\<close> Process start-up, flags, logging and metrics export; the Redis driver with its pool, pipeline and health
  checks; file watching; the set-up of gRPC, TLS and informers: these are I/O around the modelled parts. The operator's controllers,
  route compiler, webhooks, token review cache and endpoint publisher are not translated: they consist of calls of the
  Kubernetes API and write files that the engine validates again when it loads them. Resource declarations and generated code
  have no behaviour of their own. Fractions of durations are exact instead of floating-point, and timeouts are decided by an
  oracle of the world.
\<close>

end
